theory Spec2Isabelle
  imports Main "HOL-Library.Word"
begin

section \<open>Errors and machine integers\<close>

text \<open>
  \<^verbatim>\<open>size_t\<close> is a 64-bit unsigned integer: \<open>+\<close>, \<open>-\<close> and \<open>*\<close> wrap around.
  The C++ exceptions of \<^verbatim>\<open>nmf.hpp\<close> are values of \<open>error\<close>; the string is the fixed
  part of the message. Dereferencing a null pointer is undefined behaviour in C++; the
  model makes it the outcome \<open>null_dereference\<close>.
\<close>

type_synonym size_t = "64 word"

datatype error =
    invalid_argument string
  | runtime_error string
  | length_error string
  | out_of_range string
  | null_dereference

section \<open>Array1D: 1-based indexing, negative indices from the end\<close>

definition Array1D_index :: "nat \<Rightarrow> int \<Rightarrow> error + nat" where
  "Array1D_index n i =
     (let N = int n in
      if 1 \<le> i \<and> i \<le> N then Inr (nat (i - 1))
      else if - N \<le> i \<and> i \<le> -1 then Inr (nat (N + i))
      else Inl (invalid_argument ''is not a valid 1-based index.''))"

section \<open>Cells\<close>

text \<open>
  \<^verbatim>\<open>HEX_CELL() : CELL(true)\<close>: the cell's own sequence number, eight node numbers and six
  face numbers, all 0 (unassigned).
\<close>

record CELL =
  m_cell :: size_t
  m_node :: "size_t list"
  m_face :: "size_t list"

definition HEX_CELL :: CELL where
  "HEX_CELL = \<lparr>m_cell = 0, m_node = replicate 8 0, m_face = replicate 6 0\<rparr>"

definition vector_at :: "'a list \<Rightarrow> nat \<Rightarrow> error + 'a" where
  "vector_at xs n = (if n < length xs then Inr (xs ! n) else Inl (out_of_range ''vector::at''))"

definition CellSeq :: "CELL \<Rightarrow> size_t" where
  "CellSeq c = m_cell c"

text \<open>\<^verbatim>\<open>NodeSeq(int n)\<close> is \<^verbatim>\<open>m_node.at(n - 1)\<close>: the int \<open>n - 1\<close> becomes a \<^verbatim>\<open>size_t\<close>,
  so \<open>n \<le> 0\<close> gives an index beyond every vector.\<close>

definition NodeSeq :: "CELL \<Rightarrow> int \<Rightarrow> error + size_t" where
  "NodeSeq c n = (if 1 \<le> n then vector_at (m_node c) (nat (n - 1)) else Inl (out_of_range ''vector::at''))"

definition FaceSeq :: "CELL \<Rightarrow> int \<Rightarrow> error + size_t" where
  "FaceSeq c n = (if 1 \<le> n then vector_at (m_face c) (nat (n - 1)) else Inl (out_of_range ''vector::at''))"

section \<open>Block3D\<close>

text \<open>
  Pointers. An \<^verbatim>\<open>EDGE*\<close> or \<^verbatim>\<open>SURF*\<close> stored by the constructor points into the
  block's own \<^verbatim>\<open>m_edge\<close> or \<^verbatim>\<open>m_surf\<close>: it is the 0-based position there, \<open>None\<close> for
  \<^verbatim>\<open>nullptr\<close>. \<^verbatim>\<open>dependentBlock\<close> is only ever \<^verbatim>\<open>nullptr\<close> or \<^verbatim>\<open>this\<close>. A
  \<^verbatim>\<open>neighbourSurf\<close> points to a surface of a block held by the mapping: the 0-based slot
  of the block in \<^verbatim>\<open>m_blk\<close> and the 0-based position of the surface in that block.
\<close>

record EDGE =
  e_local_index :: int
  e_global_index :: int
  e_dependentBlock :: "unit option"
  dependentSurf :: "nat option list"

record SURF =
  s_local_index :: int
  includedEdge :: "nat option list"
  counterpartEdge :: "nat option list"
  s_dependentBlock :: "unit option"
  neighbourSurf :: "(nat \<times> nat) option"

record Block3D =
  idx :: size_t
  m_nI :: size_t
  m_nJ :: size_t
  m_nK :: size_t
  blk_cell :: "CELL list"
  m_edge :: "EDGE list"
  m_surf :: "SURF list"

definition NumOfEdge :: nat where "NumOfEdge = 12"
definition NumOfSurf :: nat where "NumOfSurf = 6"

definition EDGE0 :: EDGE where
  "EDGE0 = \<lparr>e_local_index = 0, e_global_index = 0, e_dependentBlock = None,
             dependentSurf = [None, None]\<rparr>"

definition SURF0 :: SURF where
  "SURF0 = \<lparr>s_local_index = 0, includedEdge = [None, None, None, None],
             counterpartEdge = [None, None, None, None], s_dependentBlock = None,
             neighbourSurf = None\<rparr>"

definition IDIM :: "Block3D \<Rightarrow> size_t" where "IDIM b = m_nI b"
definition JDIM :: "Block3D \<Rightarrow> size_t" where "JDIM b = m_nJ b"
definition KDIM :: "Block3D \<Rightarrow> size_t" where "KDIM b = m_nK b"

text \<open>A \<^verbatim>\<open>Block3D\<close> is three-dimensional, so only the \<^verbatim>\<open>is3D()\<close> branches apply.\<close>

definition cell_num :: "Block3D \<Rightarrow> size_t" where
  "cell_num b = (IDIM b - 1) * (JDIM b - 1) * (KDIM b - 1)"

definition face_num :: "Block3D \<Rightarrow> size_t" where
  "face_num b =
     (let ret = 0;
          ret = ret + (IDIM b - 1) * JDIM b * KDIM b;
          ret = ret + IDIM b * (JDIM b - 1) * KDIM b;
          ret = ret + IDIM b * JDIM b * (KDIM b - 1)
      in ret)"

text \<open>The two initialising loops of the constructor.\<close>

definition init_edges :: "EDGE list \<Rightarrow> EDGE list" where
  "init_edges es =
     map (\<lambda>(i, e). e\<lparr>e_local_index := int i + 1, e_dependentBlock := Some ()\<rparr>)
         (zip [0..<length es] es)"

definition init_surfs :: "SURF list \<Rightarrow> SURF list" where
  "init_surfs ss =
     map (\<lambda>(i, s). s\<lparr>s_local_index := int i + 1, s_dependentBlock := Some ()\<rparr>)
         (zip [0..<length ss] ss)"

text \<open>\<^verbatim>\<open>m_surf[s].includedEdge = { &m_edge[a], &m_edge[b], &m_edge[c], &m_edge[d] }\<close> and
  \<^verbatim>\<open>m_edge[e].dependentSurf = { &m_surf[a], &m_surf[b] }\<close>.\<close>

definition set_includedEdge :: "nat \<Rightarrow> nat list \<Rightarrow> SURF list \<Rightarrow> SURF list" where
  "set_includedEdge s es ss = ss[s := (ss ! s)\<lparr>includedEdge := map Some es\<rparr>]"

definition set_dependentSurf :: "nat \<Rightarrow> nat list \<Rightarrow> EDGE list \<Rightarrow> EDGE list" where
  "set_dependentSurf e ss es = es[e := (es ! e)\<lparr>dependentSurf := map Some ss\<rparr>]"

definition wire_surfs :: "SURF list \<Rightarrow> SURF list" where
  "wire_surfs =
     set_includedEdge 5 [2, 7, 3, 6] \<circ>
     set_includedEdge 4 [0, 4, 1, 5] \<circ>
     set_includedEdge 3 [1, 11, 2, 10] \<circ>
     set_includedEdge 2 [0, 9, 3, 8] \<circ>
     set_includedEdge 1 [5, 10, 6, 9] \<circ>
     set_includedEdge 0 [4, 8, 7, 11]"

definition wire_edges :: "EDGE list \<Rightarrow> EDGE list" where
  "wire_edges =
     set_dependentSurf 11 [3, 0] \<circ>
     set_dependentSurf 10 [1, 3] \<circ>
     set_dependentSurf 9 [2, 1] \<circ>
     set_dependentSurf 8 [0, 2] \<circ>
     set_dependentSurf 7 [5, 0] \<circ>
     set_dependentSurf 6 [1, 5] \<circ>
     set_dependentSurf 5 [4, 1] \<circ>
     set_dependentSurf 4 [0, 4] \<circ>
     set_dependentSurf 3 [5, 2] \<circ>
     set_dependentSurf 2 [3, 5] \<circ>
     set_dependentSurf 1 [4, 3] \<circ>
     set_dependentSurf 0 [2, 4]"

text \<open>
  \<^verbatim>\<open>Block3D(int nI, int nJ, int nK)\<close>. The base class \<^verbatim>\<open>BLOCK\<close> throws when a dimension
  is below 2; the ints become \<^verbatim>\<open>size_t\<close> members; \<^verbatim>\<open>m_cell\<close> gets \<^verbatim>\<open>cell_num()\<close>
  default cells (the \<^verbatim>\<open>std::length_error\<close> or \<^verbatim>\<open>std::bad_alloc\<close> of a vector too large
  to allocate is not modelled).
\<close>

definition BLOCK :: "int \<Rightarrow> int \<Rightarrow> int \<Rightarrow> error + Block3D" where
  "BLOCK nI nJ nK =
     (if nI < 2 \<or> nJ < 2 \<or> nK < 2 then Inl (invalid_argument ''Invalid dimension.'')
      else Inr \<lparr>idx = 0, m_nI = word_of_int nI, m_nJ = word_of_int nJ, m_nK = word_of_int nK,
                blk_cell = [], m_edge = [], m_surf = []\<rparr>)"

definition Block3D_new :: "int \<Rightarrow> int \<Rightarrow> int \<Rightarrow> error + Block3D" where
  "Block3D_new nI nJ nK =
     (case BLOCK nI nJ nK of
        Inl e \<Rightarrow> Inl e
      | Inr b \<Rightarrow>
          Inr (b\<lparr>blk_cell := replicate (unat (cell_num b)) HEX_CELL,
                 m_edge := wire_edges (init_edges (replicate NumOfEdge EDGE0)),
                 m_surf := wire_surfs (init_surfs (replicate NumOfSurf SURF0))\<rparr>))"

text \<open>\<^verbatim>\<open>edge(int n)\<close> and \<^verbatim>\<open>surf(int n)\<close>: 1-based, negative indices count from the end.
  The result is the 0-based position in \<^verbatim>\<open>m_edge\<close> or \<^verbatim>\<open>m_surf\<close> for \<^verbatim>\<open>at\<close>.\<close>

definition edge_pos :: "int \<Rightarrow> error + nat" where
  "edge_pos n =
     (if 1 \<le> n \<and> n \<le> int NumOfEdge then Inr (nat (n - 1))
      else if - int NumOfEdge \<le> n \<and> n \<le> -1 then Inr (nat (int NumOfEdge + n))
      else Inl (invalid_argument ''is not a valid edge index for a 3D block.''))"

definition surf_pos :: "int \<Rightarrow> error + nat" where
  "surf_pos n =
     (if 1 \<le> n \<and> n \<le> int NumOfSurf then Inr (nat (n - 1))
      else if - int NumOfSurf \<le> n \<and> n \<le> -1 then Inr (nat (int NumOfSurf + n))
      else Inl (invalid_argument ''is not a valid 1-based surface index for a block.''))"


definition surf :: "Block3D \<Rightarrow> int \<Rightarrow> error + nat" where
  "surf b n =
     (case surf_pos n of
        Inl e \<Rightarrow> Inl e
      | Inr p \<Rightarrow> if p < length (m_surf b) then Inr p else Inl (out_of_range ''vector::at''))"

text \<open>\<^verbatim>\<open>cell(i, j, k)\<close>: the position in \<^verbatim>\<open>m_cell\<close>, computed in \<^verbatim>\<open>size_t\<close>, for \<^verbatim>\<open>at\<close>.\<close>

definition cell_pos :: "Block3D \<Rightarrow> size_t \<Rightarrow> size_t \<Rightarrow> size_t \<Rightarrow> size_t" where
  "cell_pos b i j k =
     (let i0 = i - 1; j0 = j - 1; k0 = k - 1
      in i0 + (m_nI b - 1) * (j0 + (m_nJ b - 1) * k0))"

definition cell :: "Block3D \<Rightarrow> size_t \<Rightarrow> size_t \<Rightarrow> size_t \<Rightarrow> error + CELL" where
  "cell b i j k = vector_at (blk_cell b) (unat (cell_pos b i j k))"

section \<open>Boundary conditions\<close>

definition COLLAPSED :: int where "COLLAPSED = 1"
definition ONE_TO_ONE :: int where "ONE_TO_ONE = 2"
definition PATCHED :: int where "PATCHED = 3"
definition POLE_DIR1 :: int where "POLE_DIR1 = 4"
definition POLE_DIR2 :: int where "POLE_DIR2 = 5"
definition SYM_X :: int where "SYM_X = 6"
definition SYM_Y :: int where "SYM_Y = 7"
definition SYM_Z :: int where "SYM_Z = 8"
definition UNPROCESSED :: int where "UNPROCESSED = 9"
definition WALL :: int where "WALL = 10"
definition SYM :: int where "SYM = 11"
definition INFLOW :: int where "INFLOW = 12"
definition OUTFLOW :: int where "OUTFLOW = 13"

text \<open>\<^verbatim>\<open>::toupper\<close> in the C locale, and \<^verbatim>\<open>str_formalize\<close>: upper case, then \<open>-\<close> becomes \<open>_\<close>.\<close>

definition toupper :: "char \<Rightarrow> char" where
  "toupper c =
     (let n = (of_char c :: int) in if 97 \<le> n \<and> n \<le> 122 then char_of (n - 32) else c)"

definition str_formalize :: "string \<Rightarrow> string" where
  "str_formalize s = map (\<lambda>e. if e = CHR ''-'' then CHR ''_'' else e) (map toupper s)"

definition isValidBCStr :: "string \<Rightarrow> bool" where
  "isValidBCStr x =
     (str_formalize x \<in> set [''COLLAPSED'', ''ONE_TO_ONE'', ''PATCHED'', ''POLE_DIR1'',
        ''POLE_DIR2'', ''SYM_X'', ''SYM_Y'', ''SYM_Z'', ''UNPROCESSED'', ''WALL'', ''SYM'',
        ''INFLOW'', ''OUTFLOW''])"

definition idx2str :: "int \<Rightarrow> error + string" where
  "idx2str x =
     (case map_of [(COLLAPSED, ''COLLAPSED''), (ONE_TO_ONE, ''ONE_TO_ONE''),
                   (PATCHED, ''PATCHED''), (POLE_DIR1, ''POLE_DIR1''),
                   (POLE_DIR2, ''POLE_DIR2''), (SYM_X, ''SYM_X''), (SYM_Y, ''SYM_Y''),
                   (SYM_Z, ''SYM_Z''), (UNPROCESSED, ''UNPROCESSED''), (WALL, ''WALL''),
                   (SYM, ''SYM''), (INFLOW, ''INFLOW''), (OUTFLOW, ''OUTFLOW'')] x of
        None \<Rightarrow> Inl (runtime_error ''Not found!'')
      | Some s \<Rightarrow> Inr s)"

definition str2idx :: "string \<Rightarrow> error + int" where
  "str2idx x =
     (case map_of [(''COLLAPSED'', COLLAPSED), (''ONE_TO_ONE'', ONE_TO_ONE),
                   (''PATCHED'', PATCHED), (''POLE_DIR1'', POLE_DIR1),
                   (''POLE_DIR2'', POLE_DIR2), (''SYM_X'', SYM_X), (''SYM_Y'', SYM_Y),
                   (''SYM_Z'', SYM_Z), (''UNPROCESSED'', UNPROCESSED), (''WALL'', WALL),
                   (''SYM'', SYM), (''SYMMETRY'', SYM), (''INFLOW'', INFLOW),
                   (''OUTFLOW'', OUTFLOW)] (str_formalize x) of
        None \<Rightarrow> Inl (runtime_error ''Not found!'')
      | Some i \<Rightarrow> Inr i)"

section \<open>Mapping3D: entries\<close>

text \<open>\<^verbatim>\<open>RANGE\<close>: the fields \<^verbatim>\<open>m_blk, m_face, m_s1, m_e1, m_s2, m_e2\<close>, read through
  \<^verbatim>\<open>B(), F(), S1(), E1(), S2(), E2()\<close>.\<close>

record RANGE =
  rg_B :: size_t
  rg_F :: size_t
  rg_S1 :: size_t
  rg_E1 :: size_t
  rg_S2 :: size_t
  rg_E2 :: size_t

definition RANGE_of :: "size_t list \<Rightarrow> RANGE" where
  "RANGE_of src = \<lparr>rg_B = src ! 0, rg_F = src ! 1, rg_S1 = src ! 2, rg_E1 = src ! 3,
                    rg_S2 = src ! 4, rg_E2 = src ! 5\<rparr>"

definition pri_node_num :: "RANGE \<Rightarrow> size_t" where
  "pri_node_num r = rg_E1 r - rg_S1 r + 1"

definition sec_node_num :: "RANGE \<Rightarrow> size_t" where
  "sec_node_num r = rg_E2 r - rg_S2 r + 1"

definition RANGE_face_num :: "RANGE \<Rightarrow> size_t" where
  "RANGE_face_num r = (pri_node_num r - 1) * (sec_node_num r - 1)"

text \<open>An entry is a \<^verbatim>\<open>SingleSideEntry\<close> (\<^verbatim>\<open>m_bc\<close>, \<^verbatim>\<open>m_rg1\<close>) or a \<^verbatim>\<open>DoubleSideEntry\<close>
  (\<^verbatim>\<open>m_bc\<close>, \<^verbatim>\<open>m_rg1\<close>, \<^verbatim>\<open>m_rg2\<close>, \<^verbatim>\<open>m_swap\<close>).\<close>

datatype ENTRY =
    SingleSideEntry int RANGE
  | DoubleSideEntry int RANGE RANGE bool

fun Type :: "ENTRY \<Rightarrow> int" where
  "Type (SingleSideEntry t r) = t"
| "Type (DoubleSideEntry t r1 r2 f) = t"

fun Range1 :: "ENTRY \<Rightarrow> RANGE" where
  "Range1 (SingleSideEntry t r) = r"
| "Range1 (DoubleSideEntry t r1 r2 f) = r1"

text \<open>The \<^verbatim>\<open>ENTRY\<close> constructor checks the keyword with \<^verbatim>\<open>isValidBCStr\<close>, whose set has
  no \<^verbatim>\<open>SYMMETRY\<close>, before \<^verbatim>\<open>str2idx\<close>.\<close>

definition ENTRY_bc :: "string \<Rightarrow> error + int" where
  "ENTRY_bc t = (if isValidBCStr t then str2idx t else Inl (runtime_error ''Unsupported B.C. name''))"

definition SingleSideEntry_new :: "string \<Rightarrow> size_t list \<Rightarrow> error + ENTRY" where
  "SingleSideEntry_new t s =
     (case ENTRY_bc t of Inl e \<Rightarrow> Inl e | Inr bc \<Rightarrow> Inr (SingleSideEntry bc (RANGE_of s)))"

definition DoubleSideEntry_new :: "string \<Rightarrow> size_t list \<Rightarrow> size_t list \<Rightarrow> bool \<Rightarrow> error + ENTRY" where
  "DoubleSideEntry_new t s1 s2 f =
     (case ENTRY_bc t of
        Inl e \<Rightarrow> Inl e
      | Inr bc \<Rightarrow> Inr (DoubleSideEntry bc (RANGE_of s1) (RANGE_of s2) f))"

section \<open>Mapping3D: counts\<close>

text \<open>\<^verbatim>\<open>m_blk\<close> holds pointers to blocks (\<open>None\<close> is \<^verbatim>\<open>nullptr\<close>), \<^verbatim>\<open>m_entry\<close> the entries.\<close>

record Mapping3D =
  m_blk :: "Block3D option list"
  m_entry :: "ENTRY list"

definition nBlk :: "Mapping3D \<Rightarrow> size_t" where
  "nBlk m = of_nat (length (m_blk m))"

fun sum_blocks :: "(Block3D \<Rightarrow> size_t) \<Rightarrow> Block3D option list \<Rightarrow> size_t \<Rightarrow> error + size_t" where
  "sum_blocks f [] ret = Inr ret"
| "sum_blocks f (None # bs) ret = Inl null_dereference"
| "sum_blocks f (Some b # bs) ret = sum_blocks f bs (ret + f b)"

definition nCell :: "Mapping3D \<Rightarrow> error + size_t" where
  "nCell m = sum_blocks cell_num (m_blk m) 0"

fun subtract_interfaces :: "ENTRY list \<Rightarrow> size_t \<Rightarrow> size_t" where
  "subtract_interfaces [] ret = ret"
| "subtract_interfaces (e # es) ret =
     subtract_interfaces es
       (if Type e = ONE_TO_ONE then ret - RANGE_face_num (Range1 e) else ret)"

definition nFace :: "Mapping3D \<Rightarrow> error + size_t" where
  "nFace m =
     (case sum_blocks face_num (m_blk m) 0 of
        Inl e \<Rightarrow> Inl e
      | Inr ret \<Rightarrow> Inr (subtract_interfaces (m_entry m) ret))"

section \<open>Mapping3D: numbering\<close>

text \<open>A loop body that may throw, run over the values of the loop variable in order.\<close>

fun foldE :: "('a \<Rightarrow> 's \<Rightarrow> error + 's) \<Rightarrow> 'a list \<Rightarrow> 's \<Rightarrow> error + 's" where
  "foldE f [] s = Inr s"
| "foldE f (x # xs) s = (case f x s of Inl e \<Rightarrow> Inl e | Inr s' \<Rightarrow> foldE f xs s')"

text \<open>The values of \<open>v\<close> in \<^verbatim>\<open>for (size_t v = lo; v < hi; ++v)\<close>.\<close>

definition size_t_range :: "size_t \<Rightarrow> size_t \<Rightarrow> size_t list" where
  "size_t_range lo hi = map of_nat [unat lo..<unat hi]"

text \<open>\<^verbatim>\<open>blk->cell(i, j, k).CellSeq() = ++cnt\<close>.\<close>

definition assign_CellSeq :: "size_t \<times> size_t \<times> size_t \<Rightarrow> Block3D \<times> size_t \<Rightarrow> error + Block3D \<times> size_t" where
  "assign_CellSeq kji st =
     (case kji of (k, j, i) \<Rightarrow> case st of (b, cnt) \<Rightarrow>
        (let cnt' = cnt + 1; p = unat (cell_pos b i j k) in
         if p < length (blk_cell b)
         then Inr (b\<lparr>blk_cell := (blk_cell b)[p := (blk_cell b ! p)\<lparr>m_cell := cnt'\<rparr>]\<rparr>, cnt')
         else Inl (out_of_range ''vector::at'')))"

definition kji_loops :: "Block3D \<Rightarrow> (size_t \<times> size_t \<times> size_t) list" where
  "kji_loops b =
     concat (map (\<lambda>k. concat (map (\<lambda>j. map (\<lambda>i. (k, j, i)) (size_t_range 1 (IDIM b)))
                                   (size_t_range 1 (JDIM b))))
                 (size_t_range 1 (KDIM b)))"

definition number_block_cells :: "Block3D \<Rightarrow> size_t \<Rightarrow> error + Block3D \<times> size_t" where
  "number_block_cells b cnt = foldE assign_CellSeq (kji_loops b) (b, cnt)"

fun number_cells :: "Block3D option list \<Rightarrow> size_t \<Rightarrow> error + Block3D option list \<times> size_t" where
  "number_cells [] cnt = Inr ([], cnt)"
| "number_cells (None # bs) cnt = Inl null_dereference"
| "number_cells (Some b # bs) cnt =
     (case number_block_cells b cnt of
        Inl e \<Rightarrow> Inl e
      | Inr (b', cnt') \<Rightarrow>
          (case number_cells bs cnt' of
             Inl e \<Rightarrow> Inl e
           | Inr (bs', c) \<Rightarrow> Inr (Some b' # bs', c)))"

text \<open>The face sweep: the loop over the blocks reads the three dimensions of each block
  and does nothing else, so \<open>cnt\<close> stays 0.\<close>

fun number_faces :: "Block3D option list \<Rightarrow> size_t \<Rightarrow> error + size_t" where
  "number_faces [] cnt = Inr cnt"
| "number_faces (None # bs) cnt = Inl null_dereference"
| "number_faces (Some b # bs) cnt = number_faces bs cnt"

text \<open>\<^verbatim>\<open>numbering()\<close>: the value returned, with the object as the call leaves it.\<close>

definition numbering :: "Mapping3D \<Rightarrow> error + int \<times> Mapping3D" where
  "numbering m =
     (case number_cells (m_blk m) 0 of
        Inl e \<Rightarrow> Inl e
      | Inr (bs, cnt) \<Rightarrow>
          (let m1 = m\<lparr>m_blk := bs\<rparr> in
           case nCell m1 of
             Inl e \<Rightarrow> Inl e
           | Inr totalCellNum \<Rightarrow>
               if cnt \<noteq> totalCellNum then Inl (length_error ''Inconsistent num of cells detected.'')
               else
                 (case number_faces (m_blk m1) 0 of
                    Inl e \<Rightarrow> Inl e
                  | Inr cnt2 \<Rightarrow>
                      (case nFace m1 of
                         Inl e \<Rightarrow> Inl e
                       | Inr totalFaceNum \<Rightarrow>
                           if cnt2 \<noteq> totalFaceNum
                           then Inl (length_error ''Inconsistent num of cells detected.'')
                           else Inr (0, m1)))))"


section \<open>Mapping3D: establishing connectivity\<close>

definition bindE :: "error + 'a \<Rightarrow> ('a \<Rightarrow> error + 'b) \<Rightarrow> error + 'b" where
  "bindE x f = (case x of Inl e \<Rightarrow> Inl e | Inr v \<Rightarrow> f v)"

text \<open>The conversions of a \<^verbatim>\<open>size_t\<close> argument: to \<^verbatim>\<open>long long\<close> for
  \<^verbatim>\<open>Array1D::operator()\<close>, to \<^verbatim>\<open>int\<close> for \<^verbatim>\<open>surf\<close>.\<close>

definition to_long_long :: "size_t \<Rightarrow> int" where
  "to_long_long x = sint x"

definition to_int :: "size_t \<Rightarrow> int" where
  "to_int x = sint (ucast x :: 32 word)"

text \<open>\<^verbatim>\<open>m_blk(B)\<close>: the slot and the pointer in it.\<close>

definition blk_slot :: "Block3D option list \<Rightarrow> size_t \<Rightarrow> error + nat" where
  "blk_slot blks B = Array1D_index (length blks) (to_long_long B)"

text \<open>\<^verbatim>\<open>&B->surf(F)\<close> for the pointer in slot \<open>n\<close>: the surface as (slot, position).\<close>

definition surf_of :: "Block3D option list \<Rightarrow> nat \<Rightarrow> size_t \<Rightarrow> error + nat \<times> nat" where
  "surf_of blks n F =
     (case blks ! n of
        None \<Rightarrow> Inl null_dereference
      | Some b \<Rightarrow> bindE (surf b (to_int F)) (\<lambda>p. Inr (n, p)))"

definition set_neighbourSurf :: "nat \<times> nat \<Rightarrow> nat \<times> nat \<Rightarrow> Block3D option list \<Rightarrow> Block3D option list" where
  "set_neighbourSurf F G blks =
     (case blks ! fst F of
        None \<Rightarrow> blks
      | Some b \<Rightarrow>
          blks[fst F := Some (b\<lparr>m_surf := (m_surf b)[snd F :=
                   (m_surf b ! snd F)\<lparr>neighbourSurf := Some G\<rparr>]\<rparr>)])"

text \<open>The four lookups both loops over the entries start with. A \<^verbatim>\<open>dynamic_cast\<close> of a
  single-sided entry gives \<^verbatim>\<open>nullptr\<close>, dereferenced at once.\<close>

definition entry_surfaces :: "Block3D option list \<Rightarrow> ENTRY \<Rightarrow> error + (nat \<times> nat) \<times> (nat \<times> nat)" where
  "entry_surfaces blks e =
     (case e of
        SingleSideEntry t r \<Rightarrow> Inl null_dereference
      | DoubleSideEntry t r1 r2 sw \<Rightarrow>
          bindE (blk_slot blks (rg_B r1)) (\<lambda>n1.
          bindE (blk_slot blks (rg_B r2)) (\<lambda>n2.
          bindE (surf_of blks n1 (rg_F r1)) (\<lambda>F1.
          bindE (surf_of blks n2 (rg_F r2)) (\<lambda>F2. Inr (F1, F2))))))"

definition connect_entry :: "ENTRY \<Rightarrow> Block3D option list \<Rightarrow> error + Block3D option list" where
  "connect_entry e blks =
     (if Type e = ONE_TO_ONE
      then bindE (entry_surfaces blks e) (\<lambda>(F1, F2).
             Inr (set_neighbourSurf F2 F1 (set_neighbourSurf F1 F2 blks)))
      else Inr blks)"

definition establish_connectivity :: "ENTRY list \<Rightarrow> Block3D option list \<Rightarrow> error + Block3D option list" where
  "establish_connectivity es blks = foldE connect_entry es blks"

text \<open>The second loop (counterpart information) repeats the lookups; both of its
  branches are empty.\<close>

definition counterpart_entry :: "ENTRY \<Rightarrow> Block3D option list \<Rightarrow> error + Block3D option list" where
  "counterpart_entry e blks =
     (if Type e = ONE_TO_ONE
      then bindE (entry_surfaces blks e) (\<lambda>FF. Inr blks)
      else Inr blks)"

definition counterpart_information :: "ENTRY list \<Rightarrow> Block3D option list \<Rightarrow> error + Block3D option list" where
  "counterpart_information es blks = foldE counterpart_entry es blks"

section \<open>Streams\<close>

text \<open>
  A stream is the characters not yet read and the two state bits that matter here. The
  same record serves the input file (\<^verbatim>\<open>std::ifstream\<close>) and the line buffer
  (\<^verbatim>\<open>std::stringstream\<close>), whose \<open>buf\<close> grows at the end when a string is inserted.
\<close>

record istream =
  buf :: string
  eofbit :: bool
  failbit :: bool

definition good :: "istream \<Rightarrow> bool" where
  "good f = (\<not> eofbit f \<and> \<not> failbit f)"

definition isWhite :: "char \<Rightarrow> bool" where
  "isWhite c = (c = CHR 0x0A \<or> c = CHR '' '' \<or> c = CHR 0x09)"

definition isBlankLine :: "string \<Rightarrow> bool" where
  "isBlankLine s = list_all isWhite s"

fun checkStarting :: "string \<Rightarrow> char \<Rightarrow> bool" where
  "checkStarting [] c = False"
| "checkStarting (e # s) c = (if isWhite e then checkStarting s c else e = c)"

text \<open>The characters before the first newline, and what follows it (\<open>None\<close>: there is
  no newline).\<close>

fun split_line :: "string \<Rightarrow> string \<times> string option" where
  "split_line [] = ([], None)"
| "split_line (c # cs) =
     (if c = CHR 0x0A then ([], Some cs)
      else (case split_line cs of (l, r) \<Rightarrow> (c # l, r)))"

text \<open>
  \<^verbatim>\<open>std::getline(f, s)\<close>. A stream that is not good only gets its failbit set, and \<open>s\<close>
  keeps its value. Otherwise \<open>s\<close> is erased and filled up to the newline, which is
  consumed; reaching the end of the file sets eofbit, and failbit too when nothing at all
  was extracted.
\<close>

definition getline :: "istream \<Rightarrow> string \<Rightarrow> istream \<times> string" where
  "getline f s =
     (if \<not> good f then (f\<lparr>failbit := True\<rparr>, s)
      else (case split_line (buf f) of
              (l, Some r) \<Rightarrow> (f\<lparr>buf := r\<rparr>, l)
            | (l, None) \<Rightarrow> (f\<lparr>buf := [], eofbit := True, failbit := (l = [])\<rparr>, l)))"

text \<open>
  \<^verbatim>\<open>do { std::getline(mfp, s); } while (isBlankLine(s) || checkStarting(s, '#'));\<close>
  The result \<open>None\<close> says that the loop never ends: that happens exactly when the
  condition holds after a \<^verbatim>\<open>getline\<close> on a stream that was not good before it, since
  from then on neither the stream nor \<open>s\<close> changes.
\<close>

function skip_lines :: "istream \<Rightarrow> string \<Rightarrow> (istream \<times> string) option" where
  "skip_lines f s =
     (case getline f s of (f', s') \<Rightarrow>
        if isBlankLine s' \<or> checkStarting s' (CHR ''#'')
        then (if good f then skip_lines f' s' else None)
        else Some (f', s'))"
  by pat_completeness auto


lemma split_line_shorter: "split_line b = (l, Some r) \<Longrightarrow> length r < length b"
  by (induction b arbitrary: l) (auto split: if_splits prod.splits)

termination skip_lines
  apply (relation "measure (\<lambda>(f, s). if good f then Suc (length (buf f)) else 0)")
   apply simp
  apply (auto simp: getline_def good_def split: prod.splits option.splits dest: split_line_shorter)
  done

declare skip_lines.simps [simp del]


section \<open>Regular expressions, numbers\<close>

text \<open>\<^verbatim>\<open>\s\<close> and \<^verbatim>\<open>\d\<close> of \<^verbatim>\<open>std::regex\<close>, and the whitespace a formatted extraction
  skips: the C locale's \<^verbatim>\<open>isspace\<close> and \<^verbatim>\<open>isdigit\<close>.\<close>

definition isspace :: "char \<Rightarrow> bool" where
  "isspace c = (c = CHR '' '' \<or> c = CHR 0x09 \<or> c = CHR 0x0A \<or> c = CHR 0x0B \<or> c = CHR 0x0C \<or> c = CHR 0x0D)"

definition isdigit :: "char \<Rightarrow> bool" where
  "isdigit c = (let n = (of_char c :: int) in 48 \<le> n \<and> n \<le> 57)"

definition digits_value :: "string \<Rightarrow> int" where
  "digits_value ds = foldl (\<lambda>a c. 10 * a + (of_char c - 48)) 0 ds"

text \<open>
  \<^verbatim>\<open>std::regex_match(s, res, pattern1)\<close> with \<^verbatim>\<open>\s*(\d+)\s*\<close>: the whole of \<open>s\<close> is
  whitespace, a non-empty run of digits (the capture), whitespace. The two character
  classes are disjoint, so the split is unique.
\<close>

definition match_pattern1 :: "string \<Rightarrow> string option" where
  "match_pattern1 s =
     (let s1 = dropWhile isspace s;
          d1 = takeWhile isdigit s1; r1 = dropWhile isdigit s1
      in if d1 \<noteq> [] \<and> list_all isspace r1 then Some d1 else None)"

text \<open>\<^verbatim>\<open>\s*(\d+)\s+(\d+)\s+(\d+)\s+(\d+)\s*\<close>: the four captures.\<close>

definition match_pattern2 :: "string \<Rightarrow> (string \<times> string \<times> string \<times> string) option" where
  "match_pattern2 s =
     (let s1 = dropWhile isspace s;
          d1 = takeWhile isdigit s1; r1 = dropWhile isdigit s1;
          w1 = takeWhile isspace r1; s2 = dropWhile isspace r1;
          d2 = takeWhile isdigit s2; r2 = dropWhile isdigit s2;
          w2 = takeWhile isspace r2; s3 = dropWhile isspace r2;
          d3 = takeWhile isdigit s3; r3 = dropWhile isdigit s3;
          w3 = takeWhile isspace r3; s4 = dropWhile isspace r3;
          d4 = takeWhile isdigit s4; r4 = dropWhile isdigit s4
      in if d1 \<noteq> [] \<and> w1 \<noteq> [] \<and> d2 \<noteq> [] \<and> w2 \<noteq> [] \<and> d3 \<noteq> [] \<and> w3 \<noteq> [] \<and> d4 \<noteq> []
            \<and> list_all isspace r4
         then Some (d1, d2, d3, d4) else None)"

text \<open>\<^verbatim>\<open>std::stoi\<close> on a run of digits: the value, or \<^verbatim>\<open>std::out_of_range\<close> beyond
  \<^verbatim>\<open>INT_MAX\<close>.\<close>

definition stoi :: "string \<Rightarrow> error + int" where
  "stoi ds =
     (if digits_value ds > 2147483647 then Inl (out_of_range ''stoi'')
      else Inr (digits_value ds))"

section \<open>Formatted extraction from the line buffer\<close>

text \<open>
  The sentry of a formatted extraction: a stream that is not good gets its failbit
  set; otherwise leading whitespace is skipped, and running out of characters sets
  eofbit and failbit.
\<close>

definition sentry :: "istream \<Rightarrow> istream \<times> bool" where
  "sentry ss =
     (if \<not> good ss then (ss\<lparr>failbit := True\<rparr>, False)
      else (let b = dropWhile isspace (buf ss) in
            if b = [] then (ss\<lparr>buf := [], eofbit := True, failbit := True\<rparr>, False)
            else (ss\<lparr>buf := b\<rparr>, True)))"

text \<open>\<^verbatim>\<open>ss >> str\<close> for a \<^verbatim>\<open>std::string\<close>: the characters up to the next whitespace;
  \<open>str\<close> keeps its value when the sentry fails.\<close>

definition extract_string :: "istream \<Rightarrow> string \<Rightarrow> istream \<times> string" where
  "extract_string ss str =
     (case sentry ss of (ss1, ok) \<Rightarrow>
        if \<not> ok then (ss1, str)
        else (let r = dropWhile (\<lambda>c. \<not> isspace c) (buf ss1)
              in (ss1\<lparr>buf := r, eofbit := (r = [])\<rparr>, takeWhile (\<lambda>c. \<not> isspace c) (buf ss1))))"

text \<open>
  \<^verbatim>\<open>ss >> v\<close> for a \<^verbatim>\<open>size_t\<close> (\<^verbatim>\<open>num_get\<close>, base 10): an optional sign, then digits.
  No digit: \<open>v\<close> is 0 and failbit is set. A value beyond the type: the largest value and
  failbit. A minus sign negates in \<^verbatim>\<open>size_t\<close>. \<open>v\<close> keeps its value when the sentry
  fails.
\<close>

definition extract_size_t :: "istream \<Rightarrow> size_t \<Rightarrow> istream \<times> size_t" where
  "extract_size_t ss v =
     (case sentry ss of (ss1, ok) \<Rightarrow>
        if \<not> ok then (ss1, v)
        else (case buf ss1 of
                [] \<Rightarrow> (ss1, v)
              | c # cs \<Rightarrow>
                  (let b1 = (if c = CHR ''-'' \<or> c = CHR ''+'' then cs else c # cs);
                       ds = takeWhile isdigit b1; r = dropWhile isdigit b1;
                       ss2 = ss1\<lparr>buf := r, eofbit := (r = [])\<rparr>
                   in if ds = [] then (ss2\<lparr>failbit := True\<rparr>, 0)
                      else if digits_value ds > 18446744073709551615
                      then (ss2\<lparr>failbit := True\<rparr>, - 1)
                      else (ss2, if c = CHR ''-'' then - word_of_int (digits_value ds)
                                 else word_of_int (digits_value ds)))))"

text \<open>\<^verbatim>\<open>for (j = 0; j < n; j++) ss >> connectivity[i][j];\<close> into zero-initialised
  storage.\<close>

fun extract_sizes :: "nat \<Rightarrow> istream \<Rightarrow> istream \<times> size_t list" where
  "extract_sizes 0 ss = (ss, [])"
| "extract_sizes (Suc n) ss =
     (case extract_size_t ss 0 of (ss1, v) \<Rightarrow>
        (case extract_sizes n ss1 of (ss2, vs) \<Rightarrow> (ss2, v # vs)))"

text \<open>\<^verbatim>\<open>ss.clear(); ss << s;\<close>: the state bits are reset (the unread characters stay)
  and \<open>s\<close> is appended.\<close>

definition clear_and_insert :: "istream \<Rightarrow> string \<Rightarrow> istream" where
  "clear_and_insert ss s = \<lparr>buf = buf ss @ s, eofbit = False, failbit = False\<rparr>"

section \<open>readFromFile\<close>

text \<open>One round of the loop that reads the connections, for the line \<open>s\<close> (already
  passed through \<^verbatim>\<open>str_formalize\<close>).\<close>

definition read_entry :: "istream \<Rightarrow> string \<Rightarrow> error + istream \<times> ENTRY" where
  "read_entry ss0 s =
     (case extract_string (clear_and_insert ss0 s) [] of (ss1, bc_str) \<Rightarrow>
        bindE (str2idx bc_str) (\<lambda>t.
          if t = ONE_TO_ONE
          then (case extract_sizes 6 ss1 of (ss2, c0) \<Rightarrow>
                case extract_sizes 6 ss2 of (ss3, c1) \<Rightarrow>
                case extract_string ss3 [] of (ss4, swp) \<Rightarrow>
                  bindE (DoubleSideEntry_new bc_str c0 c1 (swp = ''TRUE'')) (\<lambda>e. Inr (ss4, e)))
          else (case extract_sizes 6 ss1 of (ss2, c0) \<Rightarrow>
                  bindE (SingleSideEntry_new bc_str c0) (\<lambda>e. Inr (ss2, e)))))"

text \<open>\<^verbatim>\<open>do { ... } while (std::getline(mfp, s));\<close>\<close>

function read_connections :: "istream \<Rightarrow> string \<Rightarrow> istream \<Rightarrow> ENTRY list \<Rightarrow> error + ENTRY list" where
  "read_connections f s ss es =
     (case read_entry ss (str_formalize s) of
        Inl e \<Rightarrow> Inl e
      | Inr (ss', ent) \<Rightarrow>
          (case getline f (str_formalize s) of (f', s') \<Rightarrow>
             if failbit f' then Inr (es @ [ent])
             else read_connections f' s' ss' (es @ [ent])))"
  by pat_completeness auto

termination read_connections
  apply (relation "measure (\<lambda>(f, s, ss, es). if good f then Suc (length (buf f)) else 0)")
   apply simp
  apply (auto simp: getline_def good_def split: prod.splits option.splits if_splits dest: split_line_shorter)
  done

declare read_connections.simps [simp del]

text \<open>
  One round of the loop over the block lines, for the \<open>NumOfBlk\<close> read before: the next
  line, its four integers, the checks, and \<^verbatim>\<open>m_blk(idx) = new Block3D(...)\<close> with its
  \<^verbatim>\<open>index()\<close> set.
\<close>

definition read_block :: "int \<Rightarrow> istream \<times> string \<times> Block3D option list \<Rightarrow> error + istream \<times> string \<times> Block3D option list" where
  "read_block NumOfBlk st =
     (case st of (f, s, blks) \<Rightarrow>
     (case getline f s of (f', s') \<Rightarrow>
     (case match_pattern2 s' of
        None \<Rightarrow> Inl (runtime_error ''Failed to match 4 integers.'')
      | Some (d1, d2, d3, d4) \<Rightarrow>
          bindE (stoi d1) (\<lambda>idx'.
          bindE (stoi d2) (\<lambda>i_max.
          bindE (stoi d3) (\<lambda>j_max.
          bindE (stoi d4) (\<lambda>k_max.
            if idx' < 1 \<or> idx' > NumOfBlk then Inl (runtime_error ''Invalid order of block: '')
            else if i_max < 1 then Inl (runtime_error ''Invalid I dimension: '')
            else if j_max < 1 then Inl (runtime_error ''Invalid J dimension: '')
            else if k_max < 1 then Inl (runtime_error ''Invalid K dimension: '')
            else bindE (Array1D_index (length blks) idx') (\<lambda>n.
                 bindE (Block3D_new i_max j_max k_max) (\<lambda>b.
                   Inr (f', s', blks[n := Some (b\<lparr>idx := word_of_int idx'\<rparr>)]))))))))))"

fun read_blocks :: "nat \<Rightarrow> int \<Rightarrow> istream \<times> string \<times> Block3D option list \<Rightarrow> error + istream \<times> string \<times> Block3D option list" where
  "read_blocks 0 NumOfBlk st = Inr st"
| "read_blocks (Suc i) NumOfBlk st =
     (case read_block NumOfBlk st of
        Inl e \<Rightarrow> Inl e
      | Inr st' \<Rightarrow> read_blocks i NumOfBlk st')"

text \<open>
  \<^verbatim>\<open>readFromFile(path)\<close>. The argument is what the path holds: \<open>None\<close> when the file
  cannot be opened, else its characters. The result is \<open>None\<close> when the call never
  returns, else the exception thrown or the value returned with the mapping read (the
  blocks and entries held before the call are released once the block count is read).
\<close>

definition readFromFile :: "string option \<Rightarrow> (error + int \<times> Mapping3D) option" where
  "readFromFile file =
     (case file of
        None \<Rightarrow> Some (Inl (runtime_error ''Can not open target input file: ''))
      | Some text \<Rightarrow>
     (case skip_lines \<lparr>buf = text, eofbit = False, failbit = False\<rparr> [] of
        None \<Rightarrow> None
      | Some (f1, s1) \<Rightarrow>
     (case match_pattern1 s1 of
        None \<Rightarrow> Some (Inl (runtime_error
                  ''Failed to match the single line, where only the num of blocks is specified.''))
      | Some d \<Rightarrow>
     (case stoi d of
        Inl e \<Rightarrow> Some (Inl e)
      | Inr NumOfBlk \<Rightarrow>
     if NumOfBlk \<le> 0 then Some (Inl (runtime_error ''Invalid num of blocks: ''))
     else
     (case read_blocks (nat NumOfBlk) NumOfBlk (f1, s1, replicate (nat NumOfBlk) None) of
        Inl e \<Rightarrow> Some (Inl e)
      | Inr (f2, s2, blks) \<Rightarrow>
     (case skip_lines f2 s2 of
        None \<Rightarrow> None
      | Some (f3, s3) \<Rightarrow>
          Some (bindE (read_connections f3 s3 \<lparr>buf = [], eofbit = False, failbit = False\<rparr> []) (\<lambda>es.
                bindE (establish_connectivity es blks) (\<lambda>blks1.
                bindE (counterpart_information es blks1) (\<lambda>blks2.
                  Inr (0, \<lparr>m_blk = blks2, m_entry = es\<rparr>)))))))))))"

text \<open>\<^verbatim>\<open>Mapping3D(const std::string &inp)\<close>: \<^verbatim>\<open>readFromFile(inp); numbering();\<close>\<close>

definition Mapping3D_new :: "string option \<Rightarrow> (error + Mapping3D) option" where
  "Mapping3D_new inp =
     (case readFromFile inp of
        None \<Rightarrow> None
      | Some r \<Rightarrow> Some (bindE r (\<lambda>(ret, m). bindE (numbering m) (\<lambda>(ret2, m2). Inr m2))))"

section \<open>The canonical wiring of a block\<close>

text \<open>
  The wiring of a block, read through the pointers: the local indices (1-based, as in
  the NMF convention) of the edges each surface's \<^verbatim>\<open>includedEdge\<close> points to, in order;
  every such pointer is non-null and inside \<^verbatim>\<open>m_edge\<close>; and the two \<^verbatim>\<open>dependentSurf\<close>
  pointers of each edge are the surfaces whose \<^verbatim>\<open>includedEdge\<close> holds a pointer to it.
\<close>

definition wiring_ok :: "EDGE list \<Rightarrow> nat option list list \<Rightarrow> bool" where
  "wiring_ok es inc =
     (map (map (\<lambda>p. case p of None \<Rightarrow> 0 | Some e \<Rightarrow> e_local_index (es ! e))) inc =
        [[5, 9, 8, 12], [6, 11, 7, 10], [1, 10, 4, 9], [2, 12, 3, 11], [1, 5, 2, 6], [3, 8, 4, 7]]
      \<and> length es = 12
      \<and> list_all (list_all (\<lambda>p. case p of None \<Rightarrow> False | Some e \<Rightarrow> e < 12)) inc
      \<and> list_all (\<lambda>e. length (dependentSurf (es ! e)) = 2 \<and>
            set (dependentSurf (es ! e)) =
            set (map Some (filter (\<lambda>s. Some e \<in> set (inc ! s)) [0..<6]))) [0..<12])"

definition canonical_wiring :: "Block3D \<Rightarrow> bool" where
  "canonical_wiring b = wiring_ok (m_edge b) (map includedEdge (m_surf b))"

definition all_wired :: "Block3D option list \<Rightarrow> bool" where
  "all_wired blks = list_all (\<lambda>p. case p of None \<Rightarrow> True | Some b \<Rightarrow> canonical_wiring b) blks"

section \<open>Example files\<close>

definition unlines :: "string list \<Rightarrow> string" where
  "unlines ls = concat (map (\<lambda>l. l @ [CHR 0x0A]) ls)"

text \<open>One 2 x 2 x 2 block with a wall on each of its six surfaces.\<close>

definition unit_cube_nmf :: string where
  "unit_cube_nmf = unlines
     [''# one cube'',
      ''1'',
      ''1 2 2 2'',
      '''',
      ''WALL 1 1 1 2 1 2'',
      ''WALL 1 2 1 2 1 2'',
      ''WALL 1 3 1 2 1 2'',
      ''WALL 1 4 1 2 1 2'',
      ''WALL 1 5 1 2 1 2'',
      ''WALL 1 6 1 2 1 2'']"

text \<open>Two 2 x 2 x 2 blocks glued on I-MAX of block 1 and I-MIN of block 2.\<close>

definition two_cubes_nmf :: string where
  "two_cubes_nmf = unlines
     [''2'',
      ''1 2 2 2'',
      ''2 2 2 2'',
      ''# interfaces'',
      ''ONE_TO_ONE 1 2 1 2 1 2 2 1 1 2 1 2 FALSE'',
      ''WALL 1 1 1 2 1 2'',
      ''WALL 2 2 1 2 1 2'']"

text \<open>One 2 x 2 x 2 block and one interface entry whose first range spans 12 x 1
  quads, as many as \<^verbatim>\<open>face_num()\<close> counts for the block.\<close>

definition wide_interface_nmf :: string where
  "wide_interface_nmf = unlines
     [''1'',
      ''1 2 2 2'',
      ''ONE_TO_ONE 1 1 1 13 1 2 1 2 1 13 1 2 FALSE'']"

text \<open>One block of 1073741825 x 1073741825 x 17 nodes, whose
  \<open>2 ^ 30 * 2 ^ 30 * 16 = 2 ^ 64\<close> cells \<^verbatim>\<open>cell_num()\<close> counts as 0 in \<^verbatim>\<open>size_t\<close>, and a
  wall.\<close>

definition huge_block_nmf :: string where
  "huge_block_nmf = unlines
     [''1'',
      ''1 1073741825 1073741825 17'',
      ''WALL 1 1 1 2 1 2'']"

section \<open>Counting cells\<close>

text \<open>The number of cells of a block as a natural number; a block as the constructor
  leaves it; the cells of all blocks.\<close>

definition cells_of :: "Block3D \<Rightarrow> nat" where
  "cells_of b = (unat (m_nI b) - 1) * (unat (m_nJ b) - 1) * (unat (m_nK b) - 1)"

text \<open>The assignment of one cell, on the cell vector alone.\<close>

definition assign_at :: "nat \<Rightarrow> CELL list \<times> size_t \<Rightarrow> error + CELL list \<times> size_t" where
  "assign_at p st =
     (case st of (cs, cnt) \<Rightarrow>
        if p < length cs then Inr (cs[p := (cs ! p)\<lparr>m_cell := cnt + 1\<rparr>], cnt + 1)
        else Inl (out_of_range ''vector::at''))"

definition constructed :: "Block3D \<Rightarrow> bool" where
  "constructed b =
     (2 \<le> unat (m_nI b) \<and> 2 \<le> unat (m_nJ b) \<and> 2 \<le> unat (m_nK b) \<and>
      length (blk_cell b) = unat (cell_num b))"

definition block_ok :: "Block3D option \<Rightarrow> bool" where
  "block_ok p = (case p of None \<Rightarrow> False | Some b \<Rightarrow> constructed b)"

definition total_cells :: "Block3D option list \<Rightarrow> nat" where
  "total_cells blks = sum_list (map (\<lambda>p. case p of None \<Rightarrow> 0 | Some b \<Rightarrow> cells_of b) blks)"

text \<open>A 3 x 2 x 2 block (two cells) and a 2 x 2 x 2 block (one cell), glued on I-MAX of
  block 1 and I-MIN of block 2, walls elsewhere.\<close>

definition two_blocks_nmf :: string where
  "two_blocks_nmf = unlines
     [''# Block#    IDIM    JDIM    KDIM'',
      ''2'',
      ''1 3 2 2'',
      ''2 2 2 2'',
      '''',
      ''ONE_TO_ONE 1 2 1 2 1 2 2 1 1 2 1 2 FALSE'',
      ''WALL 1 1 1 2 1 2'',
      ''WALL 1 3 1 3 1 2'',
      ''WALL 1 4 1 3 1 2'',
      ''WALL 1 5 1 3 1 2'',
      ''WALL 1 6 1 3 1 2'',
      ''WALL 2 2 1 2 1 2'',
      ''WALL 2 3 1 2 1 2'',
      ''WALL 2 4 1 2 1 2'',
      ''WALL 2 5 1 2 1 2'',
      ''WALL 2 6 1 2 1 2'']"

section \<open>Outcomes of a call\<close>

text \<open>How a call ends: it never returns, it throws, or it returns normally.\<close>

datatype outcome = Hangs | Throws error | Returns

definition outcome_of :: "(error + 'a) option \<Rightarrow> outcome" where
  "outcome_of r = (case r of None \<Rightarrow> Hangs | Some (Inl e) \<Rightarrow> Throws e | Some (Inr v) \<Rightarrow> Returns)"

section \<open>Reading the connectivity\<close>

text \<open>The \<^verbatim>\<open>neighbourSurf\<close> pointer of the surface at (slot, position).\<close>

definition neighbour_of :: "Block3D option list \<Rightarrow> nat \<times> nat \<Rightarrow> (nat \<times> nat) option" where
  "neighbour_of blks F =
     (case blks ! fst F of None \<Rightarrow> None | Some b \<Rightarrow> neighbourSurf (m_surf b ! snd F))"

text \<open>The surfaces a \<^verbatim>\<open>ONE_TO_ONE\<close> entry names, and whether the lookups of the
  connectivity pass succeed for an entry.\<close>

definition named_surfaces :: "Block3D option list \<Rightarrow> ENTRY \<Rightarrow> (nat \<times> nat) list" where
  "named_surfaces blks e =
     (if Type e = ONE_TO_ONE
      then (case entry_surfaces blks e of Inr FF \<Rightarrow> [fst FF, snd FF] | Inl x \<Rightarrow> [])
      else [])"

definition resolves :: "Block3D option list \<Rightarrow> ENTRY \<Rightarrow> bool" where
  "resolves blks e =
     (if Type e = ONE_TO_ONE
      then (case entry_surfaces blks e of Inr FF \<Rightarrow> True | Inl x \<Rightarrow> False)
      else True)"

text \<open>Three 2 x 2 x 2 blocks; I-MAX of block 1 is paired with I-MIN of block 2 and
  then again with I-MIN of block 3.\<close>

definition duplicate_interface_nmf :: string where
  "duplicate_interface_nmf = unlines
     [''3'',
      ''1 2 2 2'',
      ''2 2 2 2'',
      ''3 2 2 2'',
      ''ONE_TO_ONE 1 2 1 2 1 2 2 1 1 2 1 2 FALSE'',
      ''ONE_TO_ONE 1 2 1 2 1 2 3 1 1 2 1 2 FALSE'']"

text \<open>What the lookups of the connectivity pass depend on: the slots that hold a block,
  and the number of surfaces of each; and a surface that exists.\<close>

definition shape :: "Block3D option list \<Rightarrow> nat option list" where
  "shape blks = map (map_option (\<lambda>b. length (m_surf b))) blks"

definition valid_surf :: "Block3D option list \<Rightarrow> nat \<times> nat \<Rightarrow> bool" where
  "valid_surf blks F =
     (fst F < length blks \<and> (case blks ! fst F of None \<Rightarrow> False | Some b \<Rightarrow> snd F < length (m_surf b)))"

section \<open>writeToFile\<close>

text \<open>The decimal digits of a number, as \<^verbatim>\<open>operator<<\<close> prints an unsigned integer.\<close>

function to_dec :: "int \<Rightarrow> string" where
  "to_dec n = (if n < 10 then [char_of (48 + n)] else to_dec (n div 10) @ [char_of (48 + n mod 10)])"
  by pat_completeness auto

termination to_dec
  by (relation "measure nat") auto

declare to_dec.simps [simp del]

text \<open>\<^verbatim>\<open>std::setw(w) << std::right\<close> and \<^verbatim>\<open>std::setw(w) << std::left\<close>: padding with
  spaces up to the width; a longer text is written whole.\<close>

definition setw_right :: "nat \<Rightarrow> string \<Rightarrow> string" where
  "setw_right w s = replicate (w - length s) (CHR '' '') @ s"

definition setw_left :: "nat \<Rightarrow> string \<Rightarrow> string" where
  "setw_left w s = s @ replicate (w - length s) (CHR '' '')"

definition put_size_t :: "nat \<Rightarrow> size_t \<Rightarrow> string" where
  "put_size_t w v = setw_right w (to_dec (uint v))"

definition endl :: string where
  "endl = [CHR 0x0A]"

text \<open>The line of block \<open>i\<close> (0-based): \<open>i + 1\<close> and the three dimensions, each in a
  field of width 8.\<close>

definition write_block :: "nat \<times> Block3D option \<Rightarrow> string \<Rightarrow> error + string" where
  "write_block ib out =
     (case ib of (i, p) \<Rightarrow>
        (case p of
           None \<Rightarrow> Inl null_dereference
         | Some b \<Rightarrow>
             Inr (out @ put_size_t 8 (of_nat i + 1) @ put_size_t 8 (IDIM b) @ put_size_t 8 (JDIM b)
                      @ put_size_t 8 (KDIM b) @ endl)))"

definition write_range1 :: "RANGE \<Rightarrow> string" where
  "write_range1 r =
     put_size_t 6 (rg_B r) @ put_size_t 6 (rg_F r) @ put_size_t 9 (rg_S1 r) @ put_size_t 6 (rg_E1 r)
     @ put_size_t 9 (rg_S2 r) @ put_size_t 6 (rg_E2 r)"

definition write_range2 :: "RANGE \<Rightarrow> string" where
  "write_range2 r =
     put_size_t 9 (rg_B r) @ put_size_t 6 (rg_F r) @ put_size_t 9 (rg_S1 r) @ put_size_t 6 (rg_E1 r)
     @ put_size_t 9 (rg_S2 r) @ put_size_t 6 (rg_E2 r)"

text \<open>The line of an entry. For the type \<^verbatim>\<open>ONE_TO_ONE\<close> the entry is cast to a
  \<^verbatim>\<open>DoubleSideEntry\<close> and the pointer dereferenced.\<close>

definition write_entry :: "ENTRY \<Rightarrow> string \<Rightarrow> error + string" where
  "write_entry e out =
     bindE (idx2str (Type e)) (\<lambda>name.
       (let out1 = out @ setw_left 13 name @ write_range1 (Range1 e) in
        if Type e = ONE_TO_ONE
        then (case e of
                SingleSideEntry t r \<Rightarrow> Inl null_dereference
              | DoubleSideEntry t r1 r2 sw \<Rightarrow>
                  Inr (out1 @ write_range2 r2
                       @ setw_right 10 (if sw then ''TRUE'' else ''FALSE'') @ endl))
        else Inr (out1 @ endl)))"

text \<open>
  \<^verbatim>\<open>writeToFile(path)\<close>. The first argument says whether the file can be opened for
  writing; the result is the exception thrown, or the value returned with the characters
  written.
\<close>

definition writeToFile :: "bool \<Rightarrow> Mapping3D \<Rightarrow> error + int \<times> string" where
  "writeToFile can_open m =
     (if \<not> can_open then Inl (runtime_error ''Can not open target output file: '')
      else
        (let out0 =
           ''# ======================== Neutral Map File generated by the Grid-Glue software ==============================''
             @ endl @
           ''# ============================================================================================================''
             @ endl @
           ''# Block#    IDIM    JDIM    KDIM'' @ endl @
           ''# ------------------------------------------------------------------------------------------------------------''
             @ endl @
           put_size_t 8 (nBlk m) @ endl
         in
         bindE (foldE write_block (zip [0..<length (m_blk m)] (m_blk m)) out0) (\<lambda>out1.
           (let out2 = out1 @
              ''# ============================================================================================================''
                @ endl @
              ''# Type           B1    F1       S1    E1       S2    E2       B2    F2       S1    E1       S2    E2      Swap''
                @ endl @
              ''# ------------------------------------------------------------------------------------------------------------''
                @ endl
            in
            bindE (foldE write_entry (m_entry m) out2) (\<lambda>out3. Inr (0, out3))))))"

text \<open>The round trip: read a file, write the mapping read, read what was written.\<close>

definition reread :: "string \<Rightarrow> (error + int \<times> Mapping3D) option" where
  "reread f =
     (case readFromFile (Some f) of
        None \<Rightarrow> None
      | Some (Inl e) \<Rightarrow> Some (Inl e)
      | Some (Inr (r, m)) \<Rightarrow>
          (case writeToFile True m of
             Inl e \<Rightarrow> Some (Inl e)
           | Inr (r', out) \<Rightarrow> readFromFile (Some out)))"

text \<open>What the round trip is to keep: the dimensions of the block in each slot, and
  the entries.\<close>

definition model_of :: "Mapping3D \<Rightarrow> (size_t \<times> size_t \<times> size_t) option list \<times> ENTRY list" where
  "model_of m = (map (map_option (\<lambda>b. (IDIM b, JDIM b, KDIM b))) (m_blk m), m_entry m)"

text \<open>One 2 x 2 x 2 block and a wall whose primary range ends at 100000.\<close>

definition wide_range_nmf :: string where
  "wide_range_nmf = unlines
     [''1'',
      ''1 2 2 2'',
      ''WALL 1 1 1 100000 1 2'']"

text \<open>A 100000 x 2 x 2 block with a wall on the whole of its K-MIN surface (nodes 1 to
  100000 along I, 1 to 2 along J).\<close>

definition long_block_nmf :: string where
  "long_block_nmf = unlines
     [''1'',
      ''1 100000 2 2'',
      ''WALL 1 5 1 100000 1 2'']"

section \<open>Entries that name the same surfaces\<close>



text \<open>Two block lines with the same block id 1; id 2 is not used.\<close>

definition duplicate_ids_nmf :: string where
  "duplicate_ids_nmf = unlines
     [''2'',
      ''1 2 2 2'',
      ''1 3 3 3'',
      ''WALL 1 1 1 3 1 3'']"

section \<open>The mesh assembler: face records (glue.cc)\<close>

text \<open>
  \<^verbatim>\<open>glue.cc\<close> is written against the headers \<^verbatim>\<open>nmf.h\<close> and \<^verbatim>\<open>xf.h\<close>, which are not
  among the sources. What it uses of a block (\<^verbatim>\<open>IDIM\<close>, \<^verbatim>\<open>JDIM\<close>, \<^verbatim>\<open>KDIM\<close>,
  \<^verbatim>\<open>cell(i, j, k)\<close> with \<^verbatim>\<open>CellSeq\<close>, \<^verbatim>\<open>FaceSeq\<close>, \<^verbatim>\<open>NodeSeq\<close>, and
  \<^verbatim>\<open>surf(n).neighbourSurf\<close>) is taken as \<^verbatim>\<open>nmf.hpp\<close> has it; the numbers that the cells
  hold are whatever the numbering left there.
\<close>

text \<open>
  Modelled from the spec: the face record of \<^verbatim>\<open>xf.h\<close>, which is missing. A face has a
  polygon kind (quadrilateral), an ordered list of node ids, a \<^verbatim>\<open>leftCell\<close> id and a
  \<^verbatim>\<open>rightCell\<close> id (0 = external) and a boundary marker; these are the five fields
  that the constructor of \<^verbatim>\<open>MESH\<close> writes.
\<close>

datatype face_type = NO_TYPE | QUADRILATERAL

record FACE =
  atBdry :: bool
  f_type :: face_type
  includedNode :: "size_t list"
  leftCell :: size_t
  rightCell :: size_t

text \<open>The face table of the mesh and the \<^verbatim>\<open>visited\<close> flags of the face loop, which
  has one flag per face record.\<close>

record face_state =
  mesh_face :: "FACE list"
  visited :: "bool list"

definition init_face_state :: "nat \<Rightarrow> face_state" where
  "init_face_state n =
     \<lparr>mesh_face = replicate n \<lparr>atBdry = False, f_type = NO_TYPE, includedNode = [],
                                 leftCell = 0, rightCell = 0\<rparr>,
      visited = replicate n False\<rparr>"

text \<open>
  Modelled from the spec: the accessor \<^verbatim>\<open>face(n)\<close> of \<^verbatim>\<open>MESH\<close>, declared in the
  missing \<^verbatim>\<open>xf.h\<close>. Faces carry 1-based global ids, so it is taken to give the
  \<open>n\<close>-th record for \<open>1 \<le> n \<le> size\<close> and to throw otherwise, as the 1-based
  \<^verbatim>\<open>Array1D\<close> of \<^verbatim>\<open>common.h\<close> does; \<^verbatim>\<open>visited[n - 1]\<close> is then the flag at the same
  position.
\<close>

definition face_pos :: "nat \<Rightarrow> size_t \<Rightarrow> error + nat" where
  "face_pos sz n =
     (if 1 \<le> unat n \<and> unat n \<le> sz then Inr (unat n - 1) else Inl (out_of_range ''vector::at''))"

text \<open>The node numbers \<^verbatim>\<open>curCell.NodeSeq(a)\<close> for the four local indices of a face, read
  in order.\<close>

fun nodes_of :: "CELL \<Rightarrow> int list \<Rightarrow> error + size_t list" where
  "nodes_of c [] = Inr []"
| "nodes_of c (a # as) =
     bindE (NodeSeq c a) (\<lambda>n. bindE (nodes_of c as) (\<lambda>ns. Inr (n # ns)))"

type_synonym ijk = "size_t \<times> size_t \<times> size_t"

definition cell_at :: "Block3D \<Rightarrow> ijk \<Rightarrow> error + CELL" where
  "cell_at b c = (case c of (i, j, k) \<Rightarrow> cell b i j k)"

text \<open>
  The body of the three loops over internal faces: the face is local face \<open>r\<close> of the
  current cell, \<open>ord\<close> gives its four nodes among the cell's eight, \<open>adj\<close> is the cell
  on the other side.
\<close>

definition internal_face :: "Block3D \<Rightarrow> ijk \<Rightarrow> ijk \<Rightarrow> int \<Rightarrow> int list \<Rightarrow> face_state \<Rightarrow> error + face_state" where
  "internal_face b cur adj r ord st =
     bindE (cell_at b cur) (\<lambda>curCell.
     bindE (cell_at b adj) (\<lambda>adjCell.
     bindE (FaceSeq curCell r) (\<lambda>faceIndex.
     bindE (face_pos (length (mesh_face st)) faceIndex) (\<lambda>p.
     bindE (nodes_of curCell ord) (\<lambda>ns.
       Inr (st\<lparr>mesh_face := (mesh_face st)[p :=
                  \<lparr>atBdry = False, f_type = QUADRILATERAL, includedNode = ns,
                   leftCell = CellSeq adjCell, rightCell = CellSeq curCell\<rparr>],
               visited := (visited st)[p := True]\<rparr>))))))"

text \<open>The body of the six loops over the faces of a surface, for surface \<open>r\<close>.\<close>

definition surface_face :: "Block3D \<Rightarrow> ijk \<Rightarrow> int \<Rightarrow> int list \<Rightarrow> face_state \<Rightarrow> error + face_state" where
  "surface_face b cur r ord st =
     bindE (cell_at b cur) (\<lambda>curCell.
     bindE (FaceSeq curCell r) (\<lambda>faceIndex.
     bindE (face_pos (length (mesh_face st)) faceIndex) (\<lambda>p.
     bindE (surf b r) (\<lambda>sp.
       (let curFace = mesh_face st ! p; curSurf = m_surf b ! sp in
        if visited st ! p
        then (if \<not> atBdry curFace
              then (if leftCell curFace = 0
                    then Inr (st\<lparr>mesh_face := (mesh_face st)[p := curFace\<lparr>leftCell := CellSeq curCell\<rparr>]\<rparr>)
                    else if rightCell curFace = 0
                    then Inr (st\<lparr>mesh_face := (mesh_face st)[p := curFace\<lparr>rightCell := CellSeq curCell\<rparr>]\<rparr>)
                    else Inl (runtime_error ''Double-Sided face should not appear more than twice!''))
              else Inl (runtime_error ''Boundary face shouldn't appear twice!''))
        else bindE (nodes_of curCell ord) (\<lambda>ns.
               Inr (st\<lparr>mesh_face := (mesh_face st)[p :=
                          \<lparr>atBdry = (neighbourSurf curSurf = None), f_type = QUADRILATERAL,
                           includedNode = ns, leftCell = 0, rightCell = CellSeq curCell\<rparr>],
                       visited := (visited st)[p := True]\<rparr>)))))))"

text \<open>One round of one of the nine loops.\<close>

datatype face_op =
    InternalFace ijk ijk int "int list"
  | SurfaceFace ijk int "int list"

fun run_op :: "Block3D \<Rightarrow> face_op \<Rightarrow> face_state \<Rightarrow> error + face_state" where
  "run_op b (InternalFace cur adj r ord) st = internal_face b cur adj r ord st"
| "run_op b (SurfaceFace cur r ord) st = surface_face b cur r ord st"

text \<open>Two nested loops, the first variable outermost.\<close>

definition loop2 :: "size_t list \<Rightarrow> size_t list \<Rightarrow> (size_t \<Rightarrow> size_t \<Rightarrow> 'a) \<Rightarrow> 'a list" where
  "loop2 xs ys f = concat (map (\<lambda>x. map (\<lambda>y. f x y) ys) xs)"

definition loop3 :: "size_t list \<Rightarrow> size_t list \<Rightarrow> size_t list \<Rightarrow> (size_t \<Rightarrow> size_t \<Rightarrow> size_t \<Rightarrow> 'a) \<Rightarrow> 'a list" where
  "loop3 xs ys zs f = concat (map (\<lambda>x. concat (map (\<lambda>y. map (\<lambda>z. f x y z) zs) ys)) xs)"

text \<open>The rounds of the nine loops for one block, in the order of the source.\<close>

definition block_ops :: "Block3D \<Rightarrow> face_op list" where
  "block_ops b =
     (let nI = IDIM b; nJ = JDIM b; nK = KDIM b in
      loop3 (size_t_range 1 nK) (size_t_range 1 nJ) (size_t_range 2 nI)
        (\<lambda>k j i. InternalFace (i, j, k) (i - 1, j, k) 1 [1, 5, 8, 4])
      @ loop3 (size_t_range 1 nK) (size_t_range 1 nI) (size_t_range 2 nJ)
        (\<lambda>k i j. InternalFace (i, j, k) (i, j - 1, k) 3 [6, 5, 1, 2])
      @ loop3 (size_t_range 1 nI) (size_t_range 1 nJ) (size_t_range 2 nK)
        (\<lambda>i j k. InternalFace (i, j, k) (i, j, k - 1) 5 [4, 3, 2, 1])
      @ loop2 (size_t_range 1 nK) (size_t_range 1 nJ)
        (\<lambda>k j. SurfaceFace (1, j, k) 1 [1, 5, 8, 4])
      @ loop2 (size_t_range 1 nK) (size_t_range 1 nJ)
        (\<lambda>k j. SurfaceFace (nI - 1, j, k) 2 [2, 3, 7, 6])
      @ loop2 (size_t_range 1 nK) (size_t_range 1 nI)
        (\<lambda>k i. SurfaceFace (i, 1, k) 3 [6, 5, 1, 2])
      @ loop2 (size_t_range 1 nK) (size_t_range 1 nI)
        (\<lambda>k i. SurfaceFace (i, nJ - 1, k) 4 [3, 4, 8, 7])
      @ loop2 (size_t_range 1 nI) (size_t_range 1 nJ)
        (\<lambda>i j. SurfaceFace (i, j, 1) 5 [4, 3, 2, 1])
      @ loop2 (size_t_range 1 nI) (size_t_range 1 nJ)
        (\<lambda>i j. SurfaceFace (i, j, nK - 1) 6 [8, 5, 6, 7]))"

text \<open>All rounds of the loop over the blocks (\<open>Copy face info\<close>), each with its block.\<close>

definition face_schedule :: "Block3D list \<Rightarrow> (Block3D \<times> face_op) list" where
  "face_schedule blocks = concat (map (\<lambda>b. map (Pair b) (block_ops b)) blocks)"

definition run_ops :: "(Block3D \<times> face_op) list \<Rightarrow> face_state \<Rightarrow> error + face_state" where
  "run_ops ops st = foldE (\<lambda>bo. run_op (fst bo) (snd bo)) ops st"

definition copy_face_info :: "Block3D list \<Rightarrow> face_state \<Rightarrow> error + face_state" where
  "copy_face_info blocks st = run_ops (face_schedule blocks) st"

text \<open>The face number a round addresses, and the record with a given number.\<close>

fun op_cell :: "face_op \<Rightarrow> ijk" where
  "op_cell (InternalFace cur adj r ord) = cur"
| "op_cell (SurfaceFace cur r ord) = cur"

fun op_local_face :: "face_op \<Rightarrow> int" where
  "op_local_face (InternalFace cur adj r ord) = r"
| "op_local_face (SurfaceFace cur r ord) = r"

definition op_face :: "Block3D \<times> face_op \<Rightarrow> error + size_t" where
  "op_face bo = bindE (cell_at (fst bo) (op_cell (snd bo))) (\<lambda>c. FaceSeq c (op_local_face (snd bo)))"

definition face_at :: "face_state \<Rightarrow> size_t \<Rightarrow> FACE" where
  "face_at st n = mesh_face st ! (unat n - 1)"

fun is_surface_op :: "face_op \<Rightarrow> bool" where
  "is_surface_op (InternalFace cur adj r ord) = False"
| "is_surface_op (SurfaceFace cur r ord) = True"

text \<open>A 3 x 2 x 2 block with its two cells numbered by hand: nodes \<open>i + 3 (j - 1) +
  6 (k - 1)\<close>, face 2 between the cells.\<close>

definition example_block :: Block3D where
  "example_block =
     \<lparr>idx = 1, m_nI = 3, m_nJ = 2, m_nK = 2,
      blk_cell = [\<lparr>m_cell = 1, m_node = [1, 2, 5, 4, 7, 8, 11, 10], m_face = [1, 2, 4, 6, 8, 10]\<rparr>,
                  \<lparr>m_cell = 2, m_node = [2, 3, 6, 5, 8, 9, 12, 11], m_face = [2, 3, 5, 7, 9, 11]\<rparr>],
      m_edge = wire_edges (init_edges (replicate NumOfEdge EDGE0)),
      m_surf = wire_surfs (init_surfs (replicate NumOfSurf SURF0))\<rparr>"

fun op_order :: "face_op \<Rightarrow> int list" where
  "op_order (InternalFace cur adj r ord) = ord"
| "op_order (SurfaceFace cur r ord) = ord"

text \<open>One flag per face record.\<close>

definition state_ok :: "face_state \<Rightarrow> bool" where
  "state_ok st = (length (visited st) = length (mesh_face st))"

section \<open>Verification: helper lemmas and the wiring of blocks\<close>

lemma new_wired: "wiring_ok (wire_edges (init_edges (replicate NumOfEdge EDGE0)))
   (map includedEdge (wire_surfs (init_surfs (replicate NumOfSurf SURF0))))"
  by code_simp

lemma Block3D_new_wired: "Block3D_new nI nJ nK = Inr b \<Longrightarrow> canonical_wiring b"
  by (auto simp: Block3D_new_def BLOCK_def canonical_wiring_def new_wired split: if_splits)


lemma foldE_invariant:
  assumes "\<And>x s s'. P s \<Longrightarrow> f x s = Inr s' \<Longrightarrow> P s'"
  shows "P s \<Longrightarrow> foldE f xs s = Inr s' \<Longrightarrow> P s'"
proof (induction xs arbitrary: s)
  case Nil
  then show ?case by simp
next
  case (Cons x xs)
  then show ?case using assms by (auto split: sum.splits)
qed

lemma bindE_Inr_iff: "bindE x f = Inr y \<longleftrightarrow> (\<exists>v. x = Inr v \<and> f v = Inr y)"
  by (cases x) (auto simp: bindE_def)

lemma all_wired_update:
  "all_wired blks \<Longrightarrow> canonical_wiring b \<Longrightarrow> all_wired (blks[n := Some b])"
  unfolding all_wired_def list_all_iff
  using set_update_subset_insert [of blks n "Some b"] by auto

lemma all_wired_nth: "all_wired blks \<Longrightarrow> n < length blks \<Longrightarrow> blks ! n = Some b \<Longrightarrow> canonical_wiring b"
  unfolding all_wired_def list_all_iff by (metis nth_mem option.simps(5))

lemma includedEdge_update:
  "map includedEdge (ss[p := (ss ! p)\<lparr>neighbourSurf := v\<rparr>]) = map includedEdge ss"
  by (cases "p < length ss") (simp_all add: map_update list_update_same_conv list_update_beyond)

lemma set_neighbourSurf_wired:
  "all_wired blks \<Longrightarrow> all_wired (set_neighbourSurf F G blks)"
proof (cases "fst F < length blks")
  case True
  assume w: "all_wired blks"
  show ?thesis
  proof (cases "blks ! fst F")
    case None
    then show ?thesis using w by (simp add: set_neighbourSurf_def)
  next
    case (Some b)
    have "canonical_wiring b" using w True Some by (rule all_wired_nth)
    then show ?thesis using w Some
      by (auto simp: set_neighbourSurf_def canonical_wiring_def includedEdge_update
          intro!: all_wired_update)
  qed
next
  case False
  assume "all_wired blks"
  then show ?thesis using False by (simp add: set_neighbourSurf_def list_update_beyond split: option.splits)
qed

lemma connect_entry_wired:
  "all_wired blks \<Longrightarrow> connect_entry e blks = Inr blks' \<Longrightarrow> all_wired blks'"
  by (auto simp: connect_entry_def bindE_Inr_iff set_neighbourSurf_wired split: if_splits)

lemma establish_wired:
  "all_wired blks \<Longrightarrow> establish_connectivity es blks = Inr blks' \<Longrightarrow> all_wired blks'"
  unfolding establish_connectivity_def
  by (rule foldE_invariant [where P = all_wired and f = connect_entry]) (auto intro: connect_entry_wired)

lemma counterpart_entry_same: "counterpart_entry e blks = Inr blks' \<Longrightarrow> blks' = blks"
  by (auto simp: counterpart_entry_def bindE_Inr_iff split: if_splits)

lemma counterpart_same: "counterpart_information es blks = Inr blks' \<Longrightarrow> blks' = blks"
  unfolding counterpart_information_def
  by (induction es arbitrary: blks) (auto split: sum.splits dest: counterpart_entry_same)

lemma read_block_wired:
  "all_wired blks \<Longrightarrow> read_block N (f, s, blks) = Inr (f', s', blks') \<Longrightarrow> all_wired blks'"
  by (auto simp: read_block_def bindE_Inr_iff canonical_wiring_def
      split: prod.splits option.splits if_splits
      intro!: all_wired_update dest!: Block3D_new_wired)

lemma read_blocks_wired:
  "all_wired (snd (snd st)) \<Longrightarrow> read_blocks i N st = Inr st' \<Longrightarrow> all_wired (snd (snd st'))"
proof (induction i arbitrary: st)
  case 0
  then show ?case by simp
next
  case (Suc i)
  obtain f s blks where st: "st = (f, s, blks)" by (cases st) auto
  from Suc.prems obtain f1 s1 blks1 where
    1: "read_block N (f, s, blks) = Inr (f1, s1, blks1)" and
    2: "read_blocks i N (f1, s1, blks1) = Inr st'"
    by (auto simp: st split: sum.splits)
  have "all_wired blks1" using Suc.prems(1) 1 by (auto simp: st dest: read_block_wired)
  then show ?case using Suc.IH [OF _ 2] by simp
qed

lemma readFromFile_Inr:
  assumes a: "readFromFile inp = Some (Inr (r, m))"
  obtains N f1 s1 f2 s2 blks f3 s3 es blks1 where
    "0 < N"
    "read_blocks (nat N) N (f1, s1, replicate (nat N) None) = Inr (f2, s2, blks)"
    "read_connections f3 s3 \<lparr>buf = [], eofbit = False, failbit = False\<rparr> [] = Inr es"
    "establish_connectivity es blks = Inr blks1"
    "m = \<lparr>m_blk = blks1, m_entry = es\<rparr>" "r = 0"
proof -
  from a obtain content where fl: "inp = Some content"
    by (cases inp) (auto simp: readFromFile_def)
  from a obtain f1 s1 where
    sk1: "skip_lines \<lparr>buf = content, eofbit = False, failbit = False\<rparr> [] = Some (f1, s1)"
    by (cases "skip_lines \<lparr>buf = content, eofbit = False, failbit = False\<rparr> []")
       (auto simp: readFromFile_def fl)
  from a obtain d where mp: "match_pattern1 s1 = Some d"
    by (cases "match_pattern1 s1") (auto simp: readFromFile_def fl sk1)
  from a obtain N where st: "stoi d = Inr N"
    by (cases "stoi d") (auto simp: readFromFile_def fl sk1 mp)
  from a have N: "0 < N"
    by (cases "N \<le> 0") (auto simp: readFromFile_def fl sk1 mp st)
  from a N obtain f2 s2 blks where
    rb: "read_blocks (nat N) N (f1, s1, replicate (nat N) None) = Inr (f2, s2, blks)"
    by (cases "read_blocks (nat N) N (f1, s1, replicate (nat N) None)")
       (auto simp: readFromFile_def fl sk1 mp st)
  from a N obtain f3 s3 where sk2: "skip_lines f2 s2 = Some (f3, s3)"
    by (cases "skip_lines f2 s2") (auto simp: readFromFile_def fl sk1 mp st rb)
  from a N have
    "bindE (read_connections f3 s3 \<lparr>buf = [], eofbit = False, failbit = False\<rparr> []) (\<lambda>es.
       bindE (establish_connectivity es blks) (\<lambda>blks1.
       bindE (counterpart_information es blks1) (\<lambda>blks2.
         Inr (0, \<lparr>m_blk = blks2, m_entry = es\<rparr>)))) = Inr (r, m)"
    by (simp add: readFromFile_def fl sk1 mp st rb sk2)
  then obtain es blks1 blks2 where
    "read_connections f3 s3 \<lparr>buf = [], eofbit = False, failbit = False\<rparr> [] = Inr es"
    "establish_connectivity es blks = Inr blks1"
    "counterpart_information es blks1 = Inr blks2"
    "r = 0" "m = \<lparr>m_blk = blks2, m_entry = es\<rparr>"
    by (auto simp: bindE_Inr_iff)
  then show ?thesis using that [OF N rb] by (auto dest!: counterpart_same)
qed

lemma readFromFile_wired:
  assumes "readFromFile inp = Some (Inr (r, m))"
  shows "all_wired (m_blk m)"
proof -
  from assms obtain N f1 s1 f2 s2 blks and f3 :: istream and s3 :: string and es blks1 where
    rb: "read_blocks (nat N) N (f1, s1, replicate (nat N) None) = Inr (f2, s2, blks)" and
    ec: "establish_connectivity es blks = Inr blks1" and
    m: "m = \<lparr>m_blk = blks1, m_entry = es\<rparr>"
    by (rule readFromFile_Inr)
  have "all_wired (replicate (nat N) None)"
    by (simp add: all_wired_def list_all_iff)
  then have "all_wired blks" using read_blocks_wired [OF _ rb] by simp
  then have "all_wired blks1" using ec by (rule establish_wired)
  then show ?thesis by (simp add: m)
qed


lemma assign_CellSeq_frame:
  "assign_CellSeq kji (b, cnt) = Inr (b', c) \<Longrightarrow> m_edge b' = m_edge b \<and> m_surf b' = m_surf b"
  by (auto simp: assign_CellSeq_def Let_def split: prod.splits if_splits)

lemma number_block_cells_frame:
  assumes "number_block_cells b cnt = Inr (b', c)"
  shows "m_edge b' = m_edge b \<and> m_surf b' = m_surf b"
proof -
  have "(\<lambda>st. m_edge (fst st) = m_edge b \<and> m_surf (fst st) = m_surf b) (b', c)"
    by (rule foldE_invariant [where f = assign_CellSeq and s = "(b, cnt)" and xs = "kji_loops b"])
       (use assms in \<open>auto simp: number_block_cells_def dest: assign_CellSeq_frame\<close>)
  then show ?thesis by simp
qed

lemma number_cells_wired:
  "all_wired bs \<Longrightarrow> number_cells bs cnt = Inr (bs', c) \<Longrightarrow> all_wired bs'"
proof (induction bs cnt arbitrary: bs' c rule: number_cells.induct)
  case (1 cnt)
  then show ?case by simp
next
  case (2 bs cnt)
  then show ?case by simp
next
  case (3 b bs cnt)
  from "3.prems"(2) obtain b1 c1 bs1 where
    h: "number_block_cells b cnt = Inr (b1, c1)" "number_cells bs c1 = Inr (bs1, c)"
       "bs' = Some b1 # bs1"
    by (auto split: sum.splits prod.splits)
  have "all_wired bs1" using "3.IH" [OF h(1) refl _ h(2)] "3.prems"(1)
    by (simp add: all_wired_def)
  moreover have "canonical_wiring b1"
    using number_block_cells_frame [OF h(1)] "3.prems"(1)
    by (simp add: all_wired_def canonical_wiring_def)
  ultimately show ?case by (simp add: h all_wired_def)
qed

lemma numbering_wired:
  assumes "all_wired (m_blk m)" "numbering m = Inr (r, m')"
  shows "all_wired (m_blk m')"
proof -
  from assms(2) obtain bs cnt where
    h: "number_cells (m_blk m) 0 = Inr (bs, cnt)" "m' = m\<lparr>m_blk := bs\<rparr>"
    by (auto simp: numbering_def Let_def split: sum.splits prod.splits if_splits)
  then show ?thesis using assms(1) number_cells_wired by auto
qed

text \<open>
  Claim C8. Every block built by the constructor has the canonical surface-edge wiring:
  surface 1 holds edges 5, 9, 8, 12; surface 2 holds 6, 11, 7, 10; surface 3 holds
  1, 10, 4, 9; surface 4 holds 2, 12, 3, 11; surface 5 holds 1, 5, 2, 6; surface 6 holds
  3, 8, 4, 7 (1-based NMF edge indices, in this order), and the two \<^verbatim>\<open>dependentSurf\<close>
  pointers of each of the twelve edges are exactly the two surfaces whose
  \<^verbatim>\<open>includedEdge\<close> contains the edge. No later phase rewires them: every block of a
  mapping that \<^verbatim>\<open>readFromFile\<close> returns is wired so, and \<^verbatim>\<open>numbering\<close> keeps it.
\<close>

theorem C8_surface_edge_wiring:
  "(\<forall>nI nJ nK b. Block3D_new nI nJ nK = Inr b \<longrightarrow> canonical_wiring b) \<and>
   (\<forall>inp r m. readFromFile inp = Some (Inr (r, m)) \<longrightarrow> all_wired (m_blk m)) \<and>
   (\<forall>m r m'. all_wired (m_blk m) \<longrightarrow> numbering m = Inr (r, m') \<longrightarrow> all_wired (m_blk m'))"
  using Block3D_new_wired readFromFile_wired numbering_wired by blast

lemma Some_Inr_caseD:
  "(case x of Some (Inr v) \<Rightarrow> P v | _ \<Rightarrow> False) \<Longrightarrow> \<exists>v. x = Some (Inr v) \<and> P v"
  by (auto split: option.splits sum.splits)

lemma Inr_caseD: "(case x of Inr v \<Rightarrow> P v | _ \<Rightarrow> False) \<Longrightarrow> \<exists>v. x = Inr v \<and> P v"
  by (auto split: sum.splits)

lemma readFromFile_wide: "case readFromFile (Some wide_interface_nmf) of
    Some (Inr v) \<Rightarrow> (case numbering (snd v) of Inr v' \<Rightarrow> m_blk (snd v') \<noteq> [] | _ \<Rightarrow> False) | _ \<Rightarrow> False"
  by code_simp

text \<open>Witness for C8: a 2 x 3 x 4 block, and a file that is read and numbered.\<close>

theorem C8_surface_edge_wiring_witness:
  "(\<exists>b. Block3D_new 2 3 4 = Inr b \<and> canonical_wiring b) \<and>
   (\<exists>r m r' m'. readFromFile (Some wide_interface_nmf) = Some (Inr (r, m)) \<and> all_wired (m_blk m) \<and>
       numbering m = Inr (r', m') \<and> m_blk m' \<noteq> [] \<and> all_wired (m_blk m'))"
proof -
  obtain b where b: "Block3D_new 2 3 4 = Inr b"
    by (auto simp: Block3D_new_def BLOCK_def)
  obtain v where v: "readFromFile (Some wide_interface_nmf) = Some (Inr v)"
    "case numbering (snd v) of Inr v' \<Rightarrow> m_blk (snd v') \<noteq> [] | _ \<Rightarrow> False"
    using Some_Inr_caseD [OF readFromFile_wide] by blast
  obtain v' where v': "numbering (snd v) = Inr v'" "m_blk (snd v') \<noteq> []"
    using Inr_caseD [OF v(2)] by blast
  have h: "readFromFile (Some wide_interface_nmf) = Some (Inr (fst v, snd v))"
    "numbering (snd v) = Inr (fst v', snd v')" "m_blk (snd v') \<noteq> []"
    using v v' by simp_all
  show ?thesis using C8_surface_edge_wiring b h by blast
qed

section \<open>Verification: the cell sweep\<close>

lemma foldE_append:
  "foldE f (xs @ ys) s = (case foldE f xs s of Inl e \<Rightarrow> Inl e | Inr s' \<Rightarrow> foldE f ys s')"
  by (induction xs arbitrary: s) (auto split: sum.splits)

text \<open>Consecutive intervals concatenate.\<close>

lemma concat_intervals:
  assumes "\<And>j. f j \<le> f (Suc j)"
  shows "m \<le> n \<Longrightarrow> concat (map (\<lambda>j. [f j..<f (Suc j)]) [m..<n]) = [f m..<f n]"
proof (induction n)
  case 0
  then show ?case by simp
next
  case (Suc n)
  show ?case
  proof (cases "m = Suc n")
    case True
    then show ?thesis by simp
  next
    case False
    then have mn: "m \<le> n" using Suc.prems by simp
    have mono: "f m \<le> f n" using mn
      by (induction n) (auto simp: le_Suc_eq intro: order_trans [OF _ assms])
    have "[f m..<f (Suc n)] = [f m..<f n] @ [f n..<f (Suc n)]"
      using mono assms [of n] by (metis le_Suc_ex upt_add_eq_append)
    then show ?thesis using Suc.IH [OF mn] mn by simp
  qed
qed

lemma map_upt_shift: "map f [Suc 0..<Suc n] = map (\<lambda>i. f (Suc i)) [0..<n]"
proof -
  have "[Suc 0..<Suc n] = map Suc [0..<n]" by (rule map_Suc_upt [symmetric])
  then show ?thesis by (simp only: map_map o_def)
qed

lemma row_positions:
  "map (\<lambda>i. (i - 1) + off) [1..<Suc a] = [off..<off + a]"
  by (simp add: map_upt_shift map_add_upt add.commute del: upt_Suc)

lemma plane_positions:
  "concat (map (\<lambda>j. map (\<lambda>i. (i - 1) + a * ((j - 1) + off)) [1..<Suc a]) [1..<Suc b])
   = [a * off..<a * off + a * b]"
proof -
  have "concat (map (\<lambda>j. map (\<lambda>i. (i - 1) + a * ((j - 1) + off)) [1..<Suc a]) [1..<Suc b])
      = concat (map (\<lambda>j. [a * (j + off)..<a * (j + off) + a]) [0..<b])"
    unfolding row_positions by (simp add: map_upt_shift del: upt_Suc)
  also have "\<dots> = concat (map (\<lambda>j. [a * (j + off)..<a * (Suc j + off)]) [0..<b])"
    by (simp add: algebra_simps)
  also have "\<dots> = [a * (0 + off)..<a * (b + off)]"
    by (rule concat_intervals [where f = "\<lambda>j. a * (j + off)"]) simp_all
  finally show ?thesis by (simp add: algebra_simps)
qed

lemma block_positions:
  "concat (map (\<lambda>k. concat (map (\<lambda>j. map (\<lambda>i. (i - 1) + a * ((j - 1) + b * (k - 1))) [1..<Suc a])
                                 [1..<Suc b])) [1..<Suc c])
   = [0..<a * b * c]"
proof -
  have "concat (map (\<lambda>k. concat (map (\<lambda>j. map (\<lambda>i. (i - 1) + a * ((j - 1) + b * (k - 1))) [1..<Suc a])
                                 [1..<Suc b])) [1..<Suc c])
      = concat (map (\<lambda>k. [a * (b * k)..<a * (b * k) + a * b]) [0..<c])"
    unfolding plane_positions by (simp add: map_upt_shift del: upt_Suc)
  also have "\<dots> = concat (map (\<lambda>k. [a * b * k..<a * b * Suc k]) [0..<c])"
    by (simp add: algebra_simps)
  also have "\<dots> = [a * b * 0..<a * b * c]"
    by (rule concat_intervals [where f = "\<lambda>k. a * b * k"]) simp_all
  finally show ?thesis by simp
qed

lemma assign_at_upt:
  "n \<le> length cs \<Longrightarrow>
   \<exists>cs'. foldE assign_at [0..<n] (cs, cnt) = Inr (cs', cnt + of_nat n) \<and> length cs' = length cs \<and>
     (\<forall>p < length cs. cs' ! p = (if p < n then (cs ! p)\<lparr>m_cell := cnt + of_nat p + 1\<rparr> else cs ! p))"
proof (induction n)
  case 0
  then show ?case by simp
next
  case (Suc n)
  then obtain cs' where
    f: "foldE assign_at [0..<n] (cs, cnt) = Inr (cs', cnt + of_nat n)" and
    l: "length cs' = length cs" and
    v: "\<forall>p < length cs. cs' ! p = (if p < n then (cs ! p)\<lparr>m_cell := cnt + of_nat p + 1\<rparr> else cs ! p)"
    by auto
  have n: "n < length cs" using Suc.prems by simp
  let ?cs'' = "cs'[n := (cs' ! n)\<lparr>m_cell := cnt + of_nat n + 1\<rparr>]"
  have "foldE assign_at [0..<Suc n] (cs, cnt) = Inr (?cs'', cnt + of_nat (Suc n))"
    using n l by (simp add: foldE_append f assign_at_def add.assoc add.commute)
  moreover have "\<forall>p < length cs. ?cs'' ! p =
      (if p < Suc n then (cs ! p)\<lparr>m_cell := cnt + of_nat p + 1\<rparr> else cs ! p)"
    using v l n by (auto simp: nth_list_update less_Suc_eq)
  ultimately show ?case using l by auto
qed

lemma assign_CellSeq_positions:
  "m_nI b' = m_nI b \<Longrightarrow> m_nJ b' = m_nJ b \<Longrightarrow>
   foldE assign_CellSeq xs (b', cnt) =
     (case foldE assign_at (map (\<lambda>(k, j, i). unat (cell_pos b i j k)) xs) (blk_cell b', cnt) of
        Inl e \<Rightarrow> Inl e
      | Inr (cs, c) \<Rightarrow> Inr (b'\<lparr>blk_cell := cs\<rparr>, c))"
proof (induction xs arbitrary: b' cnt)
  case Nil
  then show ?case by simp
next
  case (Cons x xs)
  obtain k j i where x: "x = (k, j, i)" by (cases x) auto
  have cp: "cell_pos b' i j k = cell_pos b i j k"
    using Cons.prems by (simp add: cell_pos_def)
  show ?case
  proof (cases "unat (cell_pos b i j k) < length (blk_cell b')")
    case True
    let ?b'' = "b'\<lparr>blk_cell := (blk_cell b')[unat (cell_pos b i j k) :=
                   (blk_cell b' ! unat (cell_pos b i j k))\<lparr>m_cell := cnt + 1\<rparr>]\<rparr>"
    have "m_nI ?b'' = m_nI b" "m_nJ ?b'' = m_nJ b" using Cons.prems by simp_all
    from Cons.IH [OF this] show ?thesis
      using True by (simp add: x assign_CellSeq_def assign_at_def cp Let_def split: sum.splits prod.splits)
  next
    case False
    then show ?thesis by (simp add: x assign_CellSeq_def assign_at_def cp Let_def)
  qed
qed

lemma position_bound:
  fixes x :: nat
  shows "x < a \<Longrightarrow> w < n \<Longrightarrow> x + a * w < a * n"
proof -
  assume "x < a" "w < n"
  then have "x + a * w < a * Suc w" by simp
  also have "\<dots> \<le> a * n" using \<open>w < n\<close> by (intro mult_le_mono2) simp
  finally show ?thesis .
qed

lemma cell_pos_nat:
  assumes "1 \<le> unat (m_nI b)" "1 \<le> unat (m_nJ b)" "1 \<le> i" "1 \<le> j" "1 \<le> k"
    and "(i - 1) + (unat (m_nI b) - 1) * ((j - 1) + (unat (m_nJ b) - 1) * (k - 1)) < 2 ^ 64"
  shows "unat (cell_pos b (of_nat i) (of_nat j) (of_nat k))
         = (i - 1) + (unat (m_nI b) - 1) * ((j - 1) + (unat (m_nJ b) - 1) * (k - 1))"
proof -
  define X where "X = (i - 1) + (unat (m_nI b) - 1) * ((j - 1) + (unat (m_nJ b) - 1) * (k - 1))"
  have d: "(of_nat (n - Suc 0) :: size_t) = of_nat n - 1" if "1 \<le> n" for n
    using that by simp
  have w: "w - 1 = of_nat (unat w - 1)" if "1 \<le> unat w" for w :: size_t
    using that by simp
  have e: "cell_pos b (of_nat i) (of_nat j) (of_nat k) = of_nat X"
    unfolding cell_pos_def Let_def X_def
    by (simp add: d [OF assms(3)] d [OF assms(4)] d [OF assms(5)] w [OF assms(1)] w [OF assms(2)])
  have "X < 2 ^ 64" using assms(6) by (simp add: X_def)
  then have "unat (of_nat X :: size_t) = X" by (simp add: unat_of_nat)
  then show ?thesis unfolding e X_def .
qed

lemma kji_positions:
  assumes "1 \<le> unat (m_nI b)" "1 \<le> unat (m_nJ b)" "1 \<le> unat (m_nK b)" "cells_of b < 2 ^ 64"
  shows "map (\<lambda>(k, j, i). unat (cell_pos b i j k)) (kji_loops b) = [0..<cells_of b]"
proof -
  define a where "a = unat (m_nI b) - 1"
  define bb where "bb = unat (m_nJ b) - 1"
  define c where "c = unat (m_nK b) - 1"
  have ni: "unat (m_nI b) = Suc a" and nj: "unat (m_nJ b) = Suc bb" and nk: "unat (m_nK b) = Suc c"
    using assms by (simp_all add: a_def bb_def c_def)
  have abc: "a * bb * c < 2 ^ 64"
    using assms(4) by (simp add: cells_of_def a_def bb_def c_def)
  have pt: "unat (cell_pos b (of_nat i) (of_nat j) (of_nat k)) = (i - 1) + a * ((j - 1) + bb * (k - 1))"
    if "i \<in> set [1..<Suc a]" "j \<in> set [1..<Suc bb]" "k \<in> set [1..<Suc c]" for i j k
  proof -
    have r: "1 \<le> i" "i - 1 < a" "1 \<le> j" "j - 1 < bb" "1 \<le> k" "k - 1 < c"
      using that by auto
    have "(j - 1) + bb * (k - 1) < bb * c" using r by (intro position_bound)
    then have "(i - 1) + a * ((j - 1) + bb * (k - 1)) < a * (bb * c)"
      using r by (intro position_bound)
    then have "(i - 1) + a * ((j - 1) + bb * (k - 1)) < 2 ^ 64"
      using abc by (simp add: mult.assoc)
    then show ?thesis
      using cell_pos_nat [of b i j k] assms(1,2) r by (simp add: a_def bb_def)
  qed
  have "map (\<lambda>(k, j, i). unat (cell_pos b i j k)) (kji_loops b)
      = concat (map (\<lambda>k. concat (map (\<lambda>j. map (\<lambda>i.
            unat (cell_pos b (of_nat i) (of_nat j) (of_nat k))) [1..<Suc a]) [1..<Suc bb])) [1..<Suc c])"
    by (simp add: kji_loops_def size_t_range_def IDIM_def JDIM_def KDIM_def ni nj nk
        map_concat o_def del: upt_Suc)
  also have "\<dots> = concat (map (\<lambda>k. concat (map (\<lambda>j. map (\<lambda>i.
            (i - 1) + a * ((j - 1) + bb * (k - 1))) [1..<Suc a]) [1..<Suc bb])) [1..<Suc c])"
    by (intro arg_cong [where f = concat] map_cong refl) (rule pt)
  also have "\<dots> = [0..<a * bb * c]" by (rule block_positions)
  finally show ?thesis by (simp add: cells_of_def a_def bb_def c_def)
qed

lemma number_block_cells_result:
  assumes "1 \<le> unat (m_nI b)" "1 \<le> unat (m_nJ b)" "1 \<le> unat (m_nK b)" "cells_of b < 2 ^ 64"
    and "length (blk_cell b) = cells_of b"
  shows "\<exists>cs'. number_block_cells b cnt = Inr (b\<lparr>blk_cell := cs'\<rparr>, cnt + of_nat (cells_of b)) \<and>
           length cs' = cells_of b \<and>
           (\<forall>p < cells_of b. cs' ! p = (blk_cell b ! p)\<lparr>m_cell := cnt + of_nat p + 1\<rparr>)"
proof -
  obtain cs' where
    f: "foldE assign_at [0..<cells_of b] (blk_cell b, cnt) = Inr (cs', cnt + of_nat (cells_of b))" and
    l: "length cs' = length (blk_cell b)" and
    v: "\<forall>p < length (blk_cell b). cs' ! p =
          (if p < cells_of b then (blk_cell b ! p)\<lparr>m_cell := cnt + of_nat p + 1\<rparr> else blk_cell b ! p)"
    using assign_at_upt [of "cells_of b" "blk_cell b" cnt] assms(5) by auto
  have "number_block_cells b cnt = Inr (b\<lparr>blk_cell := cs'\<rparr>, cnt + of_nat (cells_of b))"
    unfolding number_block_cells_def
    by (simp add: assign_CellSeq_positions [of b b] kji_positions [OF assms(1-4)] f)
  then show ?thesis using l v assms(5) by auto
qed

lemma cell_num_nat:
  assumes "1 \<le> unat (m_nI b)" "1 \<le> unat (m_nJ b)" "1 \<le> unat (m_nK b)"
  shows "cell_num b = of_nat (cells_of b)"
proof -
  have w: "w - 1 = of_nat (unat w - 1)" if "1 \<le> unat w" for w :: size_t
    using that by simp
  show ?thesis
    unfolding cell_num_def cells_of_def IDIM_def JDIM_def KDIM_def
    by (simp add: w [OF assms(1)] w [OF assms(2)] w [OF assms(3)])
qed

lemma constructed_length:
  assumes "constructed b" "cells_of b < 2 ^ 64"
  shows "length (blk_cell b) = cells_of b"
proof -
  have "cell_num b = of_nat (cells_of b)"
    using assms(1) by (intro cell_num_nat) (simp_all add: constructed_def)
  then have "unat (cell_num b) = cells_of b"
    using assms(2) by (simp add: unat_of_nat)
  then show ?thesis using assms(1) by (simp add: constructed_def)
qed

lemma total_cells_Cons: "total_cells (Some b # bs) = cells_of b + total_cells bs"
  by (simp add: total_cells_def)

lemma number_cells_result:
  "list_all block_ok blks \<Longrightarrow> \<forall>b. Some b \<in> set blks \<longrightarrow> cells_of b < 2 ^ 64 \<Longrightarrow>
   \<exists>blks'. number_cells blks cnt = Inr (blks', cnt + of_nat (total_cells blks)) \<and>
     length blks' = length blks \<and>
     (\<forall>n < length blks. \<exists>b cs'. blks ! n = Some b \<and> blks' ! n = Some (b\<lparr>blk_cell := cs'\<rparr>) \<and>
         length cs' = cells_of b \<and>
         (\<forall>p < cells_of b. cs' ! p =
            (blk_cell b ! p)\<lparr>m_cell := cnt + of_nat (total_cells (take n blks)) + of_nat p + 1\<rparr>))"
proof (induction blks arbitrary: cnt)
  case Nil
  then show ?case by (simp add: total_cells_def)
next
  case (Cons x blks)
  from Cons.prems(1) obtain b where x: "x = Some b" and cb: "constructed b"
    by (cases x) (auto simp: block_ok_def)
  have sm: "cells_of b < 2 ^ 64" "\<forall>b. Some b \<in> set blks \<longrightarrow> cells_of b < 2 ^ 64"
    using Cons.prems(2) by (simp_all add: x)
  have ok: "2 \<le> unat (m_nI b)" "2 \<le> unat (m_nJ b)" "2 \<le> unat (m_nK b)" "length (blk_cell b) = cells_of b"
    using cb constructed_length [OF cb sm(1)] by (simp_all add: constructed_def)
  obtain cs' where
    nb: "number_block_cells b cnt = Inr (b\<lparr>blk_cell := cs'\<rparr>, cnt + of_nat (cells_of b))" and
    l: "length cs' = cells_of b" and
    v: "\<forall>p < cells_of b. cs' ! p = (blk_cell b ! p)\<lparr>m_cell := cnt + of_nat p + 1\<rparr>"
    using number_block_cells_result [of b cnt] ok sm(1) by auto
  from Cons.IH [of "cnt + of_nat (cells_of b)"] Cons.prems(1) sm(2) obtain blks' where
    nc: "number_cells blks (cnt + of_nat (cells_of b))
           = Inr (blks', cnt + of_nat (cells_of b) + of_nat (total_cells blks))" and
    l': "length blks' = length blks" and
    v': "\<forall>n < length blks. \<exists>b' cs'. blks ! n = Some b' \<and> blks' ! n = Some (b'\<lparr>blk_cell := cs'\<rparr>) \<and>
         length cs' = cells_of b' \<and>
         (\<forall>p < cells_of b'. cs' ! p = (blk_cell b' ! p)\<lparr>m_cell :=
            cnt + of_nat (cells_of b) + of_nat (total_cells (take n blks)) + of_nat p + 1\<rparr>)"
    by auto
  have "number_cells (x # blks) cnt
          = Inr (Some (b\<lparr>blk_cell := cs'\<rparr>) # blks', cnt + of_nat (total_cells (x # blks)))"
    by (simp add: x nb nc total_cells_Cons add.assoc)
  moreover have "\<forall>n < length (x # blks). \<exists>b' cs''. (x # blks) ! n = Some b' \<and>
         (Some (b\<lparr>blk_cell := cs'\<rparr>) # blks') ! n = Some (b'\<lparr>blk_cell := cs''\<rparr>) \<and>
         length cs'' = cells_of b' \<and>
         (\<forall>p < cells_of b'. cs'' ! p = (blk_cell b' ! p)\<lparr>m_cell :=
            cnt + of_nat (total_cells (take n (x # blks))) + of_nat p + 1\<rparr>)"
  proof (intro allI impI)
    fix n assume n: "n < length (x # blks)"
    show "\<exists>b' cs''. (x # blks) ! n = Some b' \<and>
         (Some (b\<lparr>blk_cell := cs'\<rparr>) # blks') ! n = Some (b'\<lparr>blk_cell := cs''\<rparr>) \<and>
         length cs'' = cells_of b' \<and>
         (\<forall>p < cells_of b'. cs'' ! p = (blk_cell b' ! p)\<lparr>m_cell :=
            cnt + of_nat (total_cells (take n (x # blks))) + of_nat p + 1\<rparr>)"
    proof (cases n)
      case 0
      then show ?thesis using l v by (auto simp: x total_cells_def intro!: exI [of _ cs'])
    next
      case (Suc n')
      then have "n' < length blks" using n by simp
      with v' obtain b' cs'' where
        "blks ! n' = Some b'" "blks' ! n' = Some (b'\<lparr>blk_cell := cs''\<rparr>)" "length cs'' = cells_of b'"
        "\<forall>p < cells_of b'. cs'' ! p = (blk_cell b' ! p)\<lparr>m_cell :=
            cnt + of_nat (cells_of b) + of_nat (total_cells (take n' blks)) + of_nat p + 1\<rparr>"
        by blast
      then show ?thesis by (auto simp: Suc x total_cells_Cons add.assoc intro!: exI [of _ cs''])
    qed
  qed
  ultimately show ?case using l' by auto
qed

lemma cells_of_le_total: "Some b \<in> set blks \<Longrightarrow> cells_of b \<le> total_cells blks"
  by (induction blks) (auto simp: total_cells_def)

lemma sum_blocks_eq:
  "sum_blocks f bs ret =
     (if None \<in> set bs then Inl null_dereference else Inr (ret + sum_list (map (\<lambda>p. f (the p)) bs)))"
  by (induction f bs ret rule: sum_blocks.induct) (auto simp: add.assoc)



lemma nCell_numbered:
  assumes "length blks' = length blks"
    and "\<forall>n < length blks. \<exists>b cs'. blks ! n = Some b \<and> blks' ! n = Some (b\<lparr>blk_cell := cs'\<rparr>)"
    and "list_all block_ok blks"
  shows "sum_blocks cell_num blks' ret = Inr (ret + of_nat (total_cells blks))"
  using assms
proof (induction blks arbitrary: blks' ret)
  case Nil
  then show ?case by (simp add: total_cells_def)
next
  case (Cons x blks)
  from Cons.prems(1) obtain y ys where b': "blks' = y # ys" "length ys = length blks"
    by (cases blks') auto
  from Cons.prems(2) [rule_format, of 0] obtain b cs' where
    x: "x = Some b" "y = Some (b\<lparr>blk_cell := cs'\<rparr>)" by (auto simp: b')
  have ok: "1 \<le> unat (m_nI b)" "1 \<le> unat (m_nJ b)" "1 \<le> unat (m_nK b)"
    using Cons.prems(3) by (auto simp: x block_ok_def constructed_def)
  have cn: "cell_num (b\<lparr>blk_cell := cs'\<rparr>) = of_nat (cells_of b)"
    using cell_num_nat [of "b\<lparr>blk_cell := cs'\<rparr>"] ok by (simp add: cells_of_def)
  have "\<forall>n < length blks. \<exists>b cs'. blks ! n = Some b \<and> ys ! n = Some (b\<lparr>blk_cell := cs'\<rparr>)"
  proof (intro allI impI)
    fix n assume "n < length blks"
    then show "\<exists>b cs'. blks ! n = Some b \<and> ys ! n = Some (b\<lparr>blk_cell := cs'\<rparr>)"
      using Cons.prems(2) [rule_format, of "Suc n"] by (simp add: b')
  qed
  from Cons.IH [OF b'(2) this] Cons.prems(3) show ?case
    by (simp add: b' x cn total_cells_Cons add.assoc)
qed


section \<open>Verification: numbering\<close>




lemma sum_blocks_same_dims:
  assumes "\<And>b cs. f (b\<lparr>blk_cell := cs\<rparr>) = f b"
  shows "length blks' = length blks \<Longrightarrow>
     \<forall>n < length blks. \<exists>b cs'. blks ! n = Some b \<and> blks' ! n = Some (b\<lparr>blk_cell := cs'\<rparr>) \<Longrightarrow>
     sum_blocks f blks' ret = sum_blocks f blks ret"
proof (induction blks arbitrary: blks' ret)
  case Nil
  then show ?case by simp
next
  case (Cons x blks)
  from Cons.prems(1) obtain y ys where b': "blks' = y # ys" "length ys = length blks"
    by (cases blks') auto
  from Cons.prems(2) [rule_format, of 0] obtain b cs' where
    x: "x = Some b" "y = Some (b\<lparr>blk_cell := cs'\<rparr>)" by (auto simp: b')
  have "\<forall>n < length blks. \<exists>b cs'. blks ! n = Some b \<and> ys ! n = Some (b\<lparr>blk_cell := cs'\<rparr>)"
  proof (intro allI impI)
    fix n assume "n < length blks"
    then show "\<exists>b cs'. blks ! n = Some b \<and> ys ! n = Some (b\<lparr>blk_cell := cs'\<rparr>)"
      using Cons.prems(2) [rule_format, of "Suc n"] by (simp add: b')
  qed
  from Cons.IH [OF b'(2) this] show ?case
    by (simp add: b' x assms)
qed

lemma number_faces_eq:
  "number_faces bs cnt = (if None \<in> set bs then Inl null_dereference else Inr cnt)"
  by (induction bs cnt rule: number_faces.induct) auto

lemma block_ok_no_null: "list_all block_ok blks \<Longrightarrow> None \<notin> set blks"
  by (auto simp: list_all_iff block_ok_def)

text \<open>
  Claim C2, as amended. For a mapping whose blocks are all present and as the constructor
  leaves them, each holding its \<open>(nI - 1) * (nJ - 1) * (nK - 1)\<close> cells (a number below
  \<open>2 ^ 64\<close>): \<^verbatim>\<open>numbering()\<close> assigns all cell ids, and the face and node numbers of
  every cell are what they were. Then, the face sweep having left its counter at 0, it
  throws \<^verbatim>\<open>std::length_error\<close> when \<^verbatim>\<open>nFace()\<close> is not 0, and returns 0 when
  \<^verbatim>\<open>nFace()\<close> is 0; the file-loading constructor throws the same error, or returns,
  for a file that \<^verbatim>\<open>readFromFile\<close> reads into such a mapping.
\<close>

theorem C2_numbering:
  assumes "list_all block_ok (m_blk m)"
    and "\<forall>b. Some b \<in> set (m_blk m) \<longrightarrow> cells_of b < 2 ^ 64"
  shows "\<exists>blks'. number_cells (m_blk m) 0 = Inr (blks', of_nat (total_cells (m_blk m))) \<and>
            nCell (m\<lparr>m_blk := blks'\<rparr>) = Inr (of_nat (total_cells (m_blk m))) \<and>
            (\<forall>n < length (m_blk m). \<exists>b cs'. m_blk m ! n = Some b \<and>
                blks' ! n = Some (b\<lparr>blk_cell := cs'\<rparr>) \<and> length cs' = length (blk_cell b) \<and>
                (\<forall>p < length cs'. m_face (cs' ! p) = m_face (blk_cell b ! p) \<and>
                                  m_node (cs' ! p) = m_node (blk_cell b ! p))) \<and>
            numbering m =
              (if nFace m = Inr 0 then Inr (0, m\<lparr>m_blk := blks'\<rparr>)
               else Inl (length_error ''Inconsistent num of cells detected.'')) \<and>
            (\<forall>inp r. readFromFile inp = Some (Inr (r, m)) \<longrightarrow>
               Mapping3D_new inp =
                 Some (if nFace m = Inr 0 then Inr (m\<lparr>m_blk := blks'\<rparr>)
                       else Inl (length_error ''Inconsistent num of cells detected.'')))"
proof -
  from number_cells_result [OF assms, of 0] obtain blks' where
    nc: "number_cells (m_blk m) 0 = Inr (blks', of_nat (total_cells (m_blk m)))" and
    l: "length blks' = length (m_blk m)" and
    v: "\<forall>n < length (m_blk m). \<exists>b cs'. m_blk m ! n = Some b \<and> blks' ! n = Some (b\<lparr>blk_cell := cs'\<rparr>) \<and>
         length cs' = cells_of b \<and>
         (\<forall>p < cells_of b. cs' ! p =
            (blk_cell b ! p)\<lparr>m_cell := 0 + of_nat (total_cells (take n (m_blk m))) + of_nat p + 1\<rparr>)"
    by auto
  have v0: "\<forall>n < length (m_blk m). \<exists>b cs'. m_blk m ! n = Some b \<and> blks' ! n = Some (b\<lparr>blk_cell := cs'\<rparr>)"
    using v by blast
  have ncell: "nCell (m\<lparr>m_blk := blks'\<rparr>) = Inr (of_nat (total_cells (m_blk m)))"
    using nCell_numbered [OF l v0 assms(1), of 0] by (simp add: nCell_def)
  have nn: "None \<notin> set (m_blk m)" using assms(1) by (rule block_ok_no_null)
  have nn': "None \<notin> set blks'"
  proof
    assume "None \<in> set blks'"
    then obtain n where "n < length blks'" "blks' ! n = None" by (auto simp: in_set_conv_nth)
    then show False using v0 l by fastforce
  qed
  have nf: "nFace (m\<lparr>m_blk := blks'\<rparr>) = nFace m"
    unfolding nFace_def
    using sum_blocks_same_dims [where f = face_num, OF _ l v0, of 0]
    by (auto simp: face_num_def IDIM_def JDIM_def KDIM_def split: sum.splits)
  obtain x where x: "nFace m = Inr x"
    using nn by (auto simp: nFace_def sum_blocks_eq)
  have num: "numbering m =
              (if nFace m = Inr 0 then Inr (0, m\<lparr>m_blk := blks'\<rparr>)
               else Inl (length_error ''Inconsistent num of cells detected.''))"
    using x nn' by (auto simp: numbering_def nc ncell nf number_faces_eq Let_def)
  have frame: "\<forall>n < length (m_blk m). \<exists>b cs'. m_blk m ! n = Some b \<and>
                blks' ! n = Some (b\<lparr>blk_cell := cs'\<rparr>) \<and> length cs' = length (blk_cell b) \<and>
                (\<forall>p < length cs'. m_face (cs' ! p) = m_face (blk_cell b ! p) \<and>
                                  m_node (cs' ! p) = m_node (blk_cell b ! p))"
  proof (intro allI impI)
    fix n assume n: "n < length (m_blk m)"
    with v obtain b cs' where
      h: "m_blk m ! n = Some b" "blks' ! n = Some (b\<lparr>blk_cell := cs'\<rparr>)" "length cs' = cells_of b"
         "\<forall>p < cells_of b. cs' ! p =
            (blk_cell b ! p)\<lparr>m_cell := 0 + of_nat (total_cells (take n (m_blk m))) + of_nat p + 1\<rparr>"
      by blast
    have "block_ok (m_blk m ! n)" using assms(1) n by (simp add: list_all_length)
    then have cb: "constructed b" by (simp add: h(1) block_ok_def)
    have "Some b \<in> set (m_blk m)" using n h(1) by (metis nth_mem)
    then have "cells_of b < 2 ^ 64" using assms(2) by blast
    then have "length (blk_cell b) = cells_of b"
      using constructed_length [OF cb] by simp
    then show "\<exists>b cs'. m_blk m ! n = Some b \<and>
                blks' ! n = Some (b\<lparr>blk_cell := cs'\<rparr>) \<and> length cs' = length (blk_cell b) \<and>
                (\<forall>p < length cs'. m_face (cs' ! p) = m_face (blk_cell b ! p) \<and>
                                  m_node (cs' ! p) = m_node (blk_cell b ! p))"
      using h by auto
  qed
  have ctor: "\<forall>inp r. readFromFile inp = Some (Inr (r, m)) \<longrightarrow>
               Mapping3D_new inp =
                 Some (if nFace m = Inr 0 then Inr (m\<lparr>m_blk := blks'\<rparr>)
                       else Inl (length_error ''Inconsistent num of cells detected.''))"
    by (simp add: Mapping3D_new_def bindE_def num)
  show ?thesis using num nc ncell frame ctor by blast
qed

lemma unit_cube_parsed:
  "case readFromFile (Some unit_cube_nmf) of
     Some (Inr v) \<Rightarrow>
       list_all block_ok (m_blk (snd v)) \<and> total_cells (m_blk (snd v)) = 1 \<and>
       length (m_blk (snd v)) = 1 \<and> nFace (snd v) = Inr 12 \<and> length (m_entry (snd v)) = 6
   | _ \<Rightarrow> False"
  by code_simp

lemma wide_interface_parsed:
  "case readFromFile (Some wide_interface_nmf) of
     Some (Inr v) \<Rightarrow>
       list_all block_ok (m_blk (snd v)) \<and> total_cells (m_blk (snd v)) = 1 \<and>
       length (m_blk (snd v)) = 1 \<and> nFace (snd v) = Inr 0
   | _ \<Rightarrow> False"
  by code_simp

text \<open>Witness for C2: the unit cube with its six walls, where \<^verbatim>\<open>nFace()\<close> is 12, and
  \<open>wide_interface_nmf\<close>, where it is 0.\<close>

theorem C2_numbering_witness:
  "(\<exists>v. readFromFile (Some unit_cube_nmf) = Some (Inr v) \<and>
       list_all block_ok (m_blk (snd v)) \<and> total_cells (m_blk (snd v)) = 1 \<and>
       nFace (snd v) = Inr 12 \<and>
       numbering (snd v) = Inl (length_error ''Inconsistent num of cells detected.'') \<and>
       (\<exists>blks'. number_cells (m_blk (snd v)) 0 = Inr (blks', 1)) \<and>
       Mapping3D_new (Some unit_cube_nmf)
         = Some (Inl (length_error ''Inconsistent num of cells detected.''))) \<and>
   (\<exists>v. readFromFile (Some wide_interface_nmf) = Some (Inr v) \<and>
       list_all block_ok (m_blk (snd v)) \<and> total_cells (m_blk (snd v)) = 1 \<and>
       nFace (snd v) = Inr 0 \<and>
       (\<exists>blks'. number_cells (m_blk (snd v)) 0 = Inr (blks', 1) \<and>
          numbering (snd v) = Inr (0, (snd v)\<lparr>m_blk := blks'\<rparr>) \<and>
          Mapping3D_new (Some wide_interface_nmf) = Some (Inr ((snd v)\<lparr>m_blk := blks'\<rparr>))))"
proof -
  have fits: "\<forall>b. Some b \<in> set blks \<longrightarrow> cells_of b < 2 ^ 64" if "total_cells blks = 1" for blks
    using cells_of_le_total [of _ blks] that by fastforce
  obtain v where v: "readFromFile (Some unit_cube_nmf) = Some (Inr v)"
    and ok: "list_all block_ok (m_blk (snd v))" and t: "total_cells (m_blk (snd v)) = 1"
    and f: "nFace (snd v) = Inr 12"
    using Some_Inr_caseD [OF unit_cube_parsed] by blast
  have v': "readFromFile (Some unit_cube_nmf) = Some (Inr (fst v, snd v))" using v by simp
  from C2_numbering [OF ok fits [OF t]] obtain blks' where
    a: "number_cells (m_blk (snd v)) 0 = Inr (blks', of_nat (total_cells (m_blk (snd v))))"
      "numbering (snd v) =
              (if nFace (snd v) = Inr 0 then Inr (0, (snd v)\<lparr>m_blk := blks'\<rparr>)
               else Inl (length_error ''Inconsistent num of cells detected.''))"
      "\<forall>inp r. readFromFile inp = Some (Inr (r, snd v)) \<longrightarrow>
               Mapping3D_new inp =
                 Some (if nFace (snd v) = Inr 0 then Inr ((snd v)\<lparr>m_blk := blks'\<rparr>)
                       else Inl (length_error ''Inconsistent num of cells detected.''))"
    by blast
  have a1: "\<exists>blks'. number_cells (m_blk (snd v)) 0 = Inr (blks', 1)" using a(1) by (simp add: t)
  have a2: "numbering (snd v) = Inl (length_error ''Inconsistent num of cells detected.'')"
    using a(2) by (simp add: f)
  have a3: "Mapping3D_new (Some unit_cube_nmf)
         = Some (Inl (length_error ''Inconsistent num of cells detected.''))"
    using a(3) [rule_format, OF v'] by (simp add: f)
  obtain w where w: "readFromFile (Some wide_interface_nmf) = Some (Inr w)"
    and okw: "list_all block_ok (m_blk (snd w))" and tw: "total_cells (m_blk (snd w)) = 1"
    and fw: "nFace (snd w) = Inr 0"
    using Some_Inr_caseD [OF wide_interface_parsed] by blast
  have w': "readFromFile (Some wide_interface_nmf) = Some (Inr (fst w, snd w))" using w by simp
  from C2_numbering [OF okw fits [OF tw]] obtain blks'' where
    b: "number_cells (m_blk (snd w)) 0 = Inr (blks'', of_nat (total_cells (m_blk (snd w))))"
      "numbering (snd w) =
              (if nFace (snd w) = Inr 0 then Inr (0, (snd w)\<lparr>m_blk := blks''\<rparr>)
               else Inl (length_error ''Inconsistent num of cells detected.''))"
      "\<forall>inp r. readFromFile inp = Some (Inr (r, snd w)) \<longrightarrow>
               Mapping3D_new inp =
                 Some (if nFace (snd w) = Inr 0 then Inr ((snd w)\<lparr>m_blk := blks''\<rparr>)
                       else Inl (length_error ''Inconsistent num of cells detected.''))"
    by blast
  have b1: "number_cells (m_blk (snd w)) 0 = Inr (blks'', 1) \<and>
          numbering (snd w) = Inr (0, (snd w)\<lparr>m_blk := blks''\<rparr>) \<and>
          Mapping3D_new (Some wide_interface_nmf) = Some (Inr ((snd w)\<lparr>m_blk := blks''\<rparr>))"
    using b(1,2) b(3) [rule_format, OF w'] by (simp add: fw tw)
  show ?thesis using v ok t f a1 a2 a3 w okw tw fw b1 by blast
qed

text \<open>A block without cell storage: the first \<^verbatim>\<open>at\<close> of the cell sweep throws.\<close>

lemma size_t_range_first: "2 \<le> unat hi \<Longrightarrow> \<exists>rest. size_t_range 1 hi = 1 # rest"
  by (simp add: size_t_range_def upt_conv_Cons)

lemma kji_loops_first:
  assumes "2 \<le> unat (m_nI b)" "2 \<le> unat (m_nJ b)" "2 \<le> unat (m_nK b)"
  shows "\<exists>rest. kji_loops b = (1, 1, 1) # rest"
proof -
  obtain ri rj rk where
    "size_t_range 1 (IDIM b) = 1 # ri" "size_t_range 1 (JDIM b) = 1 # rj"
    "size_t_range 1 (KDIM b) = 1 # rk"
    using assms size_t_range_first unfolding IDIM_def JDIM_def KDIM_def by metis
  then show ?thesis by (simp add: kji_loops_def)
qed

lemma no_cells_throws:
  assumes "2 \<le> unat (m_nI b)" "2 \<le> unat (m_nJ b)" "2 \<le> unat (m_nK b)" "blk_cell b = []"
  shows "number_block_cells b cnt = Inl (out_of_range ''vector::at'')"
proof -
  obtain rest where "kji_loops b = (1, 1, 1) # rest"
    using kji_loops_first [OF assms(1-3)] by blast
  then show ?thesis
    by (simp add: number_block_cells_def assign_CellSeq_def assms(4))
qed

lemma numbering_no_cells:
  assumes "m_blk m = [Some b]" "2 \<le> unat (m_nI b)" "2 \<le> unat (m_nJ b)" "2 \<le> unat (m_nK b)"
    "blk_cell b = []"
  shows "numbering m = Inl (out_of_range ''vector::at'')"
  by (simp add: numbering_def assms(1) no_cells_throws [OF assms(2-5)])

lemma huge_block_parsed:
  "case readFromFile (Some huge_block_nmf) of
     Some (Inr v) \<Rightarrow>
       (case m_blk (snd v) of
          [Some b] \<Rightarrow> m_nI b = 1073741825 \<and> m_nJ b = 1073741825 \<and> m_nK b = 17 \<and>
                      cell_num b = 0 \<and> blk_cell b = []
        | _ \<Rightarrow> False)
   | _ \<Rightarrow> False"
  by code_simp

lemma wide_interface_returns:
  "outcome_of (Mapping3D_new (Some wide_interface_nmf)) = Returns \<and>
   (case readFromFile (Some wide_interface_nmf) of
      Some (Inr v) \<Rightarrow> list_all block_ok (m_blk (snd v)) \<and> length (m_blk (snd v)) = 1 \<and>
                      outcome_of (Some (numbering (snd v))) = Returns
    | _ \<Rightarrow> False)"
  by code_simp

lemma one_block_caseD:
  "(case xs of [Some b] \<Rightarrow> P b | _ \<Rightarrow> False) \<Longrightarrow> \<exists>b. xs = [Some b] \<and> P b"
proof (cases xs)
  case Nil
  assume "case xs of [Some b] \<Rightarrow> P b | _ \<Rightarrow> False"
  then show ?thesis using Nil by simp
next
  case (Cons x ys)
  assume "case xs of [Some b] \<Rightarrow> P b | _ \<Rightarrow> False"
  then show ?thesis using Cons by (cases x; cases ys) simp_all
qed

text \<open>
  Counterexamples to C2 as stated. \<open>wide_interface_nmf\<close> has one 2 x 2 x 2 block, and
  its interface entry makes \<^verbatim>\<open>nFace()\<close> equal to 0, so \<^verbatim>\<open>numbering()\<close> and the
  file-loading constructor return normally. \<open>huge_block_nmf\<close> has one block, which the
  constructor leaves with no cell since \<^verbatim>\<open>cell_num()\<close> is 0 in \<^verbatim>\<open>size_t\<close>; the cell
  sweep throws \<^verbatim>\<open>std::out_of_range\<close> at its first cell.
\<close>

theorem C2_counterexample:
  "outcome_of (Mapping3D_new (Some wide_interface_nmf)) = Returns \<and>
   (case readFromFile (Some wide_interface_nmf) of
      Some (Inr v) \<Rightarrow> list_all block_ok (m_blk (snd v)) \<and> length (m_blk (snd v)) = 1 \<and>
                      outcome_of (Some (numbering (snd v))) = Returns
    | _ \<Rightarrow> False) \<and>
   outcome_of (Mapping3D_new (Some huge_block_nmf)) = Throws (out_of_range ''vector::at'') \<and>
   (case readFromFile (Some huge_block_nmf) of
      Some (Inr v) \<Rightarrow> list_all block_ok (m_blk (snd v)) \<and> length (m_blk (snd v)) = 1 \<and>
                      numbering (snd v) = Inl (out_of_range ''vector::at'')
    | _ \<Rightarrow> False)"
proof -
  obtain v where v: "readFromFile (Some huge_block_nmf) = Some (Inr v)"
    and c: "case m_blk (snd v) of
          [Some b] \<Rightarrow> m_nI b = 1073741825 \<and> m_nJ b = 1073741825 \<and> m_nK b = 17 \<and>
                      cell_num b = 0 \<and> blk_cell b = []
        | _ \<Rightarrow> False"
    using Some_Inr_caseD [OF huge_block_parsed] by blast
  obtain b where b: "m_blk (snd v) = [Some b]" "m_nI b = 1073741825" "m_nJ b = 1073741825"
      "m_nK b = 17" "cell_num b = 0" "blk_cell b = []"
    using one_block_caseD [OF c] by blast
  have d: "2 \<le> unat (m_nI b)" "2 \<le> unat (m_nJ b)" "2 \<le> unat (m_nK b)"
    by (simp_all add: b)
  have ok: "list_all block_ok (m_blk (snd v))"
    using d by (simp add: b block_ok_def constructed_def)
  have n: "numbering (snd v) = Inl (out_of_range ''vector::at'')"
    using b(1) d b(6) by (rule numbering_no_cells)
  have m: "outcome_of (Mapping3D_new (Some huge_block_nmf)) = Throws (out_of_range ''vector::at'')"
    using n v by (cases v) (simp add: Mapping3D_new_def bindE_def outcome_of_def)
  show ?thesis using wide_interface_returns m v ok n b(1) by simp
qed

text \<open>
  Claim C1 at the unit cube with its six walls (a defect of the code): the file-loading
  constructor throws \<^verbatim>\<open>std::length_error\<close>, and after the cell sweep the only cell has
  id 1 and its six face numbers are still 0: no face has been numbered.
\<close>

theorem C1_no_face_numbered:
  "outcome_of (Mapping3D_new (Some unit_cube_nmf))
     = Throws (length_error ''Inconsistent num of cells detected.'') \<and>
   (case readFromFile (Some unit_cube_nmf) of
      Some (Inr v) \<Rightarrow>
        (case number_cells (m_blk (snd v)) 0 of
           Inr w \<Rightarrow> map (map_option (\<lambda>b. map (\<lambda>c. (m_cell c, m_face c)) (blk_cell b))) (fst w)
                      = [Some [(1, [0, 0, 0, 0, 0, 0])]]
         | Inl e \<Rightarrow> False)
    | _ \<Rightarrow> False)"
  by code_simp

section \<open>Verification: counting faces\<close>

lemma subtract_interfaces_eq:
  "subtract_interfaces es ret =
     ret - sum_list (map (\<lambda>e. RANGE_face_num (Range1 e)) (filter (\<lambda>e. Type e = ONE_TO_ONE) es))"
  by (induction es arbitrary: ret) (auto simp: algebra_simps)

lemma RANGE_face_num_eq: "RANGE_face_num r = (rg_E1 r - rg_S1 r) * (rg_E2 r - rg_S2 r)"
  by (simp add: RANGE_face_num_def pri_node_num_def sec_node_num_def)

lemma face_num_eq:
  "face_num b = (m_nI b - 1) * m_nJ b * m_nK b + m_nI b * (m_nJ b - 1) * m_nK b
                + m_nI b * m_nJ b * (m_nK b - 1)"
  by (simp add: face_num_def IDIM_def JDIM_def KDIM_def)

text \<open>
  What \<^verbatim>\<open>nFace()\<close> computes: the sum over the blocks of
  \<open>(nI - 1) * nJ * nK + nI * (nJ - 1) * nK + nI * nJ * (nK - 1)\<close> minus, for every
  \<^verbatim>\<open>ONE_TO_ONE\<close> entry, \<open>(e1 - s1) * (e2 - s2)\<close> of the entry's first range, all in
  \<^verbatim>\<open>size_t\<close> arithmetic. (A null block pointer is dereferenced.)
\<close>

lemma nFace_closed_form:
  "nFace m =
     (if None \<in> set (m_blk m) then Inl null_dereference
      else Inr (sum_list (map (\<lambda>p. (m_nI (the p) - 1) * m_nJ (the p) * m_nK (the p)
                                  + m_nI (the p) * (m_nJ (the p) - 1) * m_nK (the p)
                                  + m_nI (the p) * m_nJ (the p) * (m_nK (the p) - 1)) (m_blk m))
                - sum_list (map (\<lambda>e. (rg_E1 (Range1 e) - rg_S1 (Range1 e))
                                      * (rg_E2 (Range1 e) - rg_S2 (Range1 e)))
                               (filter (\<lambda>e. Type e = ONE_TO_ONE) (m_entry m)))))"
  by (simp add: nFace_def sum_blocks_eq subtract_interfaces_eq RANGE_face_num_eq face_num_eq)

text \<open>
  Claim C4 at the unit cube with its six walls (a defect of the code): the summand
  \<open>(nI - 1) * nJ * nK + nI * (nJ - 1) * nK + nI * nJ * (nK - 1)\<close> of \<^verbatim>\<open>BLOCK::face_num()\<close>
  is the number of lattice edges of the block, not of its quadrilateral faces.
  \<^verbatim>\<open>face_num()\<close> is 12 for the 2 x 2 x 2 block and \<^verbatim>\<open>nFace()\<close> returns 12, while the
  block has six faces: the face loop of the mesh assembler makes six rounds on it, and
  each of the six walls covers one quadrilateral by \<^verbatim>\<open>RANGE::face_num()\<close>.
\<close>

theorem C4_face_num_counts_edges:
  "(case readFromFile (Some unit_cube_nmf) of
      Some (Inr v) \<Rightarrow>
        nFace (snd v) = Inr 12 \<and>
        map (map_option (\<lambda>b. (IDIM b, JDIM b, KDIM b, face_num b, length (block_ops b))))
            (m_blk (snd v)) = [Some (2, 2, 2, 12, 6)] \<and>
        map (\<lambda>e. (Type e = ONE_TO_ONE, rg_F (Range1 e), RANGE_face_num (Range1 e))) (m_entry (snd v))
          = [(False, 1, 1), (False, 2, 1), (False, 3, 1), (False, 4, 1), (False, 5, 1), (False, 6, 1)]
    | _ \<Rightarrow> False)"
  by code_simp

section \<open>Verification: the connectivity pass\<close>

lemma shape_nth:
  "shape blks' = shape blks \<Longrightarrow> n < length blks \<Longrightarrow>
   map_option (\<lambda>b. length (m_surf b)) (blks' ! n) = map_option (\<lambda>b. length (m_surf b)) (blks ! n)"
  by (metis length_map nth_map shape_def)

lemma shape_length: "shape blks' = shape blks \<Longrightarrow> length blks' = length blks"
  by (metis length_map shape_def)

lemma Array1D_index_less: "Array1D_index n i = Inr k \<Longrightarrow> k < n"
  by (auto simp: Array1D_index_def Let_def split: if_splits)

lemma surf_of_shape:
  assumes "shape blks' = shape blks" "n < length blks"
  shows "surf_of blks' n F = surf_of blks n F"
proof -
  from shape_nth [OF assms] show ?thesis
    by (cases "blks ! n"; cases "blks' ! n") (auto simp: surf_of_def surf_def split: sum.splits)
qed

lemma entry_surfaces_shape:
  assumes "shape blks' = shape blks"
  shows "entry_surfaces blks' e = entry_surfaces blks e"
proof (cases e)
  case (SingleSideEntry t r)
  then show ?thesis by (simp add: entry_surfaces_def)
next
  case (DoubleSideEntry t r1 r2 sw)
  have l: "length blks' = length blks" using assms by (rule shape_length)
  show ?thesis
    unfolding DoubleSideEntry entry_surfaces_def blk_slot_def l
    by (auto simp: bindE_def surf_of_shape [OF assms] dest: Array1D_index_less split: sum.splits)
qed

lemma shape_set_neighbourSurf: "shape (set_neighbourSurf F G blks) = shape blks"
proof (cases "blks ! fst F")
  case None
  then show ?thesis by (simp add: set_neighbourSurf_def)
next
  case (Some b)
  show ?thesis
  proof (cases "fst F < length blks")
    case True
    have "(shape blks)[fst F := Some (length (m_surf b))] = shape blks"
      using True Some by (simp add: shape_def list_update_same_conv)
    then show ?thesis using Some by (simp add: set_neighbourSurf_def shape_def map_update)
  next
    case False
    then show ?thesis using Some by (simp add: set_neighbourSurf_def list_update_beyond)
  qed
qed

lemma connect_entry_shape: "connect_entry e blks = Inr blks' \<Longrightarrow> shape blks' = shape blks"
  by (auto simp: connect_entry_def bindE_Inr_iff shape_set_neighbourSurf split: if_splits)

lemma establish_shape:
  "establish_connectivity es blks = Inr blks' \<Longrightarrow> shape blks' = shape blks"
  unfolding establish_connectivity_def
proof (induction es arbitrary: blks)
  case Nil
  then show ?case by simp
next
  case (Cons e es)
  then show ?case by (auto split: sum.splits dest!: connect_entry_shape)
qed

text \<open>A surface that the lookups return exists.\<close>

lemma surf_of_valid:
  "surf_of blks n F = Inr G \<Longrightarrow> fst G = n \<and> (\<exists>b. blks ! n = Some b \<and> snd G < length (m_surf b))"
  by (auto simp: surf_of_def surf_def bindE_Inr_iff split: option.splits sum.splits if_splits)

lemma entry_surfaces_valid:
  "entry_surfaces blks e = Inr (F1, F2) \<Longrightarrow> valid_surf blks F1 \<and> valid_surf blks F2"
  by (cases e)
     (auto simp: entry_surfaces_def blk_slot_def bindE_Inr_iff valid_surf_def
           dest!: surf_of_valid Array1D_index_less)

lemma neighbour_set_same:
  "valid_surf blks F \<Longrightarrow> neighbour_of (set_neighbourSurf F G blks) F = Some G"
  by (auto simp: valid_surf_def neighbour_of_def set_neighbourSurf_def split: option.splits)

lemma neighbour_set_other:
  "F' \<noteq> F \<Longrightarrow> neighbour_of (set_neighbourSurf F G blks) F' = neighbour_of blks F'"
proof (cases "blks ! fst F")
  case None
  then show ?thesis by (simp add: set_neighbourSurf_def)
next
  case (Some b)
  assume ne: "F' \<noteq> F"
  show ?thesis
  proof (cases "fst F < length blks")
    case False
    then show ?thesis by (simp add: set_neighbourSurf_def list_update_beyond split: option.splits)
  next
    case True
    show ?thesis
    proof (cases "fst F' = fst F")
      case False
      then show ?thesis using Some by (simp add: set_neighbourSurf_def neighbour_of_def)
    next
      case same: True
      then have "snd F' \<noteq> snd F" using ne by (simp add: prod_eq_iff)
      then show ?thesis using Some True same
        by (simp add: set_neighbourSurf_def neighbour_of_def)
    qed
  qed
qed

lemma valid_surf_shape: "shape blks' = shape blks \<Longrightarrow> valid_surf blks' F = valid_surf blks F"
proof -
  assume s: "shape blks' = shape blks"
  have l: "length blks' = length blks" using s by (rule shape_length)
  show ?thesis
  proof (cases "fst F < length blks")
    case True
    from shape_nth [OF s True] show ?thesis
      by (cases "blks ! fst F"; cases "blks' ! fst F") (auto simp: valid_surf_def l)
  next
    case False
    then show ?thesis by (simp add: valid_surf_def l)
  qed
qed

lemma named_surfaces_shape:
  "shape blks' = shape blks \<Longrightarrow> named_surfaces blks' e = named_surfaces blks e"
  using entry_surfaces_shape [of blks' blks e] by (simp add: named_surfaces_def)

lemma resolves_shape: "shape blks' = shape blks \<Longrightarrow> resolves blks' e = resolves blks e"
  using entry_surfaces_shape [of blks' blks e] by (simp add: resolves_def)

lemma connect_entry_resolves:
  "resolves blks e \<Longrightarrow> \<exists>blks'. connect_entry e blks = Inr blks'"
  by (auto simp: resolves_def connect_entry_def bindE_def split: sum.splits if_splits)

lemma establish_succeeds:
  "list_all (resolves blks) es \<Longrightarrow> \<exists>blks'. establish_connectivity es blks = Inr blks'"
  unfolding establish_connectivity_def
proof (induction es arbitrary: blks)
  case Nil
  then show ?case by simp
next
  case (Cons e es)
  then obtain blks1 where c: "connect_entry e blks = Inr blks1"
    using connect_entry_resolves [of blks e] by auto
  have "shape blks1 = shape blks" using c by (rule connect_entry_shape)
  then have "resolves blks1 = resolves blks"
    by (intro ext resolves_shape)
  then have "list_all (resolves blks1) es"
    using Cons.prems by simp
  from Cons.IH [OF this] show ?case by (simp add: c)
qed

lemma connect_entry_frame:
  assumes "connect_entry e blks = Inr blks'" "F \<notin> set (named_surfaces blks e)"
  shows "neighbour_of blks' F = neighbour_of blks F"
proof (cases "Type e = ONE_TO_ONE")
  case False
  then show ?thesis using assms by (simp add: connect_entry_def)
next
  case True
  with assms(1) obtain F1 F2 where
    es: "entry_surfaces blks e = Inr (F1, F2)" and
    b: "blks' = set_neighbourSurf F2 F1 (set_neighbourSurf F1 F2 blks)"
    by (auto simp: connect_entry_def bindE_Inr_iff)
  have "F \<noteq> F1" "F \<noteq> F2" using assms(2) True es by (auto simp: named_surfaces_def)
  then show ?thesis by (simp add: b neighbour_set_other)
qed

lemma establish_frame:
  "establish_connectivity es blks = Inr blks' \<Longrightarrow>
   F \<notin> set (concat (map (named_surfaces blks) es)) \<Longrightarrow>
   neighbour_of blks' F = neighbour_of blks F"
  unfolding establish_connectivity_def
proof (induction es arbitrary: blks)
  case Nil
  then show ?case by simp
next
  case (Cons e es)
  from Cons.prems(1) obtain blks1 where
    c: "connect_entry e blks = Inr blks1" and r: "foldE connect_entry es blks1 = Inr blks'"
    by (auto split: sum.splits)
  have sh: "shape blks1 = shape blks" using c by (rule connect_entry_shape)
  have ns: "named_surfaces blks1 = named_surfaces blks"
    using sh by (intro ext named_surfaces_shape)
  have "F \<notin> set (concat (map (named_surfaces blks1) es))"
    using Cons.prems(2) by (simp add: ns)
  from Cons.IH [OF r this] have "neighbour_of blks' F = neighbour_of blks1 F" .
  also have "\<dots> = neighbour_of blks F"
    using c Cons.prems(2) by (intro connect_entry_frame) auto
  finally show ?case .
qed

lemma connect_entry_pairs:
  assumes "connect_entry e blks = Inr blks'" "Type e = ONE_TO_ONE"
    "entry_surfaces blks e = Inr (F1, F2)" "F1 \<noteq> F2"
  shows "neighbour_of blks' F1 = Some F2 \<and> neighbour_of blks' F2 = Some F1"
proof -
  have b: "blks' = set_neighbourSurf F2 F1 (set_neighbourSurf F1 F2 blks)"
    using assms(1,2,3) by (simp add: connect_entry_def bindE_def)
  have v: "valid_surf blks F1" "valid_surf blks F2"
    using entry_surfaces_valid [OF assms(3)] by simp_all
  have v2: "valid_surf (set_neighbourSurf F1 F2 blks) F2"
    using v(2) by (simp add: valid_surf_shape [OF shape_set_neighbourSurf])
  show ?thesis
    using assms(4) v(1) v2 by (simp add: b neighbour_set_same neighbour_set_other)
qed

lemma establish_pairs:
  "establish_connectivity es blks = Inr blks' \<Longrightarrow>
   distinct (concat (map (named_surfaces blks) es)) \<Longrightarrow>
   e \<in> set es \<Longrightarrow> Type e = ONE_TO_ONE \<Longrightarrow> entry_surfaces blks e = Inr (F1, F2) \<Longrightarrow>
   neighbour_of blks' F1 = Some F2 \<and> neighbour_of blks' F2 = Some F1"
proof (induction es arbitrary: blks)
  case Nil
  then show ?case by simp
next
  case (Cons x es)
  from Cons.prems(1) obtain blks1 where
    c: "connect_entry x blks = Inr blks1" and r: "establish_connectivity es blks1 = Inr blks'"
    by (auto simp: establish_connectivity_def split: sum.splits)
  have sh: "shape blks1 = shape blks" using c by (rule connect_entry_shape)
  have ns: "named_surfaces blks1 = named_surfaces blks"
    using sh by (intro ext named_surfaces_shape)
  have d: "distinct (named_surfaces blks x)" "distinct (concat (map (named_surfaces blks1) es))"
    "set (named_surfaces blks x) \<inter> set (concat (map (named_surfaces blks1) es)) = {}"
    using Cons.prems(2) by (simp_all add: ns)
  show ?case
  proof (cases "e = x")
    case True
    have n: "named_surfaces blks x = [F1, F2]"
      using Cons.prems(4,5) True by (simp add: named_surfaces_def)
    have ne: "F1 \<noteq> F2" using d(1) n by simp
    have p: "neighbour_of blks1 F1 = Some F2 \<and> neighbour_of blks1 F2 = Some F1"
      using c Cons.prems(4,5) ne True by (intro connect_entry_pairs) auto
    have "F1 \<notin> set (concat (map (named_surfaces blks1) es))"
      "F2 \<notin> set (concat (map (named_surfaces blks1) es))"
      using d(3) n by auto
    then show ?thesis using establish_frame [OF r] p by simp
  next
    case False
    then have "e \<in> set es" using Cons.prems(3) by simp
    moreover have "entry_surfaces blks1 e = Inr (F1, F2)"
      using Cons.prems(5) entry_surfaces_shape [OF sh, of e] by simp
    ultimately show ?thesis using Cons.IH [OF r d(2) _ Cons.prems(4)] by blast
  qed
qed

lemma connect_entry_sets:
  assumes "connect_entry e blks = Inr blks'" "Type e = ONE_TO_ONE"
    "entry_surfaces blks e = Inr (F1, F2)"
  shows "neighbour_of blks' F1 = Some F2 \<and> neighbour_of blks' F2 = Some F1"
proof -
  have b: "blks' = set_neighbourSurf F2 F1 (set_neighbourSurf F1 F2 blks)"
    using assms(1,2,3) by (simp add: connect_entry_def bindE_def)
  have v: "valid_surf blks F1" "valid_surf blks F2"
    using entry_surfaces_valid [OF assms(3)] by simp_all
  have v2: "valid_surf (set_neighbourSurf F1 F2 blks) F2"
    using v(2) by (simp add: valid_surf_shape [OF shape_set_neighbourSurf])
  show ?thesis
    using v(1) v2 by (cases "F1 = F2") (simp_all add: b neighbour_set_same neighbour_set_other)
qed

lemma establish_last:
  assumes run: "establish_connectivity (pre @ e # post) blks = Inr blks'"
    and e: "Type e = ONE_TO_ONE" "entry_surfaces blks e = Inr (F1, F2)"
  shows "(F1 \<notin> set (concat (map (named_surfaces blks) post)) \<longrightarrow> neighbour_of blks' F1 = Some F2) \<and>
         (F2 \<notin> set (concat (map (named_surfaces blks) post)) \<longrightarrow> neighbour_of blks' F2 = Some F1)"
proof -
  from run obtain blks0 blks1 where
    r0: "foldE connect_entry pre blks = Inr blks0" and
    c: "connect_entry e blks0 = Inr blks1" and
    r1: "foldE connect_entry post blks1 = Inr blks'"
    unfolding establish_connectivity_def by (auto simp: foldE_append split: sum.splits)
  have s0: "shape blks0 = shape blks"
    using r0 by (intro establish_shape) (simp add: establish_connectivity_def)
  have s1: "shape blks1 = shape blks" using connect_entry_shape [OF c] s0 by simp
  have es: "entry_surfaces blks0 e = Inr (F1, F2)"
    using e(2) entry_surfaces_shape [OF s0, of e] by simp
  have p: "neighbour_of blks1 F1 = Some F2 \<and> neighbour_of blks1 F2 = Some F1"
    using c e(1) es by (rule connect_entry_sets)
  have ns: "named_surfaces blks1 = named_surfaces blks"
    using s1 by (intro ext named_surfaces_shape)
  have r1': "establish_connectivity post blks1 = Inr blks'"
    using r1 by (simp add: establish_connectivity_def)
  show ?thesis using establish_frame [OF r1'] p by (simp add: ns)
qed

text \<open>
  Claim C5, as amended. The connectivity pass has no duplicate check: whenever the
  lookups of every \<^verbatim>\<open>ONE_TO_ONE\<close> entry succeed (its block ids and face ids name
  existing surfaces), the pass succeeds, also when a surface is named twice. Afterwards
  a surface points to its partner in the last entry that names it: each surface of a
  \<^verbatim>\<open>ONE_TO_ONE\<close> entry that no later entry names points to the other surface of that
  entry, whatever that one points to by then; a surface that no entry names keeps its
  pointer. When no surface is named twice, the two surfaces of each \<^verbatim>\<open>ONE_TO_ONE\<close>
  entry point to each other.
\<close>

theorem C5_connectivity_pass:
  assumes "list_all (resolves blks) es"
  shows "\<exists>blks'. establish_connectivity es blks = Inr blks' \<and>
           (\<forall>pre e post F1 F2.
              es = pre @ e # post \<and> Type e = ONE_TO_ONE \<and> entry_surfaces blks e = Inr (F1, F2) \<longrightarrow>
                (F1 \<notin> set (concat (map (named_surfaces blks) post)) \<longrightarrow>
                   neighbour_of blks' F1 = Some F2) \<and>
                (F2 \<notin> set (concat (map (named_surfaces blks) post)) \<longrightarrow>
                   neighbour_of blks' F2 = Some F1)) \<and>
           (\<forall>F. F \<notin> set (concat (map (named_surfaces blks) es)) \<longrightarrow>
                neighbour_of blks' F = neighbour_of blks F) \<and>
           (distinct (concat (map (named_surfaces blks) es)) \<longrightarrow>
              (\<forall>e F1 F2. e \<in> set es \<and> Type e = ONE_TO_ONE \<and> entry_surfaces blks e = Inr (F1, F2) \<longrightarrow>
                 neighbour_of blks' F1 = Some F2 \<and> neighbour_of blks' F2 = Some F1))"
proof -
  from establish_succeeds [OF assms] obtain blks' where
    e: "establish_connectivity es blks = Inr blks'" by blast
  have last: "\<forall>pre e post F1 F2.
              es = pre @ e # post \<and> Type e = ONE_TO_ONE \<and> entry_surfaces blks e = Inr (F1, F2) \<longrightarrow>
                (F1 \<notin> set (concat (map (named_surfaces blks) post)) \<longrightarrow>
                   neighbour_of blks' F1 = Some F2) \<and>
                (F2 \<notin> set (concat (map (named_surfaces blks) post)) \<longrightarrow>
                   neighbour_of blks' F2 = Some F1)"
    using establish_last e by blast
  have frame: "\<forall>F. F \<notin> set (concat (map (named_surfaces blks) es)) \<longrightarrow>
                neighbour_of blks' F = neighbour_of blks F"
    using establish_frame [OF e] by blast
  have pairs: "distinct (concat (map (named_surfaces blks) es)) \<longrightarrow>
              (\<forall>e F1 F2. e \<in> set es \<and> Type e = ONE_TO_ONE \<and> entry_surfaces blks e = Inr (F1, F2) \<longrightarrow>
                 neighbour_of blks' F1 = Some F2 \<and> neighbour_of blks' F2 = Some F1)"
    using establish_pairs [OF e] by blast
  show ?thesis using e last frame pairs by blast
qed

lemma two_blocks_connectivity:
  "case readFromFile (Some two_blocks_nmf) of
     Some (Inr v) \<Rightarrow>
       list_all (resolves (m_blk (snd v))) (m_entry (snd v)) \<and>
       distinct (concat (map (named_surfaces (m_blk (snd v))) (m_entry (snd v)))) \<and>
       (case m_entry (snd v) of
          e # es \<Rightarrow> Type e = ONE_TO_ONE \<and> entry_surfaces (m_blk (snd v)) e = Inr ((0, 1), (1, 0))
        | [] \<Rightarrow> False)
   | _ \<Rightarrow> False"
  by code_simp

lemma duplicate_interface_parsed:
  "case readFromFile (Some duplicate_interface_nmf) of
     Some (Inr v) \<Rightarrow>
       list_all (resolves (m_blk (snd v))) (m_entry (snd v)) \<and>
       (case m_entry (snd v) of
          [e1, e2] \<Rightarrow>
            Type e1 = ONE_TO_ONE \<and> entry_surfaces (m_blk (snd v)) e1 = Inr ((0, 1), (1, 0)) \<and>
            Type e2 = ONE_TO_ONE \<and> entry_surfaces (m_blk (snd v)) e2 = Inr ((0, 1), (2, 0)) \<and>
            named_surfaces (m_blk (snd v)) e2 = [(0, 1), (2, 0)]
        | _ \<Rightarrow> False)
   | _ \<Rightarrow> False"
  by code_simp

lemma two_entries_caseD:
  "(case xs of [e1, e2] \<Rightarrow> P e1 e2 | _ \<Rightarrow> False) \<Longrightarrow> \<exists>e1 e2. xs = [e1, e2] \<and> P e1 e2"
  by (auto split: list.splits)

text \<open>Witness for C5: the entries and blocks read from \<open>two_blocks_nmf\<close>, where surface
  2 of block 1 and surface 1 of block 2 point to each other; and those read from
  \<open>duplicate_interface_nmf\<close>, where surface 2 of block 1 ends paired with surface 1 of
  block 3, and surface 1 of block 2 still points to it.\<close>

theorem C5_connectivity_pass_witness:
  "(\<exists>v. readFromFile (Some two_blocks_nmf) = Some (Inr v) \<and>
       list_all (resolves (m_blk (snd v))) (m_entry (snd v)) \<and>
       distinct (concat (map (named_surfaces (m_blk (snd v))) (m_entry (snd v)))) \<and>
       (\<exists>blks'. establish_connectivity (m_entry (snd v)) (m_blk (snd v)) = Inr blks' \<and>
          neighbour_of blks' (0, 1) = Some (1, 0) \<and> neighbour_of blks' (1, 0) = Some (0, 1))) \<and>
   (\<exists>v. readFromFile (Some duplicate_interface_nmf) = Some (Inr v) \<and>
       list_all (resolves (m_blk (snd v))) (m_entry (snd v)) \<and>
       (\<exists>blks'. establish_connectivity (m_entry (snd v)) (m_blk (snd v)) = Inr blks' \<and>
          neighbour_of blks' (0, 1) = Some (2, 0) \<and> neighbour_of blks' (2, 0) = Some (0, 1) \<and>
          neighbour_of blks' (1, 0) = Some (0, 1)))"
proof -
  obtain v where v: "readFromFile (Some two_blocks_nmf) = Some (Inr v)"
    and r: "list_all (resolves (m_blk (snd v))) (m_entry (snd v))"
    and d: "distinct (concat (map (named_surfaces (m_blk (snd v))) (m_entry (snd v))))"
    and e: "case m_entry (snd v) of
          e # es \<Rightarrow> Type e = ONE_TO_ONE \<and> entry_surfaces (m_blk (snd v)) e = Inr ((0, 1), (1, 0))
        | [] \<Rightarrow> False"
    using Some_Inr_caseD [OF two_blocks_connectivity] by blast
  obtain e0 where e0: "e0 \<in> set (m_entry (snd v))" "Type e0 = ONE_TO_ONE"
    "entry_surfaces (m_blk (snd v)) e0 = Inr ((0, 1), (1, 0))"
    using e by (auto split: list.splits)
  from C5_connectivity_pass [OF r] d e0 obtain blks' where
    "establish_connectivity (m_entry (snd v)) (m_blk (snd v)) = Inr blks'"
    "neighbour_of blks' (0, 1) = Some (1, 0) \<and> neighbour_of blks' (1, 0) = Some (0, 1)"
    by blast
  then have first: "\<exists>v. readFromFile (Some two_blocks_nmf) = Some (Inr v) \<and>
       list_all (resolves (m_blk (snd v))) (m_entry (snd v)) \<and>
       distinct (concat (map (named_surfaces (m_blk (snd v))) (m_entry (snd v)))) \<and>
       (\<exists>blks'. establish_connectivity (m_entry (snd v)) (m_blk (snd v)) = Inr blks' \<and>
          neighbour_of blks' (0, 1) = Some (1, 0) \<and> neighbour_of blks' (1, 0) = Some (0, 1))"
    using v r d by blast
  obtain w where w: "readFromFile (Some duplicate_interface_nmf) = Some (Inr w)"
    and rw: "list_all (resolves (m_blk (snd w))) (m_entry (snd w))"
    and ew: "case m_entry (snd w) of
          [e1, e2] \<Rightarrow>
            Type e1 = ONE_TO_ONE \<and> entry_surfaces (m_blk (snd w)) e1 = Inr ((0, 1), (1, 0)) \<and>
            Type e2 = ONE_TO_ONE \<and> entry_surfaces (m_blk (snd w)) e2 = Inr ((0, 1), (2, 0)) \<and>
            named_surfaces (m_blk (snd w)) e2 = [(0, 1), (2, 0)]
        | _ \<Rightarrow> False"
    using Some_Inr_caseD [OF duplicate_interface_parsed] by blast
  obtain e1 e2 where es: "m_entry (snd w) = [e1, e2]"
    "Type e1 = ONE_TO_ONE" "entry_surfaces (m_blk (snd w)) e1 = Inr ((0, 1), (1, 0))"
    "Type e2 = ONE_TO_ONE" "entry_surfaces (m_blk (snd w)) e2 = Inr ((0, 1), (2, 0))"
    "named_surfaces (m_blk (snd w)) e2 = [(0, 1), (2, 0)]"
    using two_entries_caseD [OF ew] by blast
  from C5_connectivity_pass [OF rw] obtain blks'' where
    run: "establish_connectivity (m_entry (snd w)) (m_blk (snd w)) = Inr blks''" and
    last: "\<forall>pre e post F1 F2.
              m_entry (snd w) = pre @ e # post \<and> Type e = ONE_TO_ONE \<and>
              entry_surfaces (m_blk (snd w)) e = Inr (F1, F2) \<longrightarrow>
                (F1 \<notin> set (concat (map (named_surfaces (m_blk (snd w))) post)) \<longrightarrow>
                   neighbour_of blks'' F1 = Some F2) \<and>
                (F2 \<notin> set (concat (map (named_surfaces (m_blk (snd w))) post)) \<longrightarrow>
                   neighbour_of blks'' F2 = Some F1)"
    by blast
  have s1: "m_entry (snd w) = [] @ e1 # [e2]" and s2: "m_entry (snd w) = [e1] @ e2 # []"
    by (simp_all add: es(1))
  have stale: "neighbour_of blks'' (1, 0) = Some (0, 1)"
    using last [rule_format, of "[]" e1 "[e2]" "(0, 1)" "(1, 0)"] s1 es by simp
  have new: "neighbour_of blks'' (0, 1) = Some (2, 0) \<and> neighbour_of blks'' (2, 0) = Some (0, 1)"
    using last [rule_format, of "[e1]" e2 "[]" "(0, 1)" "(2, 0)"] s2 es by simp
  have second: "\<exists>v. readFromFile (Some duplicate_interface_nmf) = Some (Inr v) \<and>
       list_all (resolves (m_blk (snd v))) (m_entry (snd v)) \<and>
       (\<exists>blks'. establish_connectivity (m_entry (snd v)) (m_blk (snd v)) = Inr blks' \<and>
          neighbour_of blks' (0, 1) = Some (2, 0) \<and> neighbour_of blks' (2, 0) = Some (0, 1) \<and>
          neighbour_of blks' (1, 0) = Some (0, 1))"
    using w rw run stale new by blast
  show ?thesis using first second by blast
qed

text \<open>
  Counterexample to C5 as stated: in \<open>duplicate_interface_nmf\<close> two entries name
  surface 2 of block 1. \<^verbatim>\<open>readFromFile\<close> returns normally; the surface points to
  surface 1 of block 3, and surface 1 of block 2 still points to it.
\<close>

theorem C5_counterexample:
  "outcome_of (readFromFile (Some duplicate_interface_nmf)) = Returns \<and>
   (case readFromFile (Some duplicate_interface_nmf) of
      Some (Inr v) \<Rightarrow>
        map (neighbour_of (m_blk (snd v))) [(0, 1), (1, 0), (2, 0)]
          = [Some (2, 0), Some (0, 1), Some (0, 1)]
    | _ \<Rightarrow> False)"
  by code_simp

section \<open>Verification: what the parser accepts\<close>










text \<open>
  Claim C7 at \<open>duplicate_ids_nmf\<close> (a defect of the code): two block lines carry the
  id 1. \<^verbatim>\<open>readFromFile\<close> returns normally; slot 1 holds the second block, slot 2 a
  null pointer, which \<^verbatim>\<open>nFace()\<close> and \<^verbatim>\<open>numbering()\<close> dereference.
\<close>

theorem C7_duplicate_block_ids:
  "outcome_of (readFromFile (Some duplicate_ids_nmf)) = Returns \<and>
   (case readFromFile (Some duplicate_ids_nmf) of
     Some (Inr v) \<Rightarrow>
       model_of (snd v) =
         ([Some (3, 3, 3), None],
          [SingleSideEntry WALL \<lparr>rg_B = 1, rg_F = 1, rg_S1 = 1, rg_E1 = 3, rg_S2 = 1, rg_E2 = 3\<rparr>]) \<and>
       nFace (snd v) = Inl null_dereference
   | _ \<Rightarrow> False) \<and>
   outcome_of (Mapping3D_new (Some duplicate_ids_nmf)) = Throws null_dereference"
  by code_simp

section \<open>Verification: the face records of the assembled mesh\<close>

lemma run_ops_append:
  "run_ops (xs @ ys) st = (case run_ops xs st of Inl e \<Rightarrow> Inl e | Inr s \<Rightarrow> run_ops ys s)"
  by (simp add: run_ops_def foldE_append split: sum.splits)

lemma run_ops_Cons:
  "run_ops (bo # ys) st = (case run_op (fst bo) (snd bo) st of Inl e \<Rightarrow> Inl e | Inr s \<Rightarrow> run_ops ys s)"
  by (simp add: run_ops_def split: sum.splits)

lemma run_ops_Nil: "run_ops [] st = Inr st"
  by (simp add: run_ops_def)

lemma face_pos_Inr: "face_pos n f = Inr p \<longleftrightarrow> 1 \<le> unat f \<and> unat f \<le> n \<and> p = unat f - 1"
  by (auto simp: face_pos_def)

text \<open>What a successful round has read before it writes.\<close>

lemma internal_face_Inr:
  assumes "internal_face b cur adj r ord st = Inr st'"
  obtains curCell adjCell f ns where
    "cell_at b cur = Inr curCell" "cell_at b adj = Inr adjCell" "FaceSeq curCell r = Inr f"
    "1 \<le> unat f" "unat f \<le> length (mesh_face st)" "nodes_of curCell ord = Inr ns"
    "st' = st\<lparr>mesh_face := (mesh_face st)[unat f - 1 :=
                  \<lparr>atBdry = False, f_type = QUADRILATERAL, includedNode = ns,
                   leftCell = CellSeq adjCell, rightCell = CellSeq curCell\<rparr>],
               visited := (visited st)[unat f - 1 := True]\<rparr>"
  using assms unfolding internal_face_def bindE_Inr_iff face_pos_Inr by blast

lemma surface_face_Inr:
  assumes "surface_face b cur r ord st = Inr st'"
  obtains curCell f sp where
    "cell_at b cur = Inr curCell" "FaceSeq curCell r = Inr f"
    "1 \<le> unat f" "unat f \<le> length (mesh_face st)" "surf b r = Inr sp"
    "(visited st ! (unat f - 1) \<and> \<not> atBdry (mesh_face st ! (unat f - 1)) \<and>
        (leftCell (mesh_face st ! (unat f - 1)) = 0 \<and>
           st' = st\<lparr>mesh_face := (mesh_face st)[unat f - 1 :=
                  (mesh_face st ! (unat f - 1))\<lparr>leftCell := CellSeq curCell\<rparr>]\<rparr>
         \<or> leftCell (mesh_face st ! (unat f - 1)) \<noteq> 0 \<and> rightCell (mesh_face st ! (unat f - 1)) = 0 \<and>
           st' = st\<lparr>mesh_face := (mesh_face st)[unat f - 1 :=
                  (mesh_face st ! (unat f - 1))\<lparr>rightCell := CellSeq curCell\<rparr>]\<rparr>))
     \<or> (\<not> visited st ! (unat f - 1) \<and>
         (\<exists>ns. nodes_of curCell ord = Inr ns \<and>
            st' = st\<lparr>mesh_face := (mesh_face st)[unat f - 1 :=
                          \<lparr>atBdry = (neighbourSurf (m_surf b ! sp) = None), f_type = QUADRILATERAL,
                           includedNode = ns, leftCell = 0, rightCell = CellSeq curCell\<rparr>],
                       visited := (visited st)[unat f - 1 := True]\<rparr>))"
proof -
  from assms obtain curCell f p sp where
    h: "cell_at b cur = Inr curCell" "FaceSeq curCell r = Inr f"
       "face_pos (length (mesh_face st)) f = Inr p" "surf b r = Inr sp"
    and body: "(let curFace = mesh_face st ! p; curSurf = m_surf b ! sp in
        if visited st ! p
        then (if \<not> atBdry curFace
              then (if leftCell curFace = 0
                    then Inr (st\<lparr>mesh_face := (mesh_face st)[p := curFace\<lparr>leftCell := CellSeq curCell\<rparr>]\<rparr>)
                    else if rightCell curFace = 0
                    then Inr (st\<lparr>mesh_face := (mesh_face st)[p := curFace\<lparr>rightCell := CellSeq curCell\<rparr>]\<rparr>)
                    else Inl (runtime_error ''Double-Sided face should not appear more than twice!''))
              else Inl (runtime_error ''Boundary face shouldn't appear twice!''))
        else bindE (nodes_of curCell ord) (\<lambda>ns.
               Inr (st\<lparr>mesh_face := (mesh_face st)[p :=
                          \<lparr>atBdry = (neighbourSurf curSurf = None), f_type = QUADRILATERAL,
                           includedNode = ns, leftCell = 0, rightCell = CellSeq curCell\<rparr>],
                       visited := (visited st)[p := True]\<rparr>))) = Inr st'"
    unfolding surface_face_def bindE_Inr_iff by blast
  have p: "1 \<le> unat f" "unat f \<le> length (mesh_face st)" "p = unat f - 1"
    using h(3) by (simp_all add: face_pos_Inr)
  show ?thesis
    by (rule that [OF h(1,2) p(1,2) h(4)])
       (use body in \<open>auto simp: p(3) Let_def bindE_Inr_iff split: if_splits\<close>)
qed


lemma run_op_Inr:
  assumes "run_op b op st = Inr st'"
  obtains f where "op_face (b, op) = Inr f" "1 \<le> unat f" "unat f \<le> length (mesh_face st)"
proof (cases op)
  case (InternalFace cur adj r ord)
  with assms have "internal_face b cur adj r ord st = Inr st'" by simp
  then show ?thesis
    by (rule internal_face_Inr) (auto simp: InternalFace op_face_def bindE_def intro: that)
next
  case (SurfaceFace cur r ord)
  with assms have "surface_face b cur r ord st = Inr st'" by simp
  then show ?thesis
    by (rule surface_face_Inr) (auto simp: SurfaceFace op_face_def bindE_def intro: that)
qed

lemma run_op_state_ok:
  assumes "run_op b op st = Inr st'" "state_ok st"
  shows "state_ok st' \<and> length (mesh_face st') = length (mesh_face st)"
proof (cases op)
  case (InternalFace cur adj r ord)
  with assms(1) have "internal_face b cur adj r ord st = Inr st'" by simp
  then show ?thesis
    by (rule internal_face_Inr) (use assms(2) in \<open>auto simp: state_ok_def\<close>)
next
  case (SurfaceFace cur r ord)
  with assms(1) have "surface_face b cur r ord st = Inr st'" by simp
  then show ?thesis
    by (rule surface_face_Inr) (use assms(2) in \<open>auto simp: state_ok_def\<close>)
qed

lemma run_ops_state_ok:
  "run_ops ops st = Inr st' \<Longrightarrow> state_ok st \<Longrightarrow>
   state_ok st' \<and> length (mesh_face st') = length (mesh_face st)"
proof (induction ops arbitrary: st)
  case Nil
  then show ?case by (simp add: run_ops_Nil)
next
  case (Cons bo ops)
  from Cons.prems(1) obtain s where
    s: "run_op (fst bo) (snd bo) st = Inr s" "run_ops ops s = Inr st'"
    by (auto simp: run_ops_Cons split: sum.splits)
  from run_op_state_ok [OF s(1) Cons.prems(2)] Cons.IH [OF s(2)] show ?case by simp
qed

lemma unat_pred_inj:
  fixes f g :: size_t
  shows "1 \<le> unat f \<Longrightarrow> 1 \<le> unat g \<Longrightarrow> unat f - 1 = unat g - 1 \<Longrightarrow> f = g"
proof -
  assume "1 \<le> unat f" "1 \<le> unat g" "unat f - 1 = unat g - 1"
  then have "unat f = unat g" by linarith
  then show "f = g" by (simp add: word_unat_eq_iff)
qed

text \<open>A round leaves every other face record and flag alone.\<close>

lemma run_op_frame:
  assumes "run_op b op st = Inr st'" "op_face (b, op) \<noteq> Inr g" "1 \<le> unat g"
  shows "face_at st' g = face_at st g \<and> visited st' ! (unat g - 1) = visited st ! (unat g - 1)"
proof (cases op)
  case (InternalFace cur adj r ord)
  with assms(1) have "internal_face b cur adj r ord st = Inr st'" by simp
  then show ?thesis
  proof (rule internal_face_Inr)
    fix curCell adjCell f ns
    assume h: "cell_at b cur = Inr curCell" "FaceSeq curCell r = Inr f" "1 \<le> unat f"
      and st': "st' = st\<lparr>mesh_face := (mesh_face st)[unat f - 1 :=
                  \<lparr>atBdry = False, f_type = QUADRILATERAL, includedNode = ns,
                   leftCell = CellSeq adjCell, rightCell = CellSeq curCell\<rparr>],
               visited := (visited st)[unat f - 1 := True]\<rparr>"
    have "f \<noteq> g" using assms(2) h by (auto simp: InternalFace op_face_def bindE_def)
    then have "unat f - 1 \<noteq> unat g - 1" using unat_pred_inj [OF h(3) assms(3)] by blast
    then show ?thesis by (simp add: st' face_at_def)
  qed
next
  case (SurfaceFace cur r ord)
  with assms(1) have "surface_face b cur r ord st = Inr st'" by simp
  then show ?thesis
  proof (rule surface_face_Inr)
    fix curCell f sp
    assume h: "cell_at b cur = Inr curCell" "FaceSeq curCell r = Inr f" "1 \<le> unat f"
      and st': "(visited st ! (unat f - 1) \<and> \<not> atBdry (mesh_face st ! (unat f - 1)) \<and>
        (leftCell (mesh_face st ! (unat f - 1)) = 0 \<and>
           st' = st\<lparr>mesh_face := (mesh_face st)[unat f - 1 :=
                  (mesh_face st ! (unat f - 1))\<lparr>leftCell := CellSeq curCell\<rparr>]\<rparr>
         \<or> leftCell (mesh_face st ! (unat f - 1)) \<noteq> 0 \<and> rightCell (mesh_face st ! (unat f - 1)) = 0 \<and>
           st' = st\<lparr>mesh_face := (mesh_face st)[unat f - 1 :=
                  (mesh_face st ! (unat f - 1))\<lparr>rightCell := CellSeq curCell\<rparr>]\<rparr>))
     \<or> (\<not> visited st ! (unat f - 1) \<and>
         (\<exists>ns. nodes_of curCell ord = Inr ns \<and>
            st' = st\<lparr>mesh_face := (mesh_face st)[unat f - 1 :=
                          \<lparr>atBdry = (neighbourSurf (m_surf b ! sp) = None), f_type = QUADRILATERAL,
                           includedNode = ns, leftCell = 0, rightCell = CellSeq curCell\<rparr>],
                       visited := (visited st)[unat f - 1 := True]\<rparr>))"
    have "f \<noteq> g" using assms(2) h by (auto simp: SurfaceFace op_face_def bindE_def)
    then have "unat f - 1 \<noteq> unat g - 1" using unat_pred_inj [OF h(3) assms(3)] by blast
    then show ?thesis using st' by (auto simp: face_at_def)
  qed
qed

lemma run_ops_frame:
  "run_ops ops st = Inr st' \<Longrightarrow> list_all (\<lambda>bo. op_face bo \<noteq> Inr g) ops \<Longrightarrow> 1 \<le> unat g \<Longrightarrow>
   face_at st' g = face_at st g \<and> visited st' ! (unat g - 1) = visited st ! (unat g - 1)"
proof (induction ops arbitrary: st)
  case Nil
  then show ?case by (simp add: run_ops_Nil)
next
  case (Cons bo ops)
  from Cons.prems(1) obtain s where
    s: "run_op (fst bo) (snd bo) st = Inr s" "run_ops ops s = Inr st'"
    by (auto simp: run_ops_Cons split: sum.splits)
  have "op_face (fst bo, snd bo) \<noteq> Inr g" using Cons.prems(2) by simp
  from run_op_frame [OF s(1) this Cons.prems(3)] Cons.IH [OF s(2)] Cons.prems(2,3)
  show ?case by simp
qed


text \<open>A later round on a face that has been visited keeps its nodes; it is a second
  visit of a surface face, or addresses another face.\<close>

lemma run_op_later:
  assumes "run_op b op st = Inr st'" "op_face (b, op) \<noteq> Inr g \<or> is_surface_op op"
    "1 \<le> unat g" "unat g \<le> length (mesh_face st)" "visited st ! (unat g - 1)"
  shows "visited st' ! (unat g - 1) \<and> includedNode (face_at st' g) = includedNode (face_at st g) \<and>
         (rightCell (face_at st g) \<noteq> 0 \<longrightarrow> rightCell (face_at st' g) = rightCell (face_at st g))"
proof (cases "op_face (b, op) = Inr g")
  case False
  from run_op_frame [OF assms(1) False assms(3)] assms(5) show ?thesis by simp
next
  case True
  then obtain cur r ord where op: "op = SurfaceFace cur r ord"
    using assms(2) by (cases op) auto
  with assms(1) have "surface_face b cur r ord st = Inr st'" by simp
  then show ?thesis
  proof (rule surface_face_Inr)
    fix curCell f sp
    assume h: "cell_at b cur = Inr curCell" "FaceSeq curCell r = Inr f"
      and st': "(visited st ! (unat f - 1) \<and> \<not> atBdry (mesh_face st ! (unat f - 1)) \<and>
        (leftCell (mesh_face st ! (unat f - 1)) = 0 \<and>
           st' = st\<lparr>mesh_face := (mesh_face st)[unat f - 1 :=
                  (mesh_face st ! (unat f - 1))\<lparr>leftCell := CellSeq curCell\<rparr>]\<rparr>
         \<or> leftCell (mesh_face st ! (unat f - 1)) \<noteq> 0 \<and> rightCell (mesh_face st ! (unat f - 1)) = 0 \<and>
           st' = st\<lparr>mesh_face := (mesh_face st)[unat f - 1 :=
                  (mesh_face st ! (unat f - 1))\<lparr>rightCell := CellSeq curCell\<rparr>]\<rparr>))
     \<or> (\<not> visited st ! (unat f - 1) \<and>
         (\<exists>ns. nodes_of curCell ord = Inr ns \<and>
            st' = st\<lparr>mesh_face := (mesh_face st)[unat f - 1 :=
                          \<lparr>atBdry = (neighbourSurf (m_surf b ! sp) = None), f_type = QUADRILATERAL,
                           includedNode = ns, leftCell = 0, rightCell = CellSeq curCell\<rparr>],
                       visited := (visited st)[unat f - 1 := True]\<rparr>))"
    have fg: "f = g" using True h by (simp add: op op_face_def bindE_def)
    have p: "unat g - 1 < length (mesh_face st)" using assms(3,4) by linarith
    show ?thesis using st' assms(5) p by (auto simp: fg face_at_def)
  qed
qed

lemma run_ops_later:
  "run_ops ops st = Inr st' \<Longrightarrow> state_ok st \<Longrightarrow>
   list_all (\<lambda>bo. op_face bo \<noteq> Inr g \<or> is_surface_op (snd bo)) ops \<Longrightarrow>
   1 \<le> unat g \<Longrightarrow> unat g \<le> length (mesh_face st) \<Longrightarrow> visited st ! (unat g - 1) \<Longrightarrow>
   includedNode (face_at st' g) = includedNode (face_at st g) \<and>
   (rightCell (face_at st g) \<noteq> 0 \<longrightarrow> rightCell (face_at st' g) = rightCell (face_at st g))"
proof (induction ops arbitrary: st)
  case Nil
  then show ?case by (simp add: run_ops_Nil)
next
  case (Cons bo ops)
  from Cons.prems(1) obtain s where
    s: "run_op (fst bo) (snd bo) st = Inr s" "run_ops ops s = Inr st'"
    by (auto simp: run_ops_Cons split: sum.splits)
  have 1: "op_face (fst bo, snd bo) \<noteq> Inr g \<or> is_surface_op (snd bo)"
    using Cons.prems(3) by simp
  note l = run_op_later [OF s(1) 1 Cons.prems(4,5,6)]
  note k = run_op_state_ok [OF s(1) Cons.prems(2)]
  have "includedNode (face_at st' g) = includedNode (face_at s g) \<and>
   (rightCell (face_at s g) \<noteq> 0 \<longrightarrow> rightCell (face_at st' g) = rightCell (face_at s g))"
    using Cons.IH [OF s(2)] k l Cons.prems(3,4,5) by simp
  then show ?case using l by auto
qed

lemma set_loop2: "set (loop2 xs ys f) = {f x y | x y. x \<in> set xs \<and> y \<in> set ys}"
  by (auto simp: loop2_def)

lemma set_loop3:
  "set (loop3 xs ys zs f) = {f x y z | x y z. x \<in> set xs \<and> y \<in> set ys \<and> z \<in> set zs}"
  by (auto simp: loop3_def)

lemma set_block_ops:
  "set (block_ops b) =
     {InternalFace (i, j, k) (i - 1, j, k) 1 [1, 5, 8, 4] | k j i.
        k \<in> set (size_t_range 1 (KDIM b)) \<and> j \<in> set (size_t_range 1 (JDIM b)) \<and>
        i \<in> set (size_t_range 2 (IDIM b))}
   \<union> {InternalFace (i, j, k) (i, j - 1, k) 3 [6, 5, 1, 2] | k i j.
        k \<in> set (size_t_range 1 (KDIM b)) \<and> i \<in> set (size_t_range 1 (IDIM b)) \<and>
        j \<in> set (size_t_range 2 (JDIM b))}
   \<union> {InternalFace (i, j, k) (i, j, k - 1) 5 [4, 3, 2, 1] | i j k.
        i \<in> set (size_t_range 1 (IDIM b)) \<and> j \<in> set (size_t_range 1 (JDIM b)) \<and>
        k \<in> set (size_t_range 2 (KDIM b))}
   \<union> {SurfaceFace (1, j, k) 1 [1, 5, 8, 4] | k j.
        k \<in> set (size_t_range 1 (KDIM b)) \<and> j \<in> set (size_t_range 1 (JDIM b))}
   \<union> {SurfaceFace (IDIM b - 1, j, k) 2 [2, 3, 7, 6] | k j.
        k \<in> set (size_t_range 1 (KDIM b)) \<and> j \<in> set (size_t_range 1 (JDIM b))}
   \<union> {SurfaceFace (i, 1, k) 3 [6, 5, 1, 2] | k i.
        k \<in> set (size_t_range 1 (KDIM b)) \<and> i \<in> set (size_t_range 1 (IDIM b))}
   \<union> {SurfaceFace (i, JDIM b - 1, k) 4 [3, 4, 8, 7] | k i.
        k \<in> set (size_t_range 1 (KDIM b)) \<and> i \<in> set (size_t_range 1 (IDIM b))}
   \<union> {SurfaceFace (i, j, 1) 5 [4, 3, 2, 1] | i j.
        i \<in> set (size_t_range 1 (IDIM b)) \<and> j \<in> set (size_t_range 1 (JDIM b))}
   \<union> {SurfaceFace (i, j, KDIM b - 1) 6 [8, 5, 6, 7] | i j.
        i \<in> set (size_t_range 1 (IDIM b)) \<and> j \<in> set (size_t_range 1 (JDIM b))}"
  unfolding block_ops_def Let_def set_append set_loop2 set_loop3 by (simp only: Un_assoc)


lemma init_face_state_ok: "state_ok (init_face_state nf)"
  by (simp add: state_ok_def init_face_state_def)

text \<open>
  Claim C10. The face loop of the constructor of \<^verbatim>\<open>MESH\<close> runs, for every block, the
  rounds of \<open>block_ops\<close>: the internal rounds at \<open>I = i\<close> for \<open>2 \<le> i \<le> nI - 1\<close> with
  the cell \<open>(i - 1, j, k)\<close> on the other side and the local nodes 1, 5, 8, 4, at
  \<open>J = j\<close> with \<open>(i, j - 1, k)\<close> and 6, 5, 1, 2, at \<open>K = k\<close> with \<open>(i, j, k - 1)\<close> and
  4, 3, 2, 1, and the surface rounds with 1, 5, 8, 4 on I-MIN, 2, 3, 7, 6 on I-MAX,
  6, 5, 1, 2 on J-MIN, 3, 4, 8, 7 on J-MAX, 4, 3, 2, 1 on K-MIN and 8, 5, 6, 7 on K-MAX.
  When the loop returns, every round \<open>(b, op)\<close> of it has found its cell and the number
  \<open>f\<close> of its face. After an internal round the record \<open>f\<close> is a quadrilateral, not on
  the boundary, its nodes are the listed nodes of the current cell, its \<^verbatim>\<open>rightCell\<close>
  is the current cell and its \<^verbatim>\<open>leftCell\<close> the cell on the other side; it is still so
  at the end if no later round addresses \<open>f\<close>. After the first round that addresses
  \<open>f\<close>, when that is a surface round, the record has the listed nodes of the current
  cell, \<^verbatim>\<open>rightCell\<close> the current cell and \<^verbatim>\<open>leftCell = 0\<close>, and it is on the boundary
  exactly when the surface has no neighbour; later surface rounds on \<open>f\<close> keep the nodes
  and the \<^verbatim>\<open>rightCell\<close>.
\<close>

theorem C10_face_records:
  assumes "copy_face_info blocks (init_face_state nf) = Inr st"
    and "face_schedule blocks = pre @ (b, op) # post"
  shows "(\<exists>st1 curCell f.
      run_ops (pre @ [(b, op)]) (init_face_state nf) = Inr st1 \<and> run_ops post st1 = Inr st \<and>
      cell_at b (op_cell op) = Inr curCell \<and> FaceSeq curCell (op_local_face op) = Inr f \<and>
      (case op of
         InternalFace cur adj r ord \<Rightarrow>
           (\<exists>adjCell ns. cell_at b adj = Inr adjCell \<and> nodes_of curCell ord = Inr ns \<and>
              face_at st1 f = \<lparr>atBdry = False, f_type = QUADRILATERAL, includedNode = ns,
                               leftCell = CellSeq adjCell, rightCell = CellSeq curCell\<rparr> \<and>
              (list_all (\<lambda>bo. op_face bo \<noteq> Inr f) post \<longrightarrow> face_at st f = face_at st1 f))
       | SurfaceFace cur r ord \<Rightarrow>
           (list_all (\<lambda>bo. op_face bo \<noteq> Inr f) pre \<longrightarrow>
              (\<exists>sp ns. surf b r = Inr sp \<and> nodes_of curCell ord = Inr ns \<and>
                 face_at st1 f = \<lparr>atBdry = (neighbourSurf (m_surf b ! sp) = None),
                                  f_type = QUADRILATERAL, includedNode = ns,
                                  leftCell = 0, rightCell = CellSeq curCell\<rparr> \<and>
                 (list_all (\<lambda>bo. op_face bo \<noteq> Inr f \<or> is_surface_op (snd bo)) post \<longrightarrow>
                    includedNode (face_at st f) = ns \<and>
                    (CellSeq curCell \<noteq> 0 \<longrightarrow> rightCell (face_at st f) = CellSeq curCell))))))
   \<and> set (block_ops b) =
     {InternalFace (i, j, k) (i - 1, j, k) 1 [1, 5, 8, 4] | k j i.
        k \<in> set (size_t_range 1 (KDIM b)) \<and> j \<in> set (size_t_range 1 (JDIM b)) \<and>
        i \<in> set (size_t_range 2 (IDIM b))}
   \<union> {InternalFace (i, j, k) (i, j - 1, k) 3 [6, 5, 1, 2] | k i j.
        k \<in> set (size_t_range 1 (KDIM b)) \<and> i \<in> set (size_t_range 1 (IDIM b)) \<and>
        j \<in> set (size_t_range 2 (JDIM b))}
   \<union> {InternalFace (i, j, k) (i, j, k - 1) 5 [4, 3, 2, 1] | i j k.
        i \<in> set (size_t_range 1 (IDIM b)) \<and> j \<in> set (size_t_range 1 (JDIM b)) \<and>
        k \<in> set (size_t_range 2 (KDIM b))}
   \<union> {SurfaceFace (1, j, k) 1 [1, 5, 8, 4] | k j.
        k \<in> set (size_t_range 1 (KDIM b)) \<and> j \<in> set (size_t_range 1 (JDIM b))}
   \<union> {SurfaceFace (IDIM b - 1, j, k) 2 [2, 3, 7, 6] | k j.
        k \<in> set (size_t_range 1 (KDIM b)) \<and> j \<in> set (size_t_range 1 (JDIM b))}
   \<union> {SurfaceFace (i, 1, k) 3 [6, 5, 1, 2] | k i.
        k \<in> set (size_t_range 1 (KDIM b)) \<and> i \<in> set (size_t_range 1 (IDIM b))}
   \<union> {SurfaceFace (i, JDIM b - 1, k) 4 [3, 4, 8, 7] | k i.
        k \<in> set (size_t_range 1 (KDIM b)) \<and> i \<in> set (size_t_range 1 (IDIM b))}
   \<union> {SurfaceFace (i, j, 1) 5 [4, 3, 2, 1] | i j.
        i \<in> set (size_t_range 1 (IDIM b)) \<and> j \<in> set (size_t_range 1 (JDIM b))}
   \<union> {SurfaceFace (i, j, KDIM b - 1) 6 [8, 5, 6, 7] | i j.
        i \<in> set (size_t_range 1 (IDIM b)) \<and> j \<in> set (size_t_range 1 (JDIM b))}"
proof (rule conjI [OF _ set_block_ops])
  let ?st0 = "init_face_state nf"
  from assms have "run_ops (pre @ (b, op) # post) ?st0 = Inr st"
    by (simp add: copy_face_info_def)
  then obtain s0 st1 where
    r0: "run_ops pre ?st0 = Inr s0" and r1: "run_op b op s0 = Inr st1" and
    r2: "run_ops post st1 = Inr st"
    by (auto simp: run_ops_append run_ops_Cons split: sum.splits)
  have r01: "run_ops (pre @ [(b, op)]) ?st0 = Inr st1"
    by (simp add: run_ops_append run_ops_Cons run_ops_Nil r0 r1)
  have ok0: "state_ok s0" "length (mesh_face s0) = nf"
    using run_ops_state_ok [OF r0 init_face_state_ok] by (simp_all add: init_face_state_def)
  have ok1: "state_ok st1" "length (mesh_face st1) = nf"
    using run_op_state_ok [OF r1 ok0(1)] ok0(2) by simp_all
  show "\<exists>st1 curCell f.
      run_ops (pre @ [(b, op)]) ?st0 = Inr st1 \<and> run_ops post st1 = Inr st \<and>
      cell_at b (op_cell op) = Inr curCell \<and> FaceSeq curCell (op_local_face op) = Inr f \<and>
      (case op of
         InternalFace cur adj r ord \<Rightarrow>
           (\<exists>adjCell ns. cell_at b adj = Inr adjCell \<and> nodes_of curCell ord = Inr ns \<and>
              face_at st1 f = \<lparr>atBdry = False, f_type = QUADRILATERAL, includedNode = ns,
                               leftCell = CellSeq adjCell, rightCell = CellSeq curCell\<rparr> \<and>
              (list_all (\<lambda>bo. op_face bo \<noteq> Inr f) post \<longrightarrow> face_at st f = face_at st1 f))
       | SurfaceFace cur r ord \<Rightarrow>
           (list_all (\<lambda>bo. op_face bo \<noteq> Inr f) pre \<longrightarrow>
              (\<exists>sp ns. surf b r = Inr sp \<and> nodes_of curCell ord = Inr ns \<and>
                 face_at st1 f = \<lparr>atBdry = (neighbourSurf (m_surf b ! sp) = None),
                                  f_type = QUADRILATERAL, includedNode = ns,
                                  leftCell = 0, rightCell = CellSeq curCell\<rparr> \<and>
                 (list_all (\<lambda>bo. op_face bo \<noteq> Inr f \<or> is_surface_op (snd bo)) post \<longrightarrow>
                    includedNode (face_at st f) = ns \<and>
                    (CellSeq curCell \<noteq> 0 \<longrightarrow> rightCell (face_at st f) = CellSeq curCell)))))"
  proof (cases op)
    case (InternalFace cur adj r ord)
    with r1 have "internal_face b cur adj r ord s0 = Inr st1" by simp
    then show ?thesis
    proof (rule internal_face_Inr)
      fix curCell adjCell f ns
      assume h: "cell_at b cur = Inr curCell" "cell_at b adj = Inr adjCell"
        "FaceSeq curCell r = Inr f" "1 \<le> unat f" "unat f \<le> length (mesh_face s0)"
        "nodes_of curCell ord = Inr ns"
        and st1: "st1 = s0\<lparr>mesh_face := (mesh_face s0)[unat f - 1 :=
                  \<lparr>atBdry = False, f_type = QUADRILATERAL, includedNode = ns,
                   leftCell = CellSeq adjCell, rightCell = CellSeq curCell\<rparr>],
               visited := (visited s0)[unat f - 1 := True]\<rparr>"
      have p: "unat f - 1 < length (mesh_face s0)" using h(4,5) by linarith
      have rec: "face_at st1 f = \<lparr>atBdry = False, f_type = QUADRILATERAL, includedNode = ns,
                   leftCell = CellSeq adjCell, rightCell = CellSeq curCell\<rparr>"
        using p by (simp add: st1 face_at_def)
      have fin: "face_at st f = face_at st1 f" if "list_all (\<lambda>bo. op_face bo \<noteq> Inr f) post"
        using run_ops_frame [OF r2 that h(4)] by simp
      show ?thesis
        using r01 r2 h rec fin by (auto simp: InternalFace)
    qed
  next
    case (SurfaceFace cur r ord)
    with r1 have "surface_face b cur r ord s0 = Inr st1" by simp
    then show ?thesis
    proof (rule surface_face_Inr)
      fix curCell f sp
      assume h: "cell_at b cur = Inr curCell" "FaceSeq curCell r = Inr f"
        "1 \<le> unat f" "unat f \<le> length (mesh_face s0)" "surf b r = Inr sp"
        and st1: "(visited s0 ! (unat f - 1) \<and> \<not> atBdry (mesh_face s0 ! (unat f - 1)) \<and>
        (leftCell (mesh_face s0 ! (unat f - 1)) = 0 \<and>
           st1 = s0\<lparr>mesh_face := (mesh_face s0)[unat f - 1 :=
                  (mesh_face s0 ! (unat f - 1))\<lparr>leftCell := CellSeq curCell\<rparr>]\<rparr>
         \<or> leftCell (mesh_face s0 ! (unat f - 1)) \<noteq> 0 \<and> rightCell (mesh_face s0 ! (unat f - 1)) = 0 \<and>
           st1 = s0\<lparr>mesh_face := (mesh_face s0)[unat f - 1 :=
                  (mesh_face s0 ! (unat f - 1))\<lparr>rightCell := CellSeq curCell\<rparr>]\<rparr>))
     \<or> (\<not> visited s0 ! (unat f - 1) \<and>
         (\<exists>ns. nodes_of curCell ord = Inr ns \<and>
            st1 = s0\<lparr>mesh_face := (mesh_face s0)[unat f - 1 :=
                          \<lparr>atBdry = (neighbourSurf (m_surf b ! sp) = None), f_type = QUADRILATERAL,
                           includedNode = ns, leftCell = 0, rightCell = CellSeq curCell\<rparr>],
                       visited := (visited s0)[unat f - 1 := True]\<rparr>))"
      have p: "unat f - 1 < length (mesh_face s0)" using h(3,4) by linarith
      have first: "\<exists>sp ns. surf b r = Inr sp \<and> nodes_of curCell ord = Inr ns \<and>
                 face_at st1 f = \<lparr>atBdry = (neighbourSurf (m_surf b ! sp) = None),
                                  f_type = QUADRILATERAL, includedNode = ns,
                                  leftCell = 0, rightCell = CellSeq curCell\<rparr> \<and>
                 (list_all (\<lambda>bo. op_face bo \<noteq> Inr f \<or> is_surface_op (snd bo)) post \<longrightarrow>
                    includedNode (face_at st f) = ns \<and>
                    (CellSeq curCell \<noteq> 0 \<longrightarrow> rightCell (face_at st f) = CellSeq curCell))"
        if pre: "list_all (\<lambda>bo. op_face bo \<noteq> Inr f) pre"
      proof -
        have "visited s0 ! (unat f - 1) = visited ?st0 ! (unat f - 1)"
          using run_ops_frame [OF r0 pre h(3)] by simp
        also have "\<dots> = False" using p ok0(2) by (simp add: init_face_state_def)
        finally have nv: "\<not> visited s0 ! (unat f - 1)" by simp
        with st1 obtain ns where
          ns: "nodes_of curCell ord = Inr ns" and
          s1: "st1 = s0\<lparr>mesh_face := (mesh_face s0)[unat f - 1 :=
                          \<lparr>atBdry = (neighbourSurf (m_surf b ! sp) = None), f_type = QUADRILATERAL,
                           includedNode = ns, leftCell = 0, rightCell = CellSeq curCell\<rparr>],
                       visited := (visited s0)[unat f - 1 := True]\<rparr>"
          by blast
        have rec: "face_at st1 f = \<lparr>atBdry = (neighbourSurf (m_surf b ! sp) = None),
                                  f_type = QUADRILATERAL, includedNode = ns,
                                  leftCell = 0, rightCell = CellSeq curCell\<rparr>"
          using p by (simp add: s1 face_at_def)
        have vis: "visited st1 ! (unat f - 1)"
          using p ok0(1) by (simp add: s1 state_ok_def)
        have le: "unat f \<le> length (mesh_face st1)" using h(4) ok0(2) ok1(2) by simp
        have "includedNode (face_at st f) = ns \<and>
              (CellSeq curCell \<noteq> 0 \<longrightarrow> rightCell (face_at st f) = CellSeq curCell)"
          if "list_all (\<lambda>bo. op_face bo \<noteq> Inr f \<or> is_surface_op (snd bo)) post"
          using run_ops_later [OF r2 ok1(1) that h(3) le vis] by (simp add: rec)
        then show ?thesis using h(5) ns rec by blast
      qed
      show ?thesis
        using r01 r2 h(1,2) first by (auto simp: SurfaceFace)
    qed
  qed
qed

lemma example_run:
  "case copy_face_info [example_block] (init_face_state 11) of Inr st \<Rightarrow> True | _ \<Rightarrow> False"
  by code_simp

lemma example_schedule:
  "face_schedule [example_block] =
     (example_block, InternalFace (2, 1, 1) (1, 1, 1) 1 [1, 5, 8, 4]) #
     (example_block, SurfaceFace (1, 1, 1) 1 [1, 5, 8, 4]) # drop 2 (face_schedule [example_block])"
  by code_simp

lemma example_cells:
  "cell_at example_block (1, 1, 1) =
     Inr \<lparr>m_cell = 1, m_node = [1, 2, 5, 4, 7, 8, 11, 10], m_face = [1, 2, 4, 6, 8, 10]\<rparr>"
  "cell_at example_block (2, 1, 1) =
     Inr \<lparr>m_cell = 2, m_node = [2, 3, 6, 5, 8, 9, 12, 11], m_face = [2, 3, 5, 7, 9, 11]\<rparr>"
  "FaceSeq \<lparr>m_cell = 1, m_node = [1, 2, 5, 4, 7, 8, 11, 10], m_face = [1, 2, 4, 6, 8, 10]\<rparr> 1 = Inr 1"
  "FaceSeq \<lparr>m_cell = 2, m_node = [2, 3, 6, 5, 8, 9, 12, 11], m_face = [2, 3, 5, 7, 9, 11]\<rparr> 1 = Inr 2"
  "nodes_of \<lparr>m_cell = 1, m_node = [1, 2, 5, 4, 7, 8, 11, 10], m_face = [1, 2, 4, 6, 8, 10]\<rparr> [1, 5, 8, 4]
     = Inr [1, 7, 10, 4]"
  "nodes_of \<lparr>m_cell = 2, m_node = [2, 3, 6, 5, 8, 9, 12, 11], m_face = [2, 3, 5, 7, 9, 11]\<rparr> [1, 5, 8, 4]
     = Inr [2, 8, 11, 5]"
  "CellSeq \<lparr>m_cell = 1, m_node = [1, 2, 5, 4, 7, 8, 11, 10], m_face = [1, 2, 4, 6, 8, 10]\<rparr> = 1"
  "CellSeq \<lparr>m_cell = 2, m_node = [2, 3, 6, 5, 8, 9, 12, 11], m_face = [2, 3, 5, 7, 9, 11]\<rparr> = 2"
  by code_simp+

lemma example_later:
  "list_all (\<lambda>bo. op_face bo \<noteq> Inr 2)
     ((example_block, SurfaceFace (1, 1, 1) 1 [1, 5, 8, 4]) # drop 2 (face_schedule [example_block]))"
  "list_all (\<lambda>bo. op_face bo \<noteq> Inr 1)
     [(example_block, InternalFace (2, 1, 1) (1, 1, 1) 1 [1, 5, 8, 4])]"
  "list_all (\<lambda>bo. op_face bo \<noteq> Inr 1 \<or> is_surface_op (snd bo)) (drop 2 (face_schedule [example_block]))"
  by code_simp+

theorem C10_face_records_witness:
  "\<exists>st. copy_face_info [example_block] (init_face_state 11) = Inr st \<and>
     face_at st 2 = \<lparr>atBdry = False, f_type = QUADRILATERAL, includedNode = [2, 8, 11, 5],
                     leftCell = 1, rightCell = 2\<rparr> \<and>
     includedNode (face_at st 1) = [1, 7, 10, 4] \<and> rightCell (face_at st 1) = 1"
proof -
  obtain st where st: "copy_face_info [example_block] (init_face_state 11) = Inr st"
    using Inr_caseD [OF example_run] by blast
  have s1: "face_schedule [example_block] =
     [] @ (example_block, InternalFace (2, 1, 1) (1, 1, 1) 1 [1, 5, 8, 4]) #
     ((example_block, SurfaceFace (1, 1, 1) 1 [1, 5, 8, 4]) # drop 2 (face_schedule [example_block]))"
    using example_schedule by simp
  have s2: "face_schedule [example_block] =
     [(example_block, InternalFace (2, 1, 1) (1, 1, 1) 1 [1, 5, 8, 4])] @
     (example_block, SurfaceFace (1, 1, 1) 1 [1, 5, 8, 4]) # drop 2 (face_schedule [example_block])"
    using example_schedule by simp
  note t1 = C10_face_records [OF st s1, THEN conjunct1]
  note t2 = C10_face_records [OF st s2, THEN conjunct1]
  have a: "face_at st 2 = \<lparr>atBdry = False, f_type = QUADRILATERAL, includedNode = [2, 8, 11, 5],
                     leftCell = 1, rightCell = 2\<rparr>"
  proof -
    from t1 obtain st1 curCell f adjCell ns where
      h: "cell_at example_block (2, 1, 1) = Inr curCell" "FaceSeq curCell 1 = Inr f"
        "cell_at example_block (1, 1, 1) = Inr adjCell" "nodes_of curCell [1, 5, 8, 4] = Inr ns"
        "face_at st1 f = \<lparr>atBdry = False, f_type = QUADRILATERAL, includedNode = ns,
                               leftCell = CellSeq adjCell, rightCell = CellSeq curCell\<rparr>"
        "list_all (\<lambda>bo. op_face bo \<noteq> Inr f)
           ((example_block, SurfaceFace (1, 1, 1) 1 [1, 5, 8, 4]) # drop 2 (face_schedule [example_block]))
         \<longrightarrow> face_at st f = face_at st1 f"
      unfolding face_op.case op_cell.simps op_local_face.simps by blast
    have c: "curCell = \<lparr>m_cell = 2, m_node = [2, 3, 6, 5, 8, 9, 12, 11], m_face = [2, 3, 5, 7, 9, 11]\<rparr>"
      "adjCell = \<lparr>m_cell = 1, m_node = [1, 2, 5, 4, 7, 8, 11, 10], m_face = [1, 2, 4, 6, 8, 10]\<rparr>"
      using h(1,3) unfolding example_cells by simp_all
    have f: "f = 2" "ns = [2, 8, 11, 5]"
      using h(2,4) unfolding c example_cells by simp_all
    show ?thesis
      using h(5,6) example_later(1) unfolding c f example_cells by simp
  qed
  have b: "includedNode (face_at st 1) = [1, 7, 10, 4] \<and> rightCell (face_at st 1) = 1"
  proof -
    from t2 obtain st1 curCell f where
      h: "cell_at example_block (1, 1, 1) = Inr curCell" "FaceSeq curCell 1 = Inr f"
        "list_all (\<lambda>bo. op_face bo \<noteq> Inr f)
            [(example_block, InternalFace (2, 1, 1) (1, 1, 1) 1 [1, 5, 8, 4])] \<longrightarrow>
         (\<exists>sp ns. surf example_block 1 = Inr sp \<and> nodes_of curCell [1, 5, 8, 4] = Inr ns \<and>
                 face_at st1 f = \<lparr>atBdry = (neighbourSurf (m_surf example_block ! sp) = None),
                                  f_type = QUADRILATERAL, includedNode = ns,
                                  leftCell = 0, rightCell = CellSeq curCell\<rparr> \<and>
                 (list_all (\<lambda>bo. op_face bo \<noteq> Inr f \<or> is_surface_op (snd bo))
                     (drop 2 (face_schedule [example_block])) \<longrightarrow>
                    includedNode (face_at st f) = ns \<and>
                    (CellSeq curCell \<noteq> 0 \<longrightarrow> rightCell (face_at st f) = CellSeq curCell)))"
      unfolding face_op.case op_cell.simps op_local_face.simps by blast
    have c: "curCell = \<lparr>m_cell = 1, m_node = [1, 2, 5, 4, 7, 8, 11, 10], m_face = [1, 2, 4, 6, 8, 10]\<rparr>"
      using h(1) unfolding example_cells by simp
    have f: "f = 1" using h(2) unfolding c example_cells by simp
    from h(3) example_later(2,3) obtain ns where
      n: "nodes_of curCell [1, 5, 8, 4] = Inr ns" "includedNode (face_at st 1) = ns"
        "CellSeq curCell \<noteq> 0 \<longrightarrow> rightCell (face_at st 1) = CellSeq curCell"
      unfolding f by blast
    have "ns = [1, 7, 10, 4]" using n(1) unfolding c example_cells by simp
    then show ?thesis using n(2,3) unfolding c example_cells by simp
  qed
  show ?thesis using st a b by blast
qed

section \<open>Verification: the round trip through writeToFile\<close>

text \<open>
  Claim C9 at \<open>wide_range_nmf\<close> (a defect of the code): \<^verbatim>\<open>readFromFile\<close> parses the
  file, with the wall's range 1, 1, 1, 100000, 1, 2. \<^verbatim>\<open>writeToFile\<close> puts \<^verbatim>\<open>E1\<close> in a
  field of width 6 directly after the field of \<^verbatim>\<open>S1\<close>, so the six digits of 100000
  follow the 1 of \<^verbatim>\<open>S1\<close> with no space between them. Reading the written file gives
  the same block, and a wall with \<^verbatim>\<open>S1\<close> = 1100000, \<^verbatim>\<open>E1\<close> = 1, \<^verbatim>\<open>S2\<close> = 2 and
  \<^verbatim>\<open>E2\<close> = 0.
\<close>

theorem C9_round_trip_fails:
  "(case readFromFile (Some wide_range_nmf) of
      Some (Inr v) \<Rightarrow>
        model_of (snd v) =
          ([Some (2, 2, 2)],
           [SingleSideEntry WALL
              \<lparr>rg_B = 1, rg_F = 1, rg_S1 = 1, rg_E1 = 100000, rg_S2 = 1, rg_E2 = 2\<rparr>])
    | _ \<Rightarrow> False) \<and>
   write_entry (SingleSideEntry WALL
       \<lparr>rg_B = 1, rg_F = 1, rg_S1 = 1, rg_E1 = 100000, rg_S2 = 1, rg_E2 = 2\<rparr>) []
     = Inr (''WALL              1     1        1100000        1     2'' @ endl) \<and>
   (case reread wide_range_nmf of
      Some (Inr v) \<Rightarrow>
        model_of (snd v) =
          ([Some (2, 2, 2)],
           [SingleSideEntry WALL
              \<lparr>rg_B = 1, rg_F = 1, rg_S1 = 1100000, rg_E1 = 1, rg_S2 = 2, rg_E2 = 0\<rparr>])
    | _ \<Rightarrow> False)"
  by code_simp

end
